(* ===== verification/Prelude.thy ===== *)
theory Prelude
  imports Complex_Main "HOL-Library.Word"
begin

text \<open>
  Shared vocabulary of the development: the machine integer types of the Rust code, the error
  type and the outcome of a fallible operation, saturating and signed arithmetic, little-endian
  byte strings, first-minimum and last-maximum selection, decimal printing, and the generic
  invariant rule for machines that are driven by a sequence of events.
\<close>

section \<open>Machine integers\<close>

text \<open>
  Unsigned and signed integers are words of the same width; a signed one is read with \<open>sint\<close>.
  Addition, subtraction and multiplication wrap around, as they do in the release profile of the
  workspace (\<open>overflow-checks\<close> is not set there).
\<close>

type_synonym byte = "8 word"
type_synonym u8 = "8 word"
type_synonym u16 = "16 word"
type_synonym u32 = "32 word"
type_synonym u64 = "64 word"
type_synonym u128 = "128 word"
type_synonym usize = "64 word"
type_synonym i32 = "32 word"
type_synonym i64 = "64 word"
type_synonym time = int \<comment> \<open>a clock reading in nanoseconds\<close>

named_theorems word_facts \<open>conversions between words and numbers\<close>
named_theorems op_defs \<open>definitions of small operations, unfolded when a handler is executed\<close>

lemma unat_bound: "unat (w :: 'a::len word) < 2 ^ LENGTH('a)"
  by (rule unsigned_less)

definition saturating_sub :: "'a::len word \<Rightarrow> 'a word \<Rightarrow> 'a word" where
  "saturating_sub a b = (if a < b then 0 else a - b)"

lemma unat_saturating_sub [word_facts]: "unat (saturating_sub a b) = unat a - unat b"
  by (simp add: saturating_sub_def unat_sub word_less_nat_alt not_less word_le_nat_alt)

lemma saturating_sub_le [simp]: "saturating_sub a b \<le> a"
  by (simp add: word_le_nat_alt unat_saturating_sub)

lemma saturating_sub_self [simp]: "saturating_sub a a = 0"
  by (simp add: saturating_sub_def)

text \<open>\<open>x.max(0)\<close> on a signed value, kept as the bit pattern the cast back to unsigned yields.\<close>

definition signed_max0 :: "'a::len word \<Rightarrow> 'a word" where
  "signed_max0 w = (if sint w < 0 then 0 else w)"

lemma sint_nonneg_uint:
  fixes w :: "'a::len word"
  assumes "0 \<le> sint w"
  shows "sint w = uint w"
proof -
  have "uint w = take_bit LENGTH('a) (sint w)" by (rule uint_sint)
  moreover have "sint w < 2 ^ (LENGTH('a) - 1)" by (rule sint_lt)
  moreover have "(2::int) ^ (LENGTH('a) - 1) \<le> 2 ^ LENGTH('a)" by simp
  ultimately show ?thesis using assms by (simp add: take_bit_int_eq_self)
qed

lemma sint_small:
  fixes w :: "'a::len word"
  assumes "uint w < 2 ^ (LENGTH('a) - 1)"
  shows "sint w = uint w"
proof -
  have "- (2 ^ (LENGTH('a) - Suc 0)) \<le> (0::int)" by simp
  also have "0 \<le> uint w" by simp
  finally have "- (2 ^ (LENGTH('a) - Suc 0)) \<le> uint w" .
  with assms show ?thesis by (simp add: sint_uint signed_take_bit_int_eq_self)
qed

lemma uint_signed_max0 [word_facts]: "uint (signed_max0 w) = max 0 (sint w)"
  by (simp add: signed_max0_def sint_nonneg_uint not_less max_def)

lemma sint_add_in_range:
  fixes a b :: "'a::len word"
  assumes "- (2 ^ (LENGTH('a) - 1)) \<le> sint a + sint b"
    and "sint a + sint b < 2 ^ (LENGTH('a) - 1)"
  shows "sint (a + b) = sint a + sint b"
  using assms by (simp add: sint_word_add signed_take_bit_int_eq_self)

text \<open>The clamped update \<open>(u as iN + d).max(0) as uN\<close> that the usage counters use.\<close>

definition add_delta :: "'a::len word \<Rightarrow> 'a word \<Rightarrow> 'a word" where
  "add_delta u d = signed_max0 (u + d)"

lemma uint_add_delta:
  fixes u d :: "'a::len word"
  assumes "uint u < 2 ^ (LENGTH('a) - 1)" and "uint u + sint d < 2 ^ (LENGTH('a) - 1)"
  shows "uint (add_delta u d) = max 0 (uint u + sint d)"
proof -
  have "- (2 ^ (LENGTH('a) - 1)) \<le> sint d"
    using sint_ge [of d] by simp
  then have "- (2 ^ (LENGTH('a) - 1)) \<le> uint u + sint d"
    using uint_ge_0 [of u] by linarith
  with assms have "sint (u + d) = uint u + sint d"
    by (subst sint_add_in_range) (simp_all add: sint_small)
  then show ?thesis by (simp add: add_delta_def uint_signed_max0)
qed

section \<open>Errors and outcomes\<close>

text \<open>
  The error enum of \<open>error/types.rs\<close>. A variant keeps the fields that identify the failure
  (component, operation, resource, node); human-readable explanations, boxed source errors and
  the deprecated variants are left out. The boxed conversions for redb, raft and bincode errors
  keep their variant.
\<close>

datatype blixard_error =
    ServiceNotFound string | ServiceAlreadyExists string | ServiceManagementError
  | StorageError | StorageTransactionError | StorageTableError
  | RaftError | ClusterError | ClusterJoinError | NodeError
  | ConfigurationError string
  | Connection | NetworkError
  | SerializationError | IoError | SystemError
  | Storage string | Raft string | Serialization string
  | Internal string | NotImplemented string
  | VmOperationFailed string | VmOperationError string string | SchedulingError
  | Security | AuthorizationError
  | NotFound string | NotInitialized string | NotLeader string "u64 option"
  | Validation string | JsonError | GrpcError | P2PError
  | QuotaExceeded string u64 u64 | NodeNotFound u64
  | InsufficientResources | ResourceExhausted string | ResourceUnavailable
  | LockPoisoned string | AlreadyExists string | InvalidOperation string
  | Timeout string | ConnectionError string | TemporaryFailure | DatabaseError string

text \<open>
  The outcome of an operation: a value, an error, a panic (the release profile aborts the
  process), or a call that never returns because it waits for a lock its own caller holds.
\<close>

datatype 'a outcome = Ok 'a | Err blixard_error | Panics | Blocks

fun is_ok :: "'a outcome \<Rightarrow> bool" where
  "is_ok (Ok _) = True"
| "is_ok _ = False"

fun obind :: "'a outcome \<Rightarrow> ('a \<Rightarrow> 'b outcome) \<Rightarrow> 'b outcome" where
  "obind (Ok x) f = f x"
| "obind (Err e) f = Err e"
| "obind Panics f = Panics"
| "obind Blocks f = Blocks"

lemma is_ok_iff: "is_ok r \<longleftrightarrow> (\<exists>x. r = Ok x)"
  by (cases r) auto

lemma obind_eq_Ok [simp]: "obind r f = Ok y \<longleftrightarrow> (\<exists>x. r = Ok x \<and> f x = Ok y)"
  by (cases r) auto

lemma obind_Ok_right [simp]: "obind r Ok = r"
  by (cases r) auto

section \<open>Floating point\<close>

text \<open>
  An IEEE 754 operation is the exact operation on real numbers followed by rounding to the
  format. The rounding function is an argument of every definition that computes with
  \<open>f32\<close> or \<open>f64\<close>; the facts of the standard that are used are that it is monotone and
  exact on 0 and 1. No operation below produces an infinity or a NaN.
\<close>

definition ieee_rounding :: "(real \<Rightarrow> real) \<Rightarrow> bool" where
  "ieee_rounding rnd \<longleftrightarrow> mono rnd \<and> rnd 0 = 0 \<and> rnd 1 = 1"

lemma ieee_rounding_id [simp]: "ieee_rounding (\<lambda>x. x)"
  by (simp add: ieee_rounding_def mono_def)

lemma ieee_rounding_mono: "ieee_rounding rnd \<Longrightarrow> x \<le> y \<Longrightarrow> rnd x \<le> rnd y"
  by (simp add: ieee_rounding_def monoD)

lemma ieee_rounding_0 [simp]: "ieee_rounding rnd \<Longrightarrow> rnd 0 = 0"
  by (simp add: ieee_rounding_def)

lemma ieee_rounding_1 [simp]: "ieee_rounding rnd \<Longrightarrow> rnd 1 = 1"
  by (simp add: ieee_rounding_def)

lemma ieee_rounding_nonneg: "ieee_rounding rnd \<Longrightarrow> 0 \<le> x \<Longrightarrow> 0 \<le> rnd x"
  using ieee_rounding_mono [of rnd 0 x] by simp

lemma ieee_rounding_ge_1: "ieee_rounding rnd \<Longrightarrow> 1 \<le> x \<Longrightarrow> 1 \<le> rnd x"
  using ieee_rounding_mono [of rnd 1 x] by simp

section \<open>Little-endian byte strings\<close>

text \<open>\<open>to_le_bytes\<close> and \<open>from_le_bytes\<close> of the integer types, over the numeric value.\<close>

fun le_bytes :: "nat \<Rightarrow> nat \<Rightarrow> byte list" where
  "le_bytes 0 n = []"
| "le_bytes (Suc k) n = of_nat (n mod 256) # le_bytes k (n div 256)"

fun le_value :: "byte list \<Rightarrow> nat" where
  "le_value [] = 0"
| "le_value (b # bs) = unat b + 256 * le_value bs"

definition u64_to_le_bytes :: "u64 \<Rightarrow> byte list" where
  "u64_to_le_bytes w = le_bytes 8 (unat w)"

definition u32_to_le_bytes :: "u32 \<Rightarrow> byte list" where
  "u32_to_le_bytes w = le_bytes 4 (unat w)"

definition u64_from_le_bytes :: "byte list \<Rightarrow> u64" where
  "u64_from_le_bytes bs = of_nat (le_value bs)"

definition u32_from_le_bytes :: "byte list \<Rightarrow> u32" where
  "u32_from_le_bytes bs = of_nat (le_value bs)"

lemma length_le_bytes [simp]: "length (le_bytes k n) = k"
  by (induction k arbitrary: n) auto

lemma le_value_le_bytes: "le_value (le_bytes k n) = n mod 256 ^ k"
proof (induction k arbitrary: n)
  case 0
  then show ?case by simp
next
  case (Suc k)
  have "unat (of_nat (n mod 256) :: byte) = n mod 256"
    by (simp add: unat_of_nat take_bit_eq_mod)
  with Suc show ?case by (simp add: mod_mult2_eq algebra_simps)
qed

lemma le_value_less: "le_value bs < 256 ^ length bs"
proof (induction bs)
  case Nil
  then show ?case by simp
next
  case (Cons b bs)
  have "unat b < 256" using unat_bound [of b] by simp
  with Cons show ?case by simp
qed

lemma length_u64_to_le_bytes [simp]: "length (u64_to_le_bytes w) = 8"
  by (simp add: u64_to_le_bytes_def)

lemma length_u32_to_le_bytes [simp]: "length (u32_to_le_bytes w) = 4"
  by (simp add: u32_to_le_bytes_def)

lemma u64_from_to_le_bytes [simp]: "u64_from_le_bytes (u64_to_le_bytes w) = w"
  using unat_bound [of w]
  by (simp add: u64_from_le_bytes_def u64_to_le_bytes_def le_value_le_bytes)

lemma u32_from_to_le_bytes [simp]: "u32_from_le_bytes (u32_to_le_bytes w) = w"
  using unat_bound [of w]
  by (simp add: u32_from_le_bytes_def u32_to_le_bytes_def le_value_le_bytes)

lemma u64_to_le_bytes_inject [simp]: "u64_to_le_bytes v = u64_to_le_bytes w \<longleftrightarrow> v = w"
  by (metis u64_from_to_le_bytes)

section \<open>Selection by key\<close>

text \<open>
  \<open>Iterator::min_by_key\<close> returns the first element of least key and \<open>Iterator::max_by_key\<close> the
  last element of greatest key.
\<close>

fun min_by_key :: "('a \<Rightarrow> 'k::linorder) \<Rightarrow> 'a list \<Rightarrow> 'a option" where
  "min_by_key f [] = None"
| "min_by_key f (x # xs) =
     (case min_by_key f xs of
        None \<Rightarrow> Some x
      | Some y \<Rightarrow> Some (if f y < f x then y else x))"

fun max_by_key :: "('a \<Rightarrow> 'k::linorder) \<Rightarrow> 'a list \<Rightarrow> 'a option" where
  "max_by_key f [] = None"
| "max_by_key f (x # xs) =
     (case max_by_key f xs of
        None \<Rightarrow> Some x
      | Some y \<Rightarrow> Some (if f y < f x then x else y))"

lemma min_by_key_None [simp]: "min_by_key f xs = None \<longleftrightarrow> xs = []"
  by (cases xs) (auto split: option.splits)

lemma max_by_key_None [simp]: "max_by_key f xs = None \<longleftrightarrow> xs = []"
  by (cases xs) (auto split: option.splits)

lemma min_by_key_Some:
  "min_by_key f xs = Some m \<Longrightarrow> m \<in> set xs \<and> (\<forall>x \<in> set xs. f m \<le> f x)"
  by (induction xs arbitrary: m) (force split: option.splits if_splits)+

lemma max_by_key_Some:
  "max_by_key f xs = Some m \<Longrightarrow> m \<in> set xs \<and> (\<forall>x \<in> set xs. f x \<le> f m)"
  by (induction xs arbitrary: m) (force split: option.splits if_splits)+

section \<open>Decimal printing\<close>

fun show_nat :: "nat \<Rightarrow> string" where
  "show_nat n =
     (if n < 10 then [char_of (48 + n)] else show_nat (n div 10) @ [char_of (48 + n mod 10)])"

declare show_nat.simps [simp del]

lemma show_nat_nonempty [simp]: "show_nat n \<noteq> []"
  by (subst show_nat.simps) simp

text \<open>\<open>str::to_lowercase\<close> on the ASCII range, which is all the parsers below compare with.\<close>

definition to_lower_char :: "char \<Rightarrow> char" where
  "to_lower_char c =
     (let n = (of_char c :: nat) in if 65 \<le> n \<and> n \<le> 90 then char_of (n + 32) else c)"

definition to_lowercase :: "string \<Rightarrow> string" where
  "to_lowercase = map to_lower_char"

section \<open>Machines driven by events\<close>

text \<open>
  A component that handles one event at a time is a function from its state and an event to the
  next state. An invariant that every step keeps holds after every sequence of events.
\<close>

fun run :: "('s \<Rightarrow> 'e \<Rightarrow> 's) \<Rightarrow> 's \<Rightarrow> 'e list \<Rightarrow> 's" where
  "run step s [] = s"
| "run step s (e # es) = run step (step s e) es"

lemma run_append: "run step s (xs @ ys) = run step (run step s xs) ys"
  by (induction xs arbitrary: s) auto

inductive reach :: "('s \<Rightarrow> 'e \<Rightarrow> 's) \<Rightarrow> ('s \<Rightarrow> 'e \<Rightarrow> bool) \<Rightarrow> 's \<Rightarrow> 's \<Rightarrow> bool"
  for step enabled s0 where
  reach_refl: "reach step enabled s0 s0"
| reach_step: "reach step enabled s0 s \<Longrightarrow> enabled s e \<Longrightarrow> reach step enabled s0 (step s e)"

fun admissible :: "('s \<Rightarrow> 'e \<Rightarrow> 's) \<Rightarrow> ('s \<Rightarrow> 'e \<Rightarrow> bool) \<Rightarrow> 's \<Rightarrow> 'e list \<Rightarrow> bool" where
  "admissible step enabled s [] = True"
| "admissible step enabled s (e # es) = (enabled s e \<and> admissible step enabled (step s e) es)"

lemma reach_trans:
  assumes "reach step enabled s1 s2" and "reach step enabled s0 s1"
  shows "reach step enabled s0 s2"
  using assms by (induction rule: reach.induct) (auto intro: reach.intros)

lemma run_reach: "admissible step enabled s es \<Longrightarrow> reach step enabled s (run step s es)"
proof (induction es arbitrary: s)
  case Nil
  then show ?case by (simp add: reach_refl)
next
  case (Cons e es)
  then have "reach step enabled s (step s e)"
    by (auto intro: reach.intros)
  with Cons show ?case by (auto intro: reach_trans)
qed

locale event_machine =
  fixes step :: "'s \<Rightarrow> 'e \<Rightarrow> 's"
    and enabled :: "'s \<Rightarrow> 'e \<Rightarrow> bool"
    and inv :: "'s \<Rightarrow> bool"
  assumes step_inv: "inv s \<Longrightarrow> enabled s e \<Longrightarrow> inv (step s e)"
begin

lemma reach_inv: "reach step enabled s0 s \<Longrightarrow> inv s0 \<Longrightarrow> inv s"
  by (induction rule: reach.induct) (auto intro: step_inv)

lemma run_inv: "inv s \<Longrightarrow> admissible step enabled s es \<Longrightarrow> inv (run step s es)"
  by (auto intro: reach_inv run_reach)

end

end
