(* ===== verification/Raft_Codec.thy ===== *)
theory Raft_Codec
  imports Prelude
begin

text \<open>
  The hand-written binary codecs of \<open>raft_codec.rs\<close> for Raft log entries, the hard state and the
  configuration state. The records are the fields of the \<open>raft\<close> crate's messages that the codecs
  read and write. \<open>serialize_message\<close> and \<open>deserialize_message\<close> only forward to the protobuf
  methods of that crate and are not modelled.
\<close>

section \<open>Data\<close>

record raft_entry =
  entry_type :: i32
  entry_term :: u64
  entry_index :: u64
  entry_data :: "byte list"
  entry_context :: "byte list"
  entry_sync_log :: bool

record hard_state =
  hs_term :: u64
  hs_vote :: u64
  hs_commit :: u64

record conf_state =
  voters :: "u64 list"
  learners :: "u64 list"
  voters_outgoing :: "u64 list"
  learners_next :: "u64 list"
  auto_leave :: bool

definition hard_state_default :: hard_state where
  "hard_state_default = \<lparr>hs_term = 0, hs_vote = 0, hs_commit = 0\<rparr>"

definition conf_state_default :: conf_state where
  "conf_state_default =
     \<lparr>voters = [], learners = [], voters_outgoing = [], learners_next = [], auto_leave = False\<rparr>"

section \<open>Encoding\<close>

abbreviation flag_byte :: "bool \<Rightarrow> byte" where
  "flag_byte b \<equiv> (if b then 1 else 0)"

definition serialize_entry :: "raft_entry \<Rightarrow> byte list" where
  "serialize_entry e =
     u64_to_le_bytes (entry_index e) @
     u64_to_le_bytes (entry_term e) @
     [ucast (entry_type e)] @
     u32_to_le_bytes (of_nat (length (entry_data e))) @ entry_data e @
     u32_to_le_bytes (of_nat (length (entry_context e))) @ entry_context e @
     [flag_byte (entry_sync_log e)]"

definition serialize_hard_state :: "hard_state \<Rightarrow> byte list" where
  "serialize_hard_state hs =
     u64_to_le_bytes (hs_term hs) @ u64_to_le_bytes (hs_vote hs) @ u64_to_le_bytes (hs_commit hs)"

definition serialize_ids :: "u64 list \<Rightarrow> byte list" where
  "serialize_ids xs = u32_to_le_bytes (of_nat (length xs)) @ concat (map u64_to_le_bytes xs)"

definition serialize_conf_state :: "conf_state \<Rightarrow> byte list" where
  "serialize_conf_state cs =
     serialize_ids (voters cs) @ serialize_ids (learners cs) @
     serialize_ids (voters_outgoing cs) @ serialize_ids (learners_next cs) @
     [flag_byte (auto_leave cs)]"

section \<open>Decoding\<close>

text \<open>\<open>data[i..i + n]\<close>; every use is guarded so that the range lies inside the data.\<close>

definition byte_slice :: "byte list \<Rightarrow> nat \<Rightarrow> nat \<Rightarrow> byte list" where
  "byte_slice d i n = take n (drop i d)"

abbreviation entry_err :: blixard_error where
  "entry_err \<equiv> Serialization ''deserialize entry''"

abbreviation entry_ctx_err :: blixard_error where
  "entry_ctx_err \<equiv> Serialization ''deserialize entry (Entry)''"

abbreviation conf_err :: blixard_error where
  "conf_err \<equiv> Serialization ''deserialize conf state''"

definition deserialize_entry :: "byte list \<Rightarrow> raft_entry outcome" where
  "deserialize_entry d =
     (if length d < 26 then Err entry_ctx_err
      else
        let index = u64_from_le_bytes (byte_slice d 0 8);
            term = u64_from_le_bytes (byte_slice d 8 8);
            etype = ucast (d ! 16)
        in if 17 + 4 > length d then Err entry_ctx_err
        else
          let data_len = unat (u32_from_le_bytes (byte_slice d 17 4)); cursor = 21
          in if cursor + data_len > length d then Err entry_ctx_err
          else
            let edata = byte_slice d cursor data_len; cursor = cursor + data_len
            in if cursor + 4 > length d then Err entry_err
            else
              let context_len = unat (u32_from_le_bytes (byte_slice d cursor 4)); cursor = cursor + 4
              in if cursor + context_len > length d then Err entry_err
              else
                let ctx = byte_slice d cursor context_len; cursor = cursor + context_len
                in if cursor \<ge> length d then Err entry_err
                else Ok \<lparr>entry_type = etype, entry_term = term, entry_index = index,
                         entry_data = edata, entry_context = ctx,
                         entry_sync_log = (d ! cursor \<noteq> 0)\<rparr>)"

definition deserialize_hard_state :: "byte list \<Rightarrow> hard_state outcome" where
  "deserialize_hard_state d =
     (if length d \<noteq> 24 then Err (Serialization ''deserialize hard state'')
      else Ok \<lparr>hs_term = u64_from_le_bytes (byte_slice d 0 8),
               hs_vote = u64_from_le_bytes (byte_slice d 8 8),
               hs_commit = u64_from_le_bytes (byte_slice d 16 8)\<rparr>)"

text \<open>One of the four \<open>for _ in 0..len\<close> loops: it returns the ids read and the advanced cursor.\<close>

fun read_ids_loop :: "byte list \<Rightarrow> nat \<Rightarrow> nat \<Rightarrow> (u64 list \<times> nat) outcome" where
  "read_ids_loop d 0 cursor = Ok ([], cursor)"
| "read_ids_loop d (Suc n) cursor =
     (if cursor + 8 > length d then Err conf_err
      else obind (read_ids_loop d n (cursor + 8))
             (\<lambda>(xs, c). Ok (u64_from_le_bytes (byte_slice d cursor 8) # xs, c)))"

definition read_ids :: "byte list \<Rightarrow> nat \<Rightarrow> (u64 list \<times> nat) outcome" where
  "read_ids d cursor =
     (if cursor + 4 > length d then Err conf_err
      else read_ids_loop d (unat (u32_from_le_bytes (byte_slice d cursor 4))) (cursor + 4))"

definition deserialize_conf_state :: "byte list \<Rightarrow> conf_state outcome" where
  "deserialize_conf_state d =
     (if length d < 16 then Err conf_err
      else obind (read_ids d 0) (\<lambda>(vs, c1).
           obind (read_ids d c1) (\<lambda>(ls, c2).
           obind (read_ids d c2) (\<lambda>(vo, c3).
           obind (read_ids d c3) (\<lambda>(ln, c4).
             Ok \<lparr>voters = vs, learners = ls, voters_outgoing = vo, learners_next = ln,
                 auto_leave = (c4 < length d \<and> d ! c4 \<noteq> 0)\<rparr>)))))"

section \<open>Lemmas\<close>

lemma length_slice [simp]: "i + n \<le> length d \<Longrightarrow> length (byte_slice d i n) = n"
  by (simp add: byte_slice_def)

lemma slice_append_right [simp]: "byte_slice (xs @ ys) (length xs + i) n = byte_slice ys i n"
  by (simp add: byte_slice_def)

lemma slice_append_here: "length ys = n \<Longrightarrow> byte_slice (xs @ ys @ zs) (length xs) n = ys"
  by (simp add: byte_slice_def)

lemma unat_of_nat_u32: "n < 2 ^ 32 \<Longrightarrow> unat (of_nat n :: u32) = n"
  by (simp add: unat_of_nat take_bit_eq_mod)

lemma ucast_i32_byte: "uint (t :: i32) < 256 \<Longrightarrow> (ucast (ucast t :: byte) :: i32) = t"
  by (simp add: word_uint_eq_iff unsigned_ucast_eq take_bit_eq_mod uint_mod)

lemma serialize_entry_parts:
  fixes e
  defines "d \<equiv> serialize_entry e"
    and "n \<equiv> length (entry_data e)" and "m \<equiv> length (entry_context e)"
  shows "length d = 26 + n + m"
    and "byte_slice d 0 8 = u64_to_le_bytes (entry_index e)"
    and "byte_slice d 8 8 = u64_to_le_bytes (entry_term e)"
    and "d ! 16 = ucast (entry_type e)"
    and "byte_slice d 17 4 = u32_to_le_bytes (of_nat n)"
    and "byte_slice d 21 n = entry_data e"
    and "byte_slice d (21 + n) 4 = u32_to_le_bytes (of_nat m)"
    and "byte_slice d (25 + n) m = entry_context e"
    and "d ! (25 + (n + m)) = flag_byte (entry_sync_log e)"
  unfolding assms
  by (simp_all add: serialize_entry_def byte_slice_def nth_append drop_Cons')

lemma deserialize_serialize_entry:
  assumes "uint (entry_type e) < 256"
    and "length (entry_data e) < 2 ^ 32" and "length (entry_context e) < 2 ^ 32"
  shows "deserialize_entry (serialize_entry e) = Ok e"
  using assms
  by (simp add: deserialize_entry_def Let_def serialize_entry_parts unat_of_nat_u32
      ucast_i32_byte add.assoc)

text \<open>
  Conversely, whatever the decoder accepts begins with the canonical encoding of the decoded
  entry, up to the final flag byte.
\<close>

lemma le_bytes_le_value: "length bs = k \<Longrightarrow> le_bytes k (le_value bs) = bs"
proof (induction bs arbitrary: k)
  case Nil
  then show ?case by simp
next
  case (Cons b bs)
  have "unat b < 256" using unat_bound [of b] by simp
  with Cons show ?case by (auto simp: word_unat_eq_iff unat_of_nat take_bit_eq_mod)
qed

lemma u64_to_from_le_bytes: "length bs = 8 \<Longrightarrow> u64_to_le_bytes (u64_from_le_bytes bs) = bs"
  using le_value_less [of bs]
  by (simp add: u64_to_le_bytes_def u64_from_le_bytes_def unat_of_nat take_bit_eq_mod
      le_bytes_le_value)

lemma u32_to_from_le_bytes: "length bs = 4 \<Longrightarrow> u32_to_le_bytes (u32_from_le_bytes bs) = bs"
  using le_value_less [of bs]
  by (simp add: u32_to_le_bytes_def u32_from_le_bytes_def unat_of_nat take_bit_eq_mod
      le_bytes_le_value)

lemma byte_slice_0 [simp]: "byte_slice d 0 n = take n d"
  by (simp add: byte_slice_def)

lemma take_slice_append:
  "take i d @ byte_slice d i n = take (i + n) d"
  "take i d @ byte_slice d i n @ xs = take (i + n) d @ xs"
  by (simp_all add: byte_slice_def take_add)

lemma byte_slice_1: "i < length d \<Longrightarrow> byte_slice d i 1 = [d ! i]"
  by (simp add: byte_slice_def take_Suc_conv_app_nth hd_drop_conv_nth take_Suc)

lemma ucast_byte_i32: "(ucast (ucast (b :: byte) :: i32) :: byte) = b"
  by (rule bit_word_eqI) (simp add: bit_ucast_iff)

lemma deserialize_entry_canonical:
  assumes "deserialize_entry d = Ok e"
  defines "k \<equiv> 25 + length (entry_data e) + length (entry_context e)"
  shows "take k (serialize_entry e) = take k d" and "k < length d"
proof -
  define n where "n = unat (u32_from_le_bytes (byte_slice d 17 4))"
  define m where "m = unat (u32_from_le_bytes (byte_slice d (21 + n) 4))"
  from assms(1) have len: "25 + n + m < length d"
    and e: "e = \<lparr>entry_type = ucast (d ! 16), entry_term = u64_from_le_bytes (byte_slice d 8 8),
               entry_index = u64_from_le_bytes (byte_slice d 0 8), entry_data = byte_slice d 21 n,
               entry_context = byte_slice d (25 + n) m,
               entry_sync_log = (d ! (25 + n + m) \<noteq> 0)\<rparr>"
    by (auto simp: deserialize_entry_def Let_def n_def m_def add.assoc split: if_splits)
  have ln: "length (byte_slice d 21 n) = n" and lm: "length (byte_slice d (25 + n) m) = m"
    using len by simp_all
  have k: "k = 25 + n + m" by (simp add: k_def e ln lm)
  have cn: "u32_to_le_bytes (of_nat n) = byte_slice d 17 4"
    and cm: "u32_to_le_bytes (of_nat m) = byte_slice d (21 + n) 4"
    using len by (simp_all add: n_def m_def u32_to_from_le_bytes)
  have "serialize_entry e =
      byte_slice d 0 8 @ byte_slice d 8 8 @ [d ! 16] @ byte_slice d 17 4 @ byte_slice d 21 n @
      byte_slice d (21 + n) 4 @ byte_slice d (25 + n) m @ [flag_byte (entry_sync_log e)]"
    using len by (simp add: serialize_entry_def e ln lm cn cm u64_to_from_le_bytes ucast_byte_i32)
  also have "[d ! 16] = byte_slice d 16 1"
    using len by (subst byte_slice_1) simp_all
  also have "byte_slice d (25 + n) m = byte_slice d (21 + n + 4) m"
    by (simp add: add.commute)
  finally have "take k (serialize_entry e) = take (21 + n + 4 + m) d"
    using len by (simp add: k take_slice_append)
  then show "take k (serialize_entry e) = take k d" by (simp add: k)
  show "k < length d" using len k by simp
qed

lemma deserialize_entry_cases:
  "(\<exists>e. deserialize_entry d = Ok e) \<or> deserialize_entry d = Err entry_err
   \<or> deserialize_entry d = Err entry_ctx_err"
  by (simp add: deserialize_entry_def Let_def)

lemma deserialize_hard_state_iff:
  "deserialize_hard_state d = Ok hs \<longleftrightarrow> d = serialize_hard_state hs"
proof
  assume "deserialize_hard_state d = Ok hs"
  then have len: "length d = 24"
    and hs: "hs = \<lparr>hs_term = u64_from_le_bytes (byte_slice d 0 8),
               hs_vote = u64_from_le_bytes (byte_slice d 8 8),
               hs_commit = u64_from_le_bytes (byte_slice d 16 8)\<rparr>"
    by (auto simp: deserialize_hard_state_def split: if_splits)
  have "serialize_hard_state hs = take 8 d @ byte_slice d 8 8 @ byte_slice d 16 8"
    using len by (simp add: serialize_hard_state_def hs u64_to_from_le_bytes)
  also have "\<dots> = take 24 d"
    by (simp add: take_slice_append)
  finally show "d = serialize_hard_state hs" using len by simp
next
  assume "d = serialize_hard_state hs"
  then show "deserialize_hard_state d = Ok hs"
    by (simp add: deserialize_hard_state_def serialize_hard_state_def byte_slice_def)
qed

lemma length_concat_u64 [simp]: "length (concat (map u64_to_le_bytes xs)) = 8 * length xs"
  by (induction xs) auto

lemma length_serialize_ids [simp]: "length (serialize_ids xs) = 4 + 8 * length xs"
  by (simp add: serialize_ids_def)

lemma read_ids_loop_concat:
  "read_ids_loop (pre @ concat (map u64_to_le_bytes xs) @ post) (length xs) (length pre)
   = Ok (xs, length pre + 8 * length xs)"
proof (induction xs arbitrary: pre)
  case Nil
  then show ?case by simp
next
  case (Cons x xs)
  from Cons [of "pre @ u64_to_le_bytes x"] show ?case
    by (simp add: slice_append_here)
qed

lemma read_ids_serialize:
  assumes "length xs < 2 ^ 32"
  shows "read_ids (pre @ serialize_ids xs @ post) (length pre)
         = Ok (xs, length pre + length (serialize_ids xs))"
proof -
  let ?l = "u32_to_le_bytes (of_nat (length xs))"
  have "byte_slice (pre @ serialize_ids xs @ post) (length pre) 4 = ?l"
    using slice_append_here [of ?l 4 pre] by (simp add: serialize_ids_def)
  with assms read_ids_loop_concat [of "pre @ ?l" xs post] show ?thesis
    by (simp add: read_ids_def serialize_ids_def unat_of_nat_u32)
qed

lemma deserialize_serialize_conf_state:
  assumes "length (voters cs) < 2 ^ 32" and "length (learners cs) < 2 ^ 32"
    and "length (voters_outgoing cs) < 2 ^ 32" and "length (learners_next cs) < 2 ^ 32"
  shows "deserialize_conf_state (serialize_conf_state cs) = Ok cs"
proof -
  let ?v = "serialize_ids (voters cs)" and ?l = "serialize_ids (learners cs)"
  let ?o = "serialize_ids (voters_outgoing cs)" and ?n = "serialize_ids (learners_next cs)"
  let ?a = "[flag_byte (auto_leave cs)]"
  let ?d = "?v @ ?l @ ?o @ ?n @ ?a"
  have 1: "read_ids ?d 0 = Ok (voters cs, length ?v)"
    using read_ids_serialize [OF assms(1), of "[]" "?l @ ?o @ ?n @ ?a"] by simp
  have 2: "read_ids ?d (length ?v) = Ok (learners cs, length (?v @ ?l))"
    using read_ids_serialize [OF assms(2), of ?v "?o @ ?n @ ?a"] by simp
  have 3: "read_ids ?d (length (?v @ ?l)) = Ok (voters_outgoing cs, length (?v @ ?l @ ?o))"
    using read_ids_serialize [OF assms(3), of "?v @ ?l" "?n @ ?a"] by simp
  have 4: "read_ids ?d (length (?v @ ?l @ ?o)) =
      Ok (learners_next cs, length (?v @ ?l @ ?o @ ?n))"
    using read_ids_serialize [OF assms(4), of "?v @ ?l @ ?o" ?a] by simp
  have 5: "?d ! length (?v @ ?l @ ?o @ ?n) = flag_byte (auto_leave cs)"
    using nth_append_length [of "?v @ ?l @ ?o @ ?n"] by (simp only: append_assoc)
  show ?thesis
    unfolding deserialize_conf_state_def serialize_conf_state_def
    by (simp only: 1 2 3 4 5 obind.simps prod.case) simp
qed

section \<open>The codec's contract\<close>

text \<open>
  C24. Round trip of log entries: an entry whose type fits in the one byte written for it and whose
  two payloads fit their 32-bit length fields is read back unchanged.
\<close>

theorem entry_round_trip:
  assumes "uint (entry_type e) < 256"
    and "length (entry_data e) < 2 ^ 32" and "length (entry_context e) < 2 ^ 32"
  shows "deserialize_entry (serialize_entry e) = Ok e"
  using assms by (rule deserialize_serialize_entry)

theorem entry_round_trip_witness:
  "deserialize_entry (serialize_entry
      \<lparr>entry_type = 1, entry_term = 7, entry_index = 12, entry_data = [5, 6], entry_context = [9],
       entry_sync_log = True\<rparr>) =
    Ok \<lparr>entry_type = 1, entry_term = 7, entry_index = 12, entry_data = [5, 6], entry_context = [9],
        entry_sync_log = True\<rparr>"
  by (rule entry_round_trip) simp_all

text \<open>
  Decoding an entry is total and canonical: every byte string is decoded or refused with one of
  the two errors, and what is decoded re-encodes to the bytes that were read (up to the final
  flag byte, which lies within the input).
\<close>

theorem entry_decode_canonical:
  "(case deserialize_entry d of
      Ok e \<Rightarrow> 25 + length (entry_data e) + length (entry_context e) < length d \<and>
              take (25 + length (entry_data e) + length (entry_context e)) (serialize_entry e) =
              take (25 + length (entry_data e) + length (entry_context e)) d
    | Err x \<Rightarrow> x \<in> {entry_err, entry_ctx_err}
    | _ \<Rightarrow> False)"
proof (cases "deserialize_entry d")
  case (Ok e)
  then show ?thesis using deserialize_entry_canonical [of d e] by simp
qed (use deserialize_entry_cases [of d] in auto)

text \<open>
  The hard-state codec is a bijection between hard states and the byte strings it accepts: a
  string decodes to a hard state exactly when it is that state's encoding.
\<close>

theorem hard_state_codec_exact:
  "deserialize_hard_state d = Ok hs \<longleftrightarrow> d = serialize_hard_state hs"
  by (rule deserialize_hard_state_iff)

text \<open>
  Round trip of the cluster membership: a configuration whose four id lists fit their 32-bit
  length fields is read back unchanged, in order.
\<close>

theorem conf_state_round_trip:
  assumes "length (voters cs) < 2 ^ 32" and "length (learners cs) < 2 ^ 32"
    and "length (voters_outgoing cs) < 2 ^ 32" and "length (learners_next cs) < 2 ^ 32"
  shows "deserialize_conf_state (serialize_conf_state cs) = Ok cs"
  using assms by (rule deserialize_serialize_conf_state)

theorem conf_state_round_trip_witness:
  "deserialize_conf_state (serialize_conf_state
      \<lparr>voters = [1, 2, 3], learners = [4], voters_outgoing = [], learners_next = [5],
       auto_leave = True\<rparr>) =
    Ok \<lparr>voters = [1, 2, 3], learners = [4], voters_outgoing = [], learners_next = [5],
        auto_leave = True\<rparr>"
  by (rule conf_state_round_trip) simp_all

end
