(* ===== verification/Anti_Affinity.thy ===== *)
theory Anti_Affinity
  imports Prelude
begin

text \<open>
  Anti-affinity rules of a virtual machine and the checker that applies them to a candidate node
  (\<open>anti_affinity.rs\<close>). The checker counts, per group and node, the machines already placed;
  hard rules refuse a node that is full, soft rules price it.
\<close>

section \<open>Rules\<close>

datatype anti_affinity_type = Hard | Soft real

definition anti_affinity_type_default :: anti_affinity_type where
  "anti_affinity_type_default = Soft 1"

record anti_affinity_rule =
  rule_type :: anti_affinity_type
  group_key :: string
  max_per_node :: usize
  rule_scope :: "string option"

definition rule_hard :: "string \<Rightarrow> anti_affinity_rule" where
  "rule_hard g = \<lparr>rule_type = Hard, group_key = g, max_per_node = 1, rule_scope = None\<rparr>"

definition rule_soft :: "string \<Rightarrow> real \<Rightarrow> anti_affinity_rule" where
  "rule_soft g w = \<lparr>rule_type = Soft w, group_key = g, max_per_node = 1, rule_scope = None\<rparr>"

definition with_max_per_node :: "anti_affinity_rule \<Rightarrow> usize \<Rightarrow> anti_affinity_rule" where
  "with_max_per_node r n = r\<lparr>max_per_node := n\<rparr>"

definition with_scope :: "anti_affinity_rule \<Rightarrow> string \<Rightarrow> anti_affinity_rule" where
  "with_scope r s = r\<lparr>rule_scope := Some s\<rparr>"

text \<open>\<open>AntiAffinityRules\<close> wraps the vector of rules.\<close>

type_synonym anti_affinity_rules = "anti_affinity_rule list"

definition add_rule :: "anti_affinity_rules \<Rightarrow> anti_affinity_rule \<Rightarrow> anti_affinity_rules" where
  "add_rule rs r = rs @ [r]"

definition is_hard :: "anti_affinity_rule \<Rightarrow> bool" where
  "is_hard r \<longleftrightarrow> (case rule_type r of Hard \<Rightarrow> True | Soft _ \<Rightarrow> False)"

definition has_hard_constraints :: "anti_affinity_rules \<Rightarrow> bool" where
  "has_hard_constraints rs = list_ex is_hard rs"

definition hard_constraints :: "anti_affinity_rules \<Rightarrow> anti_affinity_rule list" where
  "hard_constraints rs = filter is_hard rs"

definition soft_constraints :: "anti_affinity_rules \<Rightarrow> (anti_affinity_rule \<times> real) list" where
  "soft_constraints rs =
     List.map_filter (\<lambda>r. case rule_type r of Hard \<Rightarrow> None | Soft w \<Rightarrow> Some (r, w)) rs"

section \<open>The checker\<close>

type_synonym group_distribution = "string \<rightharpoonup> (u64 \<rightharpoonup> usize)"

definition count_vm :: "u64 \<Rightarrow> group_distribution \<Rightarrow> string \<Rightarrow> group_distribution" where
  "count_vm node_id gd grp =
     (let node_counts = case gd grp of None \<Rightarrow> Map.empty | Some m \<Rightarrow> m;
          count = case node_counts node_id of None \<Rightarrow> 0 | Some n \<Rightarrow> n
      in gd(grp \<mapsto> node_counts(node_id \<mapsto> count + 1)))"

definition checker_new :: "(string \<times> string list \<times> u64) list \<Rightarrow> group_distribution" where
  "checker_new vm_distribution =
     fold (\<lambda>(_, groups, node_id) gd. fold (\<lambda>g d. count_vm node_id d g) groups gd)
       vm_distribution Map.empty"

definition current_count :: "group_distribution \<Rightarrow> string \<Rightarrow> u64 \<Rightarrow> usize" where
  "current_count gd grp node =
     (case Option.bind (gd grp) (\<lambda>nodes. nodes node) of None \<Rightarrow> 0 | Some n \<Rightarrow> n)"

text \<open>The refusal carries the violated rule and the count its message prints.\<close>

fun check_hard_loop :: "group_distribution \<Rightarrow> u64 \<Rightarrow> anti_affinity_rule list \<Rightarrow>
    (anti_affinity_rule \<times> usize) option" where
  "check_hard_loop gd node [] = None"
| "check_hard_loop gd node (r # rs) =
     (if current_count gd (group_key r) node \<ge> max_per_node r
      then Some (r, current_count gd (group_key r) node)
      else check_hard_loop gd node rs)"

definition check_hard_constraints ::
  "group_distribution \<Rightarrow> anti_affinity_rules \<Rightarrow> u64 \<Rightarrow> (anti_affinity_rule \<times> usize) option" where
  "check_hard_constraints gd rs node = check_hard_loop gd node (hard_constraints rs)"

definition check_placement ::
  "group_distribution \<Rightarrow> string \<Rightarrow> u64 \<Rightarrow> anti_affinity_rules \<Rightarrow>
     (anti_affinity_rule \<times> usize) option" where
  "check_placement gd vm_name node rs = check_hard_constraints gd rs node"

definition add_penalty ::
  "(real \<Rightarrow> real) \<Rightarrow> group_distribution \<Rightarrow> u64 \<Rightarrow> real \<Rightarrow> anti_affinity_rule \<times> real \<Rightarrow> real" where
  "add_penalty rnd gd node total_penalty rw =
     (case rw of (r, weight) \<Rightarrow>
        let count = current_count gd (group_key r) node in
        if count \<ge> max_per_node r
        then let excess = rnd (of_nat (unat (count - max_per_node r + 1)))
             in rnd (total_penalty + rnd (excess * weight))
        else total_penalty)"

definition calculate_soft_constraint_penalty ::
  "(real \<Rightarrow> real) \<Rightarrow> group_distribution \<Rightarrow> anti_affinity_rules \<Rightarrow> u64 \<Rightarrow> real" where
  "calculate_soft_constraint_penalty rnd gd rs node =
     foldl (add_penalty rnd gd node) 0 (soft_constraints rs)"

definition get_violating_nodes :: "group_distribution \<Rightarrow> anti_affinity_rules \<Rightarrow> u64 set" where
  "get_violating_nodes gd rs =
     (\<Union>r \<in> set (hard_constraints rs).
        case gd (group_key r) of
          None \<Rightarrow> {}
        | Some node_counts \<Rightarrow>
            {node. case node_counts node of None \<Rightarrow> False | Some count \<Rightarrow> count \<ge> max_per_node r})"

definition get_group_distribution :: "group_distribution \<Rightarrow> string \<Rightarrow> (u64 \<rightharpoonup> usize) option" where
  "get_group_distribution gd g = gd g"

section \<open>Counting\<close>

text \<open>The number of group memberships of the machines on a node, as a natural number.\<close>

definition group_members :: "(string \<times> string list \<times> u64) list \<Rightarrow> string \<Rightarrow> u64 \<Rightarrow> nat" where
  "group_members vms g node =
     sum_list (map (\<lambda>(_, groups, n). if n = node then count_list groups g else 0) vms)"

lemma current_count_count_vm:
  "current_count (count_vm n d g') g node =
     current_count d g node + (if g = g' \<and> node = n then 1 else 0)"
  by (auto simp: current_count_def count_vm_def Let_def split: option.split)

lemma current_count_groups:
  "current_count (fold (\<lambda>g d. count_vm n d g) groups d) g node =
     current_count d g node + of_nat (if n = node then count_list groups g else 0)"
  by (induction groups arbitrary: d) (auto simp: current_count_count_vm)

lemma current_count_fold:
  "current_count
      (fold (\<lambda>(_, groups, node_id) gd. fold (\<lambda>g d. count_vm node_id d g) groups gd) vms d) g node =
   current_count d g node + of_nat (group_members vms g node)"
  by (induction vms arbitrary: d) (auto simp: current_count_groups group_members_def)

lemma current_count_checker_new:
  "current_count (checker_new vms) g node = of_nat (group_members vms g node)"
  by (simp add: checker_new_def current_count_fold) (simp add: current_count_def)

lemma checker_new_snoc:
  "checker_new (vms @ [(name, groups, n)]) = fold (\<lambda>g d. count_vm n d g) groups (checker_new vms)"
  by (simp add: checker_new_def)

lemma check_hard_loop_None:
  "check_hard_loop gd node rs = None \<longleftrightarrow>
     (\<forall>r \<in> set rs. current_count gd (group_key r) node < max_per_node r)"
  by (induction rs) (auto simp: not_le)

lemma check_hard_loop_Some:
  "check_hard_loop gd node rs = Some (r, n) \<Longrightarrow>
     r \<in> set rs \<and> n = current_count gd (group_key r) node \<and> max_per_node r \<le> n"
  by (induction rs) (auto split: if_splits)

lemma mem_case_option:
  "x \<in> (case m of None \<Rightarrow> {} | Some y \<Rightarrow> S y) \<longleftrightarrow> (\<exists>y. m = Some y \<and> x \<in> S y)"
  "(case m of None \<Rightarrow> False | Some y \<Rightarrow> P y) \<longleftrightarrow> (\<exists>y. m = Some y \<and> P y)"
  by (cases m; simp)+

lemma get_violating_nodes_iff:
  "node \<in> get_violating_nodes gd rs \<longleftrightarrow>
     (\<exists>r \<in> set (hard_constraints rs). \<exists>counts n.
        gd (group_key r) = Some counts \<and> counts node = Some n \<and> max_per_node r \<le> n)"
  by (simp add: get_violating_nodes_def mem_case_option)

lemma violating_node_refused:
  assumes "node \<in> get_violating_nodes gd rs"
  shows "check_hard_constraints gd rs node \<noteq> None"
proof -
  obtain r counts n where "r \<in> set (hard_constraints rs)" "gd (group_key r) = Some counts"
    "counts node = Some n" "max_per_node r \<le> n"
    using assms by (auto simp: get_violating_nodes_iff)
  then have "\<not> (\<forall>r \<in> set (hard_constraints rs). current_count gd (group_key r) node < max_per_node r)"
    by (intro notI) (force simp: current_count_def)
  then show ?thesis by (simp add: check_hard_constraints_def check_hard_loop_None)
qed

lemma refused_node_violating:
  assumes "check_hard_constraints gd rs node \<noteq> None"
    and "\<forall>r \<in> set (hard_constraints rs). max_per_node r \<noteq> 0"
  shows "node \<in> get_violating_nodes gd rs"
proof -
  obtain r where r: "r \<in> set (hard_constraints rs)"
    "max_per_node r \<le> current_count gd (group_key r) node"
    using assms(1) by (auto simp: check_hard_constraints_def check_hard_loop_None not_less)
  moreover have "max_per_node r \<noteq> 0" using assms(2) r(1) by blast
  ultimately have "current_count gd (group_key r) node \<noteq> 0"
    by (metis word_le_0_iff)
  then obtain counts n where "gd (group_key r) = Some counts" "counts node = Some n"
    by (auto simp: current_count_def split: option.splits bind_splits)
  with r show ?thesis by (auto simp: get_violating_nodes_iff current_count_def)
qed

lemma add_penalty_ge:
  assumes "ieee_rounding rnd" and "0 \<le> w" and "0 \<le> t"
  shows "0 \<le> add_penalty rnd gd node t (r, w)"
  using assms ieee_rounding_nonneg [OF assms(1)]
  by (simp add: add_penalty_def Let_def del: of_nat_unat)

lemma soft_penalty_nonneg:
  assumes "ieee_rounding rnd" and "\<forall>rw \<in> set (soft_constraints rs). 0 \<le> snd rw"
  shows "0 \<le> calculate_soft_constraint_penalty rnd gd rs node"
proof -
  have "0 \<le> foldl (add_penalty rnd gd node) t cs"
    if "0 \<le> t" and "\<forall>rw \<in> set cs. 0 \<le> snd rw" for t cs
    using that
  proof (induction cs arbitrary: t)
    case (Cons c cs)
    have "0 \<le> add_penalty rnd gd node t (fst c, snd c)"
      using Cons.prems by (intro add_penalty_ge [OF assms(1)]) simp_all
    with Cons show ?case by simp
  qed simp
  then show ?thesis
    using assms(2) by (simp add: calculate_soft_constraint_penalty_def)
qed

section \<open>The checker's contract\<close>

lemma accepted_below:
  assumes "check_placement gd name node rs = None" and "r \<in> set rs" and "rule_type r = Hard"
  shows "current_count gd (group_key r) node < max_per_node r"
  using assms
  by (auto simp: check_placement_def check_hard_constraints_def check_hard_loop_None
      hard_constraints_def is_hard_def)

text \<open>
  C39. A placement accepted by the checker respects every hard rule: as long as a group's machines
  on a node can be counted in a \<open>usize\<close>, if the checker built from the current distribution
  accepts a node for a machine that is in a hard rule's group at most once, then with the machine
  placed there the node holds at most \<open>max_per_node\<close> machines of that group, and the rebuilt
  checker counts exactly that number.
\<close>

theorem accepted_placement_respects_hard_rules:
  assumes "check_placement (checker_new vms) name node rs = None"
    and "r \<in> set rs" and "rule_type r = Hard" and "count_list groups (group_key r) \<le> 1"
    and "group_members vms (group_key r) node + 1 < 2 ^ 64"
  shows "group_members (vms @ [(name, groups, node)]) (group_key r) node \<le> unat (max_per_node r) \<and>
         unat (current_count (checker_new (vms @ [(name, groups, node)])) (group_key r) node) =
           group_members (vms @ [(name, groups, node)]) (group_key r) node"
proof -
  let ?k = "group_members vms (group_key r) node"
  let ?k' = "group_members (vms @ [(name, groups, node)]) (group_key r) node"
  have k': "?k' = ?k + count_list groups (group_key r)"
    by (simp add: group_members_def)
  have fits: "unat (of_nat m :: usize) = m" if "m < 2 ^ 64" for m
    using that by (simp add: unat_of_nat)
  have "current_count (checker_new vms) (group_key r) node < max_per_node r"
    using assms(1-3) by (rule accepted_below)
  then have "?k < unat (max_per_node r)"
    using fits [of ?k] assms(5) by (simp add: current_count_checker_new word_less_nat_alt)
  with assms(4,5) k' fits [of ?k'] show ?thesis
    by (simp add: current_count_checker_new)
qed

theorem accepted_placement_respects_hard_rules_witness:
  "group_members ([(''a'', [''web''], 1)] @ [(''b'', [''web''], 2)]) (group_key (rule_hard ''web'')) 2
     \<le> unat (max_per_node (rule_hard ''web''))"
  using accepted_placement_respects_hard_rules [of "[(''a'', [''web''], 1)]" "''b''" 2
      "[rule_hard ''web'']" "rule_hard ''web''" "[''web'']"]
  by (simp add: rule_hard_def check_placement_def check_hard_constraints_def hard_constraints_def
      is_hard_def current_count_checker_new group_members_def)

text \<open>
  The set of violating nodes agrees with the check: every listed node is refused, and a refused
  node is listed unless some hard rule allows no machine at all (a rule with
  \<open>max_per_node = 0\<close> refuses nodes that have no machine of its group, which the listing omits).
\<close>

theorem violating_nodes_agree:
  "get_violating_nodes gd rs \<subseteq> {node. check_hard_constraints gd rs node \<noteq> None} \<and>
   (\<not> list_ex (\<lambda>r. max_per_node r = 0) (hard_constraints rs) \<longrightarrow>
    get_violating_nodes gd rs = {node. check_hard_constraints gd rs node \<noteq> None})"
  using violating_node_refused refused_node_violating by (auto simp: list_ex_iff)

theorem violating_nodes_agree_witness:
  "2 \<in> get_violating_nodes (checker_new [(''b'', [''web''], 2)]) [rule_hard ''web'']"
  using violating_nodes_agree [of "checker_new [(''b'', [''web''], 2)]" "[rule_hard ''web'']"]
  by (simp add: rule_hard_def check_hard_constraints_def hard_constraints_def is_hard_def
      current_count_checker_new group_members_def)

end
