(* ===== verification/Vm_Health.thy ===== *)
theory Vm_Health
  imports Prelude
begin

text \<open>
  Health checks of a virtual machine and the health state they lead to (\<open>vm_health_types.rs\<close>):
  the check and recovery configuration, the overall status with its failure and success
  counters, and the operations that score a round of checks, move the health state and decide on
  escalation and recovery.
\<close>

section \<open>Data\<close>

datatype health_check_type =
    Http string u16 u64 "(string \<times> string) list option"
  | Tcp string u64
  | Script string "string list" i32 u64
  | Console string "string option" u64
  | Process string u32
  | GuestAgent u64

datatype health_state = Healthy | Degraded | Unhealthy | Unresponsive | Critical | Unknown

datatype health_check_priority = Quick | Deep | Comprehensive

fun priority_rank :: "health_check_priority \<Rightarrow> nat" where
  "priority_rank Quick = 0"
| "priority_rank Deep = 1"
| "priority_rank Comprehensive = 2"

lemma priority_rank_inject: "priority_rank p = priority_rank q \<longleftrightarrow> p = q"
  by (cases p; cases q) auto

text \<open>The derived \<open>Ord\<close> compares the discriminants.\<close>

instantiation health_check_priority :: linorder
begin

definition less_eq_health_check_priority :: "health_check_priority \<Rightarrow> health_check_priority \<Rightarrow> bool"
  where "less_eq_health_check_priority p q \<longleftrightarrow> priority_rank p \<le> priority_rank q"

definition less_health_check_priority :: "health_check_priority \<Rightarrow> health_check_priority \<Rightarrow> bool"
  where "less_health_check_priority p q \<longleftrightarrow> priority_rank p < priority_rank q"

instance
  by standard
    (auto simp: less_eq_health_check_priority_def less_health_check_priority_def
      priority_rank_inject)

end

datatype recovery_action =
    NoAction
  | RestartService string
  | RestartVm
  | RecoverByMigration "u64 option"
  | StopVm
  | CustomScript string "string list"

record recovery_escalation =
  actions :: "(recovery_action \<times> nat) list" \<comment> \<open>delays in seconds\<close>
  max_attempts :: u32
  reset_after :: nat

record health_check =
  hc_name :: string
  hc_check_type :: health_check_type
  hc_critical :: bool
  hc_weight :: real
  hc_priority :: health_check_priority
  hc_recovery_escalation :: "recovery_escalation option"
  hc_failure_threshold :: u32

record vm_health_check_config =
  checks :: "health_check list"
  check_interval_secs :: u64
  failure_threshold :: u32
  success_threshold :: u32
  initial_delay_secs :: u64

record health_check_result =
  r_check_name :: string
  r_success :: bool
  r_message :: string
  r_duration_ms :: u64
  r_timestamp_secs :: i64
  r_error :: "string option"
  r_priority :: health_check_priority
  r_critical :: bool
  r_recovery_action :: "recovery_action option"

record vm_health_status =
  h_state :: health_state
  h_score :: real
  h_check_results :: "health_check_result list"
  h_last_healthy_at_secs :: "i64 option"
  h_consecutive_failures :: u32
  h_consecutive_successes :: u32

definition recovery_escalation_default :: recovery_escalation where
  "recovery_escalation_default =
     \<lparr>actions = [(NoAction, 30), (RestartVm, 300), (RecoverByMigration None, 600)],
      max_attempts = 3, reset_after = 3600\<rparr>"

definition vm_health_check_config_default :: vm_health_check_config where
  "vm_health_check_config_default =
     \<lparr>checks = [], check_interval_secs = 30, failure_threshold = 3, success_threshold = 2,
      initial_delay_secs = 60\<rparr>"

definition vm_health_status_default :: vm_health_status where
  "vm_health_status_default =
     \<lparr>h_state = Unknown, h_score = 0, h_check_results = [], h_last_healthy_at_secs = None,
      h_consecutive_failures = 0, h_consecutive_successes = 0\<rparr>"

section \<open>Operations\<close>

fun priority_name :: "health_check_priority \<Rightarrow> string" where
  "priority_name Quick = ''quick''"
| "priority_name Deep = ''deep''"
| "priority_name Comprehensive = ''comprehensive''"

fun timeout_multiplier :: "health_check_priority \<Rightarrow> real" where
  "timeout_multiplier Quick = 1"
| "timeout_multiplier Deep = 2"
| "timeout_multiplier Comprehensive = 3"

definition needs_attention :: "health_state \<Rightarrow> bool" where
  "needs_attention s \<longleftrightarrow> s \<in> {Unhealthy, Unresponsive, Critical}"

definition is_operational :: "health_state \<Rightarrow> bool" where
  "is_operational s \<longleftrightarrow> s \<in> {Healthy, Degraded}"

fun escalation_level :: "health_state \<Rightarrow> u32" where
  "escalation_level Healthy = 0"
| "escalation_level Degraded = 1"
| "escalation_level Unhealthy = 2"
| "escalation_level Unresponsive = 3"
| "escalation_level Critical = 4"
| "escalation_level Unknown = 0"

definition requires_immediate_action :: "health_state \<Rightarrow> bool" where
  "requires_immediate_action s \<longleftrightarrow> s \<in> {Critical, Unresponsive}"

definition count_results :: "(health_check_result \<Rightarrow> bool) \<Rightarrow> health_check_result list \<Rightarrow> nat" where
  "count_results P rs = length (filter P rs)"

text \<open>\<open>rnd\<close> is rounding to \<open>f32\<close>; \<open>usize as f32\<close> and the division both round.\<close>

definition calculate_score :: "(real \<Rightarrow> real) \<Rightarrow> vm_health_status \<Rightarrow> vm_health_status" where
  "calculate_score rnd st =
     (if h_check_results st = [] then st\<lparr>h_score := 0\<rparr>
      else
        let total_weight = rnd (of_nat (length (h_check_results st)));
            success_weight = rnd (of_nat (count_results r_success (h_check_results st)))
        in st\<lparr>h_score := rnd (success_weight / total_weight)\<rparr>)"

text \<open>The health state a round of checks leads to, before the counters move.\<close>

definition classify :: "(real \<Rightarrow> real) \<Rightarrow> vm_health_check_config \<Rightarrow> vm_health_status \<Rightarrow> health_state" where
  "classify rnd config st =
     (let rs = h_check_results st;
          critical_failures = count_results (\<lambda>r. r_critical r \<and> \<not> r_success r) rs;
          comprehensive_failures =
            count_results (\<lambda>r. r_priority r = Comprehensive \<and> \<not> r_success r) rs;
          total_comprehensive = count_results (\<lambda>r. r_priority r = Comprehensive) rs
      in if critical_failures > 0 \<and> h_consecutive_failures st \<ge> failure_threshold config * 2
         then Critical
         else if critical_failures > 0 \<or>
                 (comprehensive_failures = total_comprehensive \<and> total_comprehensive > 0)
         then Unhealthy
         else if rs = [] \<or> h_consecutive_failures st \<ge> failure_threshold config
         then Unresponsive
         else if h_score st \<ge> rnd (9 / 10) then Healthy
         else if h_score st \<ge> rnd (1 / 2) then Degraded
         else Unhealthy)"

definition update_state ::
  "(real \<Rightarrow> real) \<Rightarrow> vm_health_check_config \<Rightarrow> i64 \<Rightarrow> vm_health_status \<Rightarrow> vm_health_status" where
  "update_state rnd config now_secs st =
     (let s = classify rnd config st; st = st\<lparr>h_state := s\<rparr>
      in if s = Healthy
         then st\<lparr>h_consecutive_successes := h_consecutive_successes st + 1,
                 h_consecutive_failures := 0,
                 h_last_healthy_at_secs := Some now_secs\<rparr>
         else st\<lparr>h_consecutive_failures := h_consecutive_failures st + 1,
                 h_consecutive_successes := 0\<rparr>)"

fun highest_failing :: "health_check_priority option \<Rightarrow> health_check_result list \<Rightarrow>
    health_check_priority option" where
  "highest_failing highest [] = highest"
| "highest_failing highest (r # rs) =
     highest_failing
       (if r_success r then highest
        else case highest of
               None \<Rightarrow> Some (r_priority r)
             | Some current \<Rightarrow> if r_priority r > current then Some (r_priority r) else highest)
       rs"

definition get_highest_failing_priority :: "vm_health_status \<Rightarrow> health_check_priority option" where
  "get_highest_failing_priority st = highest_failing None (h_check_results st)"

definition should_escalate_checks :: "vm_health_status \<Rightarrow> health_check_priority \<Rightarrow> bool" where
  "should_escalate_checks st current_priority =
     (case current_priority of
        Quick \<Rightarrow> (\<exists>r \<in> set (h_check_results st). r_priority r = Quick \<and> \<not> r_success r)
      | Deep \<Rightarrow> (\<exists>r \<in> set (h_check_results st). r_priority r = Deep \<and> \<not> r_success r)
      | Comprehensive \<Rightarrow> False)"

fun trailing_failures :: "string \<Rightarrow> u32 \<Rightarrow> health_check_result list \<Rightarrow> u32" where
  "trailing_failures name n [] = n"
| "trailing_failures name n (r # rs) =
     (if r_check_name r = name
      then if r_success r then n else trailing_failures name (n + 1) rs
      else trailing_failures name n rs)"

definition should_trigger_recovery :: "vm_health_status \<Rightarrow> string \<Rightarrow> u32 \<Rightarrow> bool" where
  "should_trigger_recovery st check_name threshold \<longleftrightarrow>
     trailing_failures check_name 0 (rev (h_check_results st)) \<ge> threshold"

text \<open>
  What one call of the backend's \<open>perform_health_check\<close> gives under the scheduler's timeout: a
  result, an error (its text, the milliseconds that passed and the wall clock), or a timeout (the
  wall clock). The backend is behind a trait object, so its answer is an argument.
\<close>

datatype check_call =
    CheckDone health_check_result
  | CheckFailed string u64 i64
  | CheckTimedOut i64

definition scheduled_result :: "string \<Rightarrow> u64 \<Rightarrow> health_check \<Rightarrow> check_call \<Rightarrow> health_check_result" where
  "scheduled_result timeout_debug timeout_ms check c =
     (case c of
        CheckDone result \<Rightarrow> result
      | CheckFailed e elapsed_ms secs \<Rightarrow>
          \<lparr>r_check_name = hc_name check, r_success = False,
           r_message = ''Health check failed: '' @ e, r_duration_ms = elapsed_ms,
           r_timestamp_secs = secs, r_error = Some e, r_priority = Quick, r_critical = False,
           r_recovery_action = None\<rparr>
      | CheckTimedOut secs \<Rightarrow>
          \<lparr>r_check_name = hc_name check, r_success = False,
           r_message = ''Health check timed out after '' @ timeout_debug,
           r_duration_ms = timeout_ms, r_timestamp_secs = secs, r_error = Some ''Timeout'',
           r_priority = Quick, r_critical = False, r_recovery_action = None\<rparr>)"

definition perform_vm_health_checks ::
  "(real \<Rightarrow> real) \<Rightarrow> string \<Rightarrow> u64 \<Rightarrow> (string \<Rightarrow> health_check_type \<Rightarrow> check_call) \<Rightarrow> i64 \<Rightarrow>
     vm_health_check_config option \<Rightarrow> vm_health_status" where
  "perform_vm_health_checks rnd timeout_debug timeout_ms perform now_secs health_check_config =
     (case health_check_config of
        None \<Rightarrow> vm_health_status_default\<lparr>h_state := Unknown\<rparr>
      | Some config \<Rightarrow>
          update_state rnd config now_secs
            (calculate_score rnd
              (vm_health_status_default\<lparr>h_check_results :=
                 map (\<lambda>check. scheduled_result timeout_debug timeout_ms check
                               (perform (hc_name check) (hc_check_type check)))
                   (checks config)\<rparr>)))"

text \<open>What the scheduler does with the status: is the VM counted as unhealthy, is recovery triggered?\<close>

definition counts_unhealthy :: "vm_health_status \<Rightarrow> bool" where
  "counts_unhealthy st \<longleftrightarrow> h_state st \<in> {Unhealthy, Unresponsive}"

definition triggers_recovery :: "vm_health_status \<Rightarrow> bool" where
  "triggers_recovery st \<longleftrightarrow> counts_unhealthy st \<and> h_consecutive_failures st \<ge> 3"

section \<open>Scores and classification\<close>

lemma count_results_le: "count_results P rs \<le> length rs"
  by (simp add: count_results_def)

lemma count_results_0_iff: "count_results P rs = 0 \<longleftrightarrow> (\<forall>r \<in> set rs. \<not> P r)"
  by (auto simp: count_results_def filter_empty_conv)

lemma count_results_all: "(\<forall>r \<in> set rs. P r) \<Longrightarrow> count_results P rs = length rs"
  by (simp add: count_results_def filter_True)

lemma calculate_score_frame [simp]:
  "h_check_results (calculate_score rnd st) = h_check_results st"
  "h_consecutive_failures (calculate_score rnd st) = h_consecutive_failures st"
  "h_consecutive_successes (calculate_score rnd st) = h_consecutive_successes st"
  "h_state (calculate_score rnd st) = h_state st"
  by (simp_all add: calculate_score_def Let_def)

lemma calculate_score_range:
  assumes "ieee_rounding rnd"
  shows "0 \<le> h_score (calculate_score rnd st)" and "h_score (calculate_score rnd st) \<le> 1"
proof -
  let ?rs = "h_check_results st"
  let ?s = "rnd (of_nat (count_results r_success ?rs))" and ?t = "rnd (of_nat (length ?rs))"
  have "0 \<le> h_score (calculate_score rnd st) \<and> h_score (calculate_score rnd st) \<le> 1"
  proof (cases "?rs = []")
    case False
    then have "1 \<le> length ?rs" by (cases ?rs) auto
    then have t: "1 \<le> ?t" using ieee_rounding_ge_1 [OF assms] by simp
    have s: "0 \<le> ?s" using ieee_rounding_nonneg [OF assms] by simp
    have "?s \<le> ?t" using ieee_rounding_mono [OF assms] count_results_le by simp
    with s t have "0 \<le> ?s / ?t" "?s / ?t \<le> 1" by simp_all
    then have "0 \<le> rnd (?s / ?t)" "rnd (?s / ?t) \<le> 1"
      using ieee_rounding_nonneg [OF assms] ieee_rounding_mono [OF assms, of "?s / ?t" 1] assms
      by simp_all
    with False show ?thesis by (simp add: calculate_score_def Let_def)
  qed (simp add: calculate_score_def)
  then show "0 \<le> h_score (calculate_score rnd st)" and "h_score (calculate_score rnd st) \<le> 1"
    by simp_all
qed

lemma calculate_score_all_pass:
  assumes "ieee_rounding rnd" and "h_check_results st \<noteq> []"
    and "\<forall>r \<in> set (h_check_results st). r_success r"
  shows "h_score (calculate_score rnd st) = 1"
proof -
  let ?rs = "h_check_results st"
  have "1 \<le> length ?rs" using assms(2) by (cases ?rs) auto
  then have "1 \<le> rnd (of_nat (length ?rs))"
    using ieee_rounding_ge_1 [OF assms(1)] by simp
  then show ?thesis
    using assms by (simp add: calculate_score_def count_results_all)
qed

lemma classify_critical_failure:
  assumes "r \<in> set (h_check_results st)" and "r_critical r" and "\<not> r_success r"
  shows "classify rnd config st \<in> {Critical, Unhealthy}"
proof -
  have "count_results (\<lambda>r. r_critical r \<and> \<not> r_success r) (h_check_results st) > 0"
    using assms count_results_0_iff [of "\<lambda>r. r_critical r \<and> \<not> r_success r" "h_check_results st"]
    by auto
  then show ?thesis by (simp add: classify_def Let_def)
qed

lemma classify_above_threshold:
  "failure_threshold config \<le> h_consecutive_failures st \<Longrightarrow>
     classify rnd config st \<in> {Critical, Unhealthy, Unresponsive}"
  by (simp add: classify_def Let_def)

lemma classify_all_pass:
  assumes "h_check_results st \<noteq> []" and "\<forall>r \<in> set (h_check_results st). r_success r"
    and "h_consecutive_failures st < failure_threshold config"
    and "rnd (9 / 10) \<le> h_score st"
  shows "classify rnd config st = Healthy"
proof -
  let ?rs = "h_check_results st"
  have "count_results (\<lambda>r. r_critical r \<and> \<not> r_success r) ?rs = 0"
    "count_results (\<lambda>r. r_priority r = Comprehensive \<and> \<not> r_success r) ?rs = 0"
    using assms(2) by (auto simp: count_results_0_iff)
  with assms show ?thesis by (auto simp: classify_def Let_def dest: leD)
qed

lemma update_state_state [simp]: "h_state (update_state rnd config now st) = classify rnd config st"
  by (simp add: update_state_def Let_def)

lemma update_state_failures:
  "h_consecutive_failures (update_state rnd config now st) =
     (if classify rnd config st = Healthy then 0 else h_consecutive_failures st + 1)"
  by (simp add: update_state_def Let_def)

lemma update_state_successes:
  "h_consecutive_successes (update_state rnd config now st) =
     (if classify rnd config st = Healthy then h_consecutive_successes st + 1 else 0)"
  by (simp add: update_state_def Let_def)

section \<open>Rounds over a retained status\<close>

text \<open>
  A caller that keeps the status between rounds stores new results, scores them and folds them
  into the state.
\<close>

definition health_round ::
  "(real \<Rightarrow> real) \<Rightarrow> vm_health_check_config \<Rightarrow> vm_health_status \<Rightarrow>
     health_check_result list \<times> i64 \<Rightarrow> vm_health_status" where
  "health_round rnd config st ev =
     update_state rnd config (snd ev) (calculate_score rnd (st\<lparr>h_check_results := fst ev\<rparr>))"

text \<open>The failure counter is past the threshold and is \<open>n\<close> rounds away from wrapping.\<close>

definition latched :: "vm_health_check_config \<Rightarrow> nat \<Rightarrow> vm_health_status \<Rightarrow> bool" where
  "latched config n st \<longleftrightarrow>
     failure_threshold config \<le> h_consecutive_failures st \<and>
     unat (h_consecutive_failures st) + n < 2 ^ 32"

lemma word_Suc_le:
  fixes a b :: u32
  assumes "a \<le> b" and "unat b + 1 < 2 ^ 32"
  shows "a \<le> b + 1" and "unat (b + 1) = unat b + 1"
proof -
  have "unat (b + 1) = (unat b + 1) mod 2 ^ 32"
    by (simp add: unat_word_ariths)
  also have "\<dots> = unat b + 1" using assms(2) by simp
  finally show *: "unat (b + 1) = unat b + 1" .
  show "a \<le> b + 1" using assms(1) * by (simp add: word_le_nat_alt)
qed

lemma latched_round:
  assumes "latched config (Suc n) st"
  shows "latched config n (health_round rnd config st ev)"
    and "h_state (health_round rnd config st ev) \<in> {Critical, Unhealthy, Unresponsive}"
proof -
  let ?st = "calculate_score rnd (st\<lparr>h_check_results := fst ev\<rparr>)"
  have th: "failure_threshold config \<le> h_consecutive_failures ?st"
    and room: "unat (h_consecutive_failures ?st) + 1 < 2 ^ 32"
    using assms by (simp_all add: latched_def)
  have c: "classify rnd config ?st \<in> {Critical, Unhealthy, Unresponsive}"
    using th by (rule classify_above_threshold)
  then have nh: "classify rnd config ?st \<noteq> Healthy" by auto
  show "h_state (health_round rnd config st ev) \<in> {Critical, Unhealthy, Unresponsive}"
    using c by (simp add: health_round_def)
  show "latched config n (health_round rnd config st ev)"
    using assms word_Suc_le [OF th room] nh
    by (simp add: latched_def health_round_def update_state_failures)
qed

lemma latched_run:
  "latched config (length evs) st \<Longrightarrow>
     latched config 0 (run (health_round rnd config) st evs)"
  by (induction evs arbitrary: st) (simp_all add: latched_round(1))

section \<open>Priorities and recovery\<close>

lemma Max_insert2: "finite F \<Longrightarrow> Max (insert a (insert b F)) = Max (insert (max a b) F)"
  by (cases "F = {}") (simp_all add: max.assoc)

lemma highest_failing_Max:
  "highest_failing h rs =
     (let P = (case h of None \<Rightarrow> {} | Some p \<Rightarrow> {p}) \<union> r_priority ` {r \<in> set rs. \<not> r_success r}
      in if P = {} then None else Some (Max P))"
proof (induction rs arbitrary: h)
  case Nil
  then show ?case by (simp split: option.split)
next
  case (Cons r rs)
  let ?F = "r_priority ` {r \<in> set rs. \<not> r_success r}"
  have fin: "finite ?F" by simp
  have ins: "{x. (x = r \<or> x \<in> set rs) \<and> \<not> r_success x} =
      (if r_success r then {} else {r}) \<union> {x \<in> set rs. \<not> r_success x}" by auto
  have mx: "Max (insert a (insert b ?F)) = Max (insert (max a b) ?F)" for a b
    using fin by (rule Max_insert2)
  show ?case
    unfolding highest_failing.simps Cons.IH
    using mx by (auto simp: ins Let_def max_def insert_commute split: option.split if_splits)
qed

lemma trailing_failures_count:
  "trailing_failures name n rs =
     n + of_nat (length (takeWhile (\<lambda>r. \<not> r_success r) (filter (\<lambda>r. r_check_name r = name) rs)))"
  by (induction rs arbitrary: n) (auto simp: algebra_simps)

lemma highest_failing_step:
  assumes "get_highest_failing_priority st = Some p"
  shows "\<exists>r \<in> set (h_check_results st). \<not> r_success r \<and> r_priority r = p"
proof -
  let ?F = "r_priority ` {r \<in> set (h_check_results st). \<not> r_success r}"
  have "?F \<noteq> {}" "p = Max ?F"
    using assms by (auto simp: get_highest_failing_priority_def highest_failing_Max Let_def
        split: if_splits)
  then have "p \<in> ?F" using Max_in [of ?F] by simp
  then show ?thesis by auto
qed

section \<open>Properties of the health states\<close>

text \<open>
  The scheduler's recovery branch is dead. It builds each status from the default, so after a
  round at most one consecutive failure is recorded, and the guard \<open>consecutive_failures >= 3\<close>
  that triggers recovery of an unhealthy running VM never holds, whatever the checks return.
\<close>

theorem scheduler_never_recovers:
  "let st = perform_vm_health_checks rnd timeout_debug timeout_ms perform now_secs
              health_check_config
   in h_consecutive_failures st \<in> {0, 1} \<and> \<not> triggers_recovery st"
  by (simp add: Let_def perform_vm_health_checks_def update_state_failures triggers_recovery_def
      vm_health_status_default_def word_le_nat_alt split: option.split)

text \<open>
  The failure latch: a status kept between rounds whose failure counter has reached the
  threshold never becomes healthy or degraded again, even when every later check passes, until
  the 32-bit counter wraps.
\<close>

theorem failure_latch:
  assumes "failure_threshold config \<le> h_consecutive_failures st"
    and "unat (h_consecutive_failures st) + length evs < 2 ^ 32" and "evs \<noteq> []"
  shows "needs_attention (h_state (run (health_round rnd config) st evs))"
proof -
  obtain es ev where evs: "evs = es @ [ev]"
    using assms(3) by (metis append_butlast_last_id)
  have "latched config (length es + 1) st"
    using assms(1,2) by (simp add: latched_def evs)
  then have "latched config 1 (run (health_round rnd config) st es)"
  proof (induction es arbitrary: st)
    case (Cons e es)
    then show ?case by (simp add: latched_round(1))
  qed simp
  then show ?thesis
    using latched_round(2) [of config 0 "run (health_round rnd config) st es" rnd ev]
    by (auto simp: evs run_append needs_attention_def)
qed

theorem failure_latch_witness:
  "needs_attention (h_state (run (health_round (\<lambda>x. x) vm_health_check_config_default)
      (vm_health_status_default\<lparr>h_consecutive_failures := 3\<rparr>)
      (replicate 10 ([\<lparr>r_check_name = ''ping'', r_success = True, r_message = [],
         r_duration_ms = 1, r_timestamp_secs = 0, r_error = None, r_priority = Quick,
         r_critical = True, r_recovery_action = None\<rparr>], 0))))"
  by (rule failure_latch) (simp_all add: vm_health_check_config_default_def)

text \<open>
  C36. The loop that looks for the highest failing priority returns the maximum over the failing
  results, and none exactly when every check passes; recovery of a check is asked for exactly when
  the latest results of that check, back to its last success, hold at least the threshold of
  failures, counted in 32 bits.
\<close>

theorem failing_checks_spec:
  "get_highest_failing_priority st =
     (let P = r_priority ` {r \<in> set (h_check_results st). \<not> r_success r}
      in if P = {} then None else Some (Max P)) \<and>
   should_trigger_recovery st name threshold =
     (threshold \<le> of_nat (length (takeWhile (\<lambda>r. \<not> r_success r)
        (filter (\<lambda>r. r_check_name r = name) (rev (h_check_results st))))))"
  by (simp add: get_highest_failing_priority_def highest_failing_Max should_trigger_recovery_def
      trailing_failures_count)

end
