(* ===== verification/Vm_Types.thy ===== *)
theory Vm_Types
  imports Vm_Health Anti_Affinity
begin

text \<open>
  The shared data types of the cluster (\<open>types.rs\<close>): VM identifiers, configurations, statuses and
  commands, node states and topologies, and the conversions between them and strings, bytes and
  protocol numbers. A \<open>DateTime<Utc>\<close> is an integer; strings are byte strings, compared after
  \<open>to_lowercase\<close> by the parsers.
\<close>

section \<open>VM identifiers\<close>

text \<open>
  A \<open>VmId\<close> wraps a UUID, here its sixteen bytes. The hash of a string by the standard library's
  \<open>DefaultHasher\<close>, whose algorithm is unspecified, is an argument.
\<close>

type_synonym vm_id = "byte list"

definition vm_id_of_hash :: "u64 \<Rightarrow> vm_id" where
  "vm_id_of_hash hash =
     [ucast (drop_bit 56 hash), ucast (drop_bit 48 hash), ucast (drop_bit 40 hash),
      ucast (drop_bit 32 hash), ucast (drop_bit 24 hash), ucast (drop_bit 16 hash),
      or 0x40 (ucast (and (drop_bit 12 hash) 0x0f)),
      ucast (drop_bit 8 hash),
      or 0x80 (ucast (and (drop_bit 4 hash) 0x3f)),
      ucast hash, ucast (drop_bit 32 hash), ucast (drop_bit 24 hash), ucast (drop_bit 16 hash),
      ucast (drop_bit 8 hash), ucast hash, ucast (drop_bit 56 hash)]"

definition vm_id_from_string :: "(string \<Rightarrow> u64) \<Rightarrow> string \<Rightarrow> vm_id" where
  "vm_id_from_string default_hash s = vm_id_of_hash (default_hash s)"

section \<open>Topology and locality\<close>

record node_topology =
  datacenter :: string
  zone :: string
  rack :: string

definition node_topology_default :: node_topology where
  "node_topology_default =
     \<lparr>datacenter = ''default-dc'', zone = ''default-zone'', rack = ''default-rack''\<rparr>"

record locality_preference =
  preferred_datacenter :: "string option"
  preferred_zone :: "string option"
  enforce_same_datacenter :: bool
  spread_across_zones :: bool
  max_latency_ms :: "u32 option"
  excluded_datacenters :: "string list"

definition locality_preference_default :: locality_preference where
  "locality_preference_default =
     \<lparr>preferred_datacenter = None, preferred_zone = None, enforce_same_datacenter = False,
      spread_across_zones = False, max_latency_ms = None, excluded_datacenters = []\<rparr>"

section \<open>VM configuration\<close>

definition default_tenant :: string where "default_tenant = ''default''"

definition default_priority :: u32 where "default_priority = 500"

definition default_preemptible :: bool where "default_preemptible = True"

record vm_config =
  vc_name :: string
  vc_config_path :: string
  vc_vcpus :: u32
  vc_memory :: u32
  vc_tenant_id :: string
  vc_ip_address :: "string option"
  vc_metadata :: "(string \<rightharpoonup> string) option"
  vc_anti_affinity :: "anti_affinity_rules option"
  vc_priority :: u32
  vc_preemptible :: bool
  vc_locality_preference :: locality_preference
  vc_health_check_config :: "vm_health_check_config option"

definition vm_config_default :: vm_config where
  "vm_config_default =
     \<lparr>vc_name = [], vc_config_path = [], vc_vcpus = 1, vc_memory = 1024,
      vc_tenant_id = default_tenant, vc_ip_address = None, vc_metadata = None,
      vc_anti_affinity = None, vc_priority = default_priority,
      vc_preemptible = default_preemptible,
      vc_locality_preference = locality_preference_default, vc_health_check_config = None\<rparr>"

text \<open>The first violated condition, in the order of the code.\<close>

definition vm_config_validate :: "vm_config \<Rightarrow> string + unit" where
  "vm_config_validate c =
     (if vc_priority c > 1000
      then Inl (''Priority must be between 0 and 1000, got '' @ show_nat (unat (vc_priority c)))
      else if vc_name c = [] then Inl ''VM name cannot be empty''
      else if vc_vcpus c = 0 then Inl ''VM must have at least 1 vCPU''
      else if vc_memory c = 0 then Inl ''VM must have at least 1 MB of memory''
      else Inr ())"

section \<open>VM status\<close>

datatype vm_status = Creating | Starting | Running | Stopping | Stopped | Failed

fun vm_status_display :: "vm_status \<Rightarrow> string" where
  "vm_status_display Creating = ''creating''"
| "vm_status_display Starting = ''starting''"
| "vm_status_display Running = ''running''"
| "vm_status_display Stopping = ''stopping''"
| "vm_status_display Stopped = ''stopped''"
| "vm_status_display Failed = ''failed''"

text \<open>The derived \<open>Debug\<close> prints the constructor's name.\<close>

fun vm_status_debug :: "vm_status \<Rightarrow> string" where
  "vm_status_debug Creating = ''Creating''"
| "vm_status_debug Starting = ''Starting''"
| "vm_status_debug Running = ''Running''"
| "vm_status_debug Stopping = ''Stopping''"
| "vm_status_debug Stopped = ''Stopped''"
| "vm_status_debug Failed = ''Failed''"

definition vm_status_from_str :: "string \<Rightarrow> vm_status outcome" where
  "vm_status_from_str s =
     (let l = to_lowercase s in
      if l = ''creating'' then Ok Creating
      else if l = ''starting'' then Ok Starting
      else if l = ''running'' then Ok Running
      else if l = ''stopping'' then Ok Stopping
      else if l = ''stopped'' then Ok Stopped
      else if l = ''failed'' then Ok Failed
      else Err (ConfigurationError ''vm_status''))"

fun vm_status_to_i32 :: "vm_status \<Rightarrow> i32" where
  "vm_status_to_i32 Creating = 1"
| "vm_status_to_i32 Starting = 2"
| "vm_status_to_i32 Running = 3"
| "vm_status_to_i32 Stopping = 4"
| "vm_status_to_i32 Stopped = 5"
| "vm_status_to_i32 Failed = 6"

definition vm_status_try_from_i32 :: "i32 \<Rightarrow> vm_status outcome" where
  "vm_status_try_from_i32 v =
     (if v = 1 then Ok Creating
      else if v = 2 then Ok Starting
      else if v = 3 then Ok Running
      else if v = 4 then Ok Stopping
      else if v = 5 then Ok Stopped
      else if v = 6 then Ok Failed
      else Err (ConfigurationError ''vm_status''))"

section \<open>Node state\<close>

datatype node_state =
  Uninitialized | Initialized | JoiningCluster | Active | LeavingCluster | ErrorState

fun node_state_display :: "node_state \<Rightarrow> string" where
  "node_state_display Uninitialized = ''uninitialized''"
| "node_state_display Initialized = ''initialized''"
| "node_state_display JoiningCluster = ''joining_cluster''"
| "node_state_display Active = ''active''"
| "node_state_display LeavingCluster = ''leaving_cluster''"
| "node_state_display ErrorState = ''error''"

definition node_state_from_str :: "string \<Rightarrow> node_state outcome" where
  "node_state_from_str s =
     (let l = to_lowercase s in
      if l = ''uninitialized'' then Ok Uninitialized
      else if l = ''initialized'' then Ok Initialized
      else if l = ''joining_cluster'' \<or> l = ''joining-cluster'' then Ok JoiningCluster
      else if l = ''active'' then Ok Active
      else if l = ''leaving_cluster'' \<or> l = ''leaving-cluster'' then Ok LeavingCluster
      else if l = ''error'' then Ok ErrorState
      else Err (ConfigurationError ''node_state''))"

section \<open>VM state and commands\<close>

record vm_state =
  vs_name :: string
  vs_config :: vm_config
  vs_status :: vm_status
  vs_node_id :: u64
  vs_created_at :: time
  vs_updated_at :: time

record vm_migration_task =
  mt_vm_name :: string
  mt_source_node_id :: u64
  mt_target_node_id :: u64
  mt_live_migration :: bool
  mt_force :: bool

datatype vm_command =
    Create vm_config u64
  | Start string
  | Stop string
  | Delete string
  | UpdateStatus string vm_status
  | Migrate vm_migration_task

section \<open>Node identifiers\<close>

text \<open>
  \<open>NodeId\<close> wraps a \<open>u64\<close>. Parsing is the standard library's: an optional plus sign, then at least
  one decimal digit, refusing values that do not fit.
\<close>

type_synonym node_id = u64

fun parse_digits :: "nat \<Rightarrow> string \<Rightarrow> u64 option" where
  "parse_digits acc [] = Some (of_nat acc)"
| "parse_digits acc (c # cs) =
     (let n = (of_char c :: nat); v = acc * 10 + (n - 48) in
      if 48 \<le> n \<and> n \<le> 57 \<and> v < 2 ^ 64 then parse_digits v cs else None)"

definition parse_u64 :: "string \<Rightarrow> u64 option" where
  "parse_u64 s =
     (let ds = (if s \<noteq> [] \<and> hd s = CHR ''+'' then tl s else s)
      in if ds = [] then None else parse_digits 0 ds)"

definition node_id_display :: "node_id \<Rightarrow> string" where
  "node_id_display i = show_nat (unat i)"

definition node_id_from_str :: "string \<Rightarrow> node_id outcome" where
  "node_id_from_str s =
     (case parse_u64 s of Some i \<Rightarrow> Ok i | None \<Rightarrow> Err (ConfigurationError ''node_id''))"

section \<open>Small helpers\<close>

text \<open>Collecting pairs into a \<open>HashMap\<close>: a later pair overwrites an earlier one.\<close>

definition from_string_pairs :: "(string \<times> string) list \<Rightarrow> (string \<rightharpoonup> string)" where
  "from_string_pairs pairs = fold (\<lambda>(k, v) m. m(k \<mapsto> v)) pairs Map.empty"

definition ok_or_invalid_input :: "'a option \<Rightarrow> string \<Rightarrow> 'a outcome" where
  "ok_or_invalid_input x field =
     (case x of Some v \<Rightarrow> Ok v | None \<Rightarrow> Err (ConfigurationError field))"

definition ok_or_not_found :: "'a option \<Rightarrow> string \<Rightarrow> 'a outcome" where
  "ok_or_not_found x resource = (case x of Some v \<Rightarrow> Ok v | None \<Rightarrow> Err (NotFound resource))"

datatype hypervisor = CloudHypervisor | Firecracker | Qemu

fun hypervisor_display :: "hypervisor \<Rightarrow> string" where
  "hypervisor_display CloudHypervisor = ''cloud-hypervisor''"
| "hypervisor_display Firecracker = ''firecracker''"
| "hypervisor_display Qemu = ''qemu''"

definition hypervisor_from_str :: "string \<Rightarrow> hypervisor outcome" where
  "hypervisor_from_str s =
     (let l = to_lowercase s in
      if l = ''cloud-hypervisor'' \<or> l = ''cloudhypervisor'' then Ok CloudHypervisor
      else if l = ''firecracker'' then Ok Firecracker
      else if l = ''qemu'' then Ok Qemu
      else Err (ConfigurationError ''hypervisor''))"

section \<open>Round trips\<close>

lemma lowercase_vm_status_display [simp]: "to_lowercase (vm_status_display s) = vm_status_display s"
  by (cases s) (simp_all add: to_lowercase_def to_lower_char_def)

lemma lowercase_vm_status_debug [simp]: "to_lowercase (vm_status_debug s) = vm_status_display s"
  by (cases s) (simp_all add: to_lowercase_def to_lower_char_def char_of_def bit_numeral_rec bit_0)

lemma lowercase_node_state_display [simp]:
  "to_lowercase (node_state_display n) = node_state_display n"
  by (cases n) (simp_all add: to_lowercase_def to_lower_char_def)

lemma lowercase_hypervisor_display [simp]:
  "to_lowercase (hypervisor_display h) = hypervisor_display h"
  by (cases h) (simp_all add: to_lowercase_def to_lower_char_def)

lemma vm_status_from_str_iff:
  "vm_status_from_str s = Ok st \<longleftrightarrow> to_lowercase s = vm_status_display st"
  by (cases st) (auto simp: vm_status_from_str_def Let_def)

lemma node_state_round_trip: "node_state_from_str (node_state_display n) = Ok n"
  unfolding node_state_from_str_def lowercase_node_state_display by (cases n) simp_all

lemma hypervisor_round_trip: "hypervisor_from_str (hypervisor_display h) = Ok h"
  unfolding hypervisor_from_str_def lowercase_hypervisor_display by (cases h) simp_all

lemma vm_status_i32_iff: "vm_status_try_from_i32 v = Ok st \<longleftrightarrow> v = vm_status_to_i32 st"
  by (cases st) (auto simp: vm_status_try_from_i32_def)

lemma parse_digits_append:
  assumes "n < 10" and "acc * 10 + n < 2 ^ 64"
  shows "parse_digits acc [char_of (48 + n)] = Some (of_nat (acc * 10 + n))"
  using assms by simp

lemma parse_digits_show:
  "n < 2 ^ 64 \<Longrightarrow> parse_digits 0 (show_nat n @ cs) = parse_digits n cs"
proof (induction n arbitrary: cs rule: show_nat.induct)
  case (1 n)
  show ?case
  proof (cases "n < 10")
    case True
    then show ?thesis by (subst show_nat.simps) simp
  next
    case False
    have "parse_digits 0 (show_nat n @ cs) =
        parse_digits 0 (show_nat (n div 10) @ char_of (48 + n mod 10) # cs)"
      using False by (subst show_nat.simps) simp
    also have "\<dots> = parse_digits (n div 10) (char_of (48 + n mod 10) # cs)"
      using 1 False by simp
    also have "\<dots> = parse_digits n cs"
    proof -
      have "n mod 10 < 10" by simp
      then have "n mod 10 \<le> 9" by linarith
      then show ?thesis using 1(2) by simp
    qed
    finally show ?thesis .
  qed
qed

lemma show_nat_hd: "48 \<le> (of_char (hd (show_nat n)) :: nat)"
proof (induction n rule: show_nat.induct)
  case (1 n)
  then show ?case
    by (cases "n < 10"; subst show_nat.simps) simp_all
qed

lemma parse_u64_show: "parse_u64 (show_nat (unat (i :: u64))) = Some i"
proof -
  have "hd (show_nat (unat i)) \<noteq> CHR ''+''"
    using show_nat_hd [of "unat i"] by auto
  moreover have "unat i < 2 ^ 64" using unat_bound [of i] by simp
  ultimately show ?thesis
    using parse_digits_show [of "unat i" "[]"] by (simp add: parse_u64_def)
qed

section \<open>Identifiers from strings\<close>

lemma vm_id_version_byte:
  fixes h :: u64
  shows "and (or 0x40 (ucast (and h 0x0f))) 0xF0 = (0x40 :: byte)"
  by (rule bit_word_eqI) (auto simp: bit_simps bit_numeral_rec nth_Cons' less_Suc_eq numeral_eq_Suc)

lemma vm_id_variant_byte:
  fixes h :: u64
  shows "and (or 0x80 (ucast (and h 0x3f))) 0xC0 = (0x80 :: byte)"
  by (rule bit_word_eqI) (auto simp: bit_simps bit_numeral_rec nth_Cons' less_Suc_eq numeral_eq_Suc)

text \<open>The bytes 0 to 5, 7 and 9 carry all eight bytes of the hash.\<close>

lemma vm_id_of_hash_inject: "vm_id_of_hash h = vm_id_of_hash h' \<longleftrightarrow> h = h'"
proof
  assume eq: "vm_id_of_hash h = vm_id_of_hash h'"
  have byte: "bit h (k + i) = bit h' (k + i)"
    if "(ucast (drop_bit k h) :: byte) = ucast (drop_bit k h')" and "i < 8" for k i
  proof -
    have "bit (ucast (drop_bit k h) :: byte) i = bit (ucast (drop_bit k h') :: byte) i"
      using that(1) by simp
    then show ?thesis using that(2) by (simp add: bit_simps)
  qed
  have b0: "(ucast (drop_bit 0 h) :: byte) = ucast (drop_bit 0 h')"
    and bs: "(ucast (drop_bit 8 h) :: byte) = ucast (drop_bit 8 h')"
      "(ucast (drop_bit 16 h) :: byte) = ucast (drop_bit 16 h')"
      "(ucast (drop_bit 24 h) :: byte) = ucast (drop_bit 24 h')"
      "(ucast (drop_bit 32 h) :: byte) = ucast (drop_bit 32 h')"
      "(ucast (drop_bit 40 h) :: byte) = ucast (drop_bit 40 h')"
      "(ucast (drop_bit 48 h) :: byte) = ucast (drop_bit 48 h')"
      "(ucast (drop_bit 56 h) :: byte) = ucast (drop_bit 56 h')"
    using eq by (simp_all add: vm_id_of_hash_def)
  show "h = h'"
  proof (rule bit_word_eqI)
    fix n assume n: "n < LENGTH(64)"
    let ?k = "8 * (n div 8)"
    have "n div 8 \<in> {0, 1, 2, 3, 4, 5, 6, 7}" using n by auto
    then have "(ucast (drop_bit ?k h) :: byte) = ucast (drop_bit ?k h')"
      using b0 bs by auto
    from byte [OF this, of "n mod 8"] show "bit h n = bit h' n" by simp
  qed
qed simp

section \<open>Properties of the conversions\<close>

text \<open>
  C40. VM statuses are read exactly: a string parses to a status if and only if it is the status's
  printed form in some letter case, the \<open>Debug\<close> form that the health monitor sends included, and a
  protocol number is accepted if and only if it is the status's number. Node states, hypervisors
  and node ids are read back from their printed forms.
\<close>

theorem status_conversions_exact:
  "(vm_status_from_str s = Ok st \<longleftrightarrow> to_lowercase s = vm_status_display st) \<and>
   vm_status_from_str (vm_status_debug st) = Ok st \<and>
   (vm_status_try_from_i32 v = Ok st \<longleftrightarrow> v = vm_status_to_i32 st) \<and>
   node_state_from_str (node_state_display n) = Ok n \<and>
   hypervisor_from_str (hypervisor_display h) = Ok h \<and>
   node_id_from_str (node_id_display i) = Ok i"
  by (simp add: vm_status_from_str_iff vm_status_i32_iff node_state_round_trip
      hypervisor_round_trip node_id_from_str_def node_id_display_def parse_u64_show)

text \<open>
  A VM id derived from a string is a well-formed version-4 UUID (sixteen bytes, version nibble 4,
  variant bits 10), and two strings get the same id exactly when their 64-bit hashes agree.
\<close>

theorem vm_id_from_string_uuid:
  "length (vm_id_from_string hash s) = 16 \<and>
   and (vm_id_from_string hash s ! 6) 0xF0 = 0x40 \<and>
   and (vm_id_from_string hash s ! 8) 0xC0 = 0x80 \<and>
   (vm_id_from_string hash s = vm_id_from_string hash s' \<longleftrightarrow> hash s = hash s')"
proof -
  have "vm_id_from_string hash s = vm_id_from_string hash s' \<longleftrightarrow> hash s = hash s'"
    by (simp add: vm_id_from_string_def vm_id_of_hash_inject)
  then show ?thesis
    by (simp add: vm_id_from_string_def vm_id_of_hash_def vm_id_version_byte vm_id_variant_byte)
qed

end
