(* ===== verification/Redb.thy ===== *)
theory Redb
  imports Prelude
begin

text \<open>
  The interface of the embedded key-value store (redb) and of the binary serializer (bincode) that
  the storage layer and the state machine call. Neither is part of the repository: a store is the
  record of the library's calls, and every definition that uses the store takes it as an argument.
  A call that fails returns \<^const>\<open>None\<close>; the conversion of the failure into an error of the
  program (\<open>error/conversions.rs\<close>, \<open>common/error_context.rs\<close>) is written out here. What the program
  relies on is stated by \<open>redb_ok\<close>: transactions work on a copy that replaces the database at
  commit, rows are a map from keys to values, and iteration lists them in key order. Tables have
  the names and the key types of \<open>raft_storage.rs\<close>.
\<close>

section \<open>Tables and keys\<close>

type_synonym blob = "byte list"

datatype table_id =
    VM_STATE_TABLE | CLUSTER_STATE_TABLE
  | RAFT_LOG_TABLE | RAFT_HARD_STATE_TABLE | RAFT_CONF_STATE_TABLE | RAFT_SNAPSHOT_TABLE
  | TASK_TABLE | TASK_ASSIGNMENT_TABLE | TASK_RESULT_TABLE
  | WORKER_TABLE | WORKER_STATUS_TABLE | NODE_TOPOLOGY_TABLE
  | TENANT_QUOTA_TABLE | TENANT_USAGE_TABLE
  | IP_POOL_TABLE | IP_ALLOCATION_TABLE | VM_IP_MAPPING_TABLE
  | RESOURCE_POLICY_TABLE

datatype db_key = Str string | Num u64 | Bytes "byte list"

fun key_str :: "db_key \<Rightarrow> string" where
  "key_str (Str s) = s"
| "key_str _ = []"

fun key_num :: "db_key \<Rightarrow> u64" where
  "key_num (Num n) = n"
| "key_num _ = 0"

fun key_bytes :: "db_key \<Rightarrow> byte list" where
  "key_bytes (Bytes b) = b"
| "key_bytes _ = []"

text \<open>The key type of a table's \<open>TableDefinition\<close>.\<close>

fun key_typed :: "table_id \<Rightarrow> db_key \<Rightarrow> bool" where
  "key_typed T (Num _) = (T \<in> {RAFT_LOG_TABLE, IP_POOL_TABLE})"
| "key_typed T (Bytes _) =
     (T \<in> {WORKER_TABLE, WORKER_STATUS_TABLE, NODE_TOPOLOGY_TABLE, RESOURCE_POLICY_TABLE})"
| "key_typed T (Str _) =
     (T \<notin> {RAFT_LOG_TABLE, IP_POOL_TABLE, WORKER_TABLE, WORKER_STATUS_TABLE, NODE_TOPOLOGY_TABLE,
             RESOURCE_POLICY_TABLE})"

text \<open>Rows come in key order; only the order of integer keys is used.\<close>

fun key_before :: "db_key \<Rightarrow> db_key \<Rightarrow> bool" where
  "key_before (Num a) (Num b) = (a < b)"
| "key_before j k = (j \<noteq> k)"

section \<open>The calls of the store\<close>

text \<open>
  \<open>'d\<close> is the database, \<open>'t\<close> an open write transaction and \<open>'r\<close> an open read transaction.
  Iterating yields a list of results, each of which may be a failure.
\<close>

record ('d, 't, 'r) redb =
  begin_write :: "'d \<Rightarrow> 't option"
  open_table :: "table_id \<Rightarrow> 't \<Rightarrow> 't option"
  insert_row :: "table_id \<Rightarrow> db_key \<Rightarrow> blob \<Rightarrow> 't \<Rightarrow> 't option"
  remove_row :: "table_id \<Rightarrow> db_key \<Rightarrow> 't \<Rightarrow> 't option"
  get_row :: "table_id \<Rightarrow> db_key \<Rightarrow> 't \<Rightarrow> blob option option"
  iter_rows :: "table_id \<Rightarrow> 't \<Rightarrow> (db_key \<times> blob) option list option"
  commit :: "'t \<Rightarrow> 'd \<Rightarrow> bool \<times> 'd"
  begin_read :: "'d \<Rightarrow> 'r option"
  open_read :: "table_id \<Rightarrow> 'r \<Rightarrow> bool"
  get_read :: "table_id \<Rightarrow> db_key \<Rightarrow> 'r \<Rightarrow> blob option option"
  iter_read :: "table_id \<Rightarrow> 'r \<Rightarrow> (db_key \<times> blob) option list option"

type_synonym rows = "table_id \<Rightarrow> db_key \<rightharpoonup> blob"

text \<open>A complete iteration over the rows of a table.\<close>

definition lists_rows :: "(db_key \<times> blob) option list \<Rightarrow> (db_key \<rightharpoonup> blob) \<Rightarrow> bool" where
  "lists_rows xs m \<longleftrightarrow>
     (\<exists>kvs. xs = map Some kvs \<and> sorted_wrt key_before (map fst kvs) \<and> map_of kvs = m)"

definition redb_ok ::
  "('d, 't, 'r) redb \<Rightarrow> ('d \<Rightarrow> rows) \<Rightarrow> ('t \<Rightarrow> rows) \<Rightarrow> ('r \<Rightarrow> rows) \<Rightarrow> bool" where
  "redb_ok R view tview rview \<longleftrightarrow>
     (\<forall>d T k. view d T k \<noteq> None \<longrightarrow> key_typed T k) \<and>
     (\<forall>d t. begin_write R d = Some t \<longrightarrow> tview t = view d) \<and>
     (\<forall>T t t'. open_table R T t = Some t' \<longrightarrow> tview t' = tview t) \<and>
     (\<forall>T k v t t'. insert_row R T k v t = Some t' \<longrightarrow>
        tview t' = (tview t)(T := (tview t T)(k \<mapsto> v))) \<and>
     (\<forall>T k t t'. remove_row R T k t = Some t' \<longrightarrow>
        tview t' = (tview t)(T := (tview t T)(k := None))) \<and>
     (\<forall>T k t v. get_row R T k t = Some v \<longrightarrow> v = tview t T k) \<and>
     (\<forall>T t xs. iter_rows R T t = Some xs \<longrightarrow> None \<notin> set xs \<longrightarrow> lists_rows xs (tview t T)) \<and>
     (\<forall>t d b d'. commit R t d = (b, d') \<longrightarrow> view d' = (if b then tview t else view d)) \<and>
     (\<forall>d r. begin_read R d = Some r \<longrightarrow> rview r = view d) \<and>
     (\<forall>T k r v. get_read R T k r = Some v \<longrightarrow> v = rview r T k) \<and>
     (\<forall>T r xs. iter_read R T r = Some xs \<longrightarrow> None \<notin> set xs \<longrightarrow> lists_rows xs (rview r T))"

text \<open>
  Failures of the store that the code swallows instead of reporting: opening a table for reading,
  reading a row, and single items of an iteration. Properties about code that swallows them assume
  that they do not happen.
\<close>

definition reads_succeed :: "('d, 't, 'r) redb \<Rightarrow> table_id \<Rightarrow> bool" where
  "reads_succeed R T \<longleftrightarrow>
     (\<forall>r. open_read R T r) \<and> (\<forall>k r. get_read R T k r \<noteq> None) \<and>
     (\<forall>r xs. iter_read R T r = Some xs \<longrightarrow> None \<notin> set xs)"

definition items_succeed :: "('d, 't, 'r) redb \<Rightarrow> bool" where
  "items_succeed R \<longleftrightarrow> (\<forall>T t xs. iter_rows R T t = Some xs \<longrightarrow> None \<notin> set xs)"

definition gets_succeed :: "('d, 't, 'r) redb \<Rightarrow> table_id \<Rightarrow> bool" where
  "gets_succeed R T \<longleftrightarrow> (\<forall>k t. get_row R T k t \<noteq> None)"

section \<open>Failures as errors of the program\<close>

definition or_err :: "blixard_error \<Rightarrow> 'a option \<Rightarrow> 'a outcome" where
  "or_err e x = (case x of None \<Rightarrow> Err e | Some y \<Rightarrow> Ok y)"

definition tx_open :: "('d, 't, 'r) redb \<Rightarrow> table_id \<Rightarrow> 't \<Rightarrow> 't outcome" where
  "tx_open R T t = or_err StorageTableError (open_table R T t)"

definition tx_insert :: "('d, 't, 'r) redb \<Rightarrow> table_id \<Rightarrow> db_key \<Rightarrow> blob \<Rightarrow> 't \<Rightarrow> 't outcome" where
  "tx_insert R T k v t = or_err (Storage ''storage_operation'') (insert_row R T k v t)"

definition tx_remove :: "('d, 't, 'r) redb \<Rightarrow> table_id \<Rightarrow> db_key \<Rightarrow> 't \<Rightarrow> 't outcome" where
  "tx_remove R T k t = or_err (Storage ''storage_operation'') (remove_row R T k t)"

definition tx_get :: "('d, 't, 'r) redb \<Rightarrow> table_id \<Rightarrow> db_key \<Rightarrow> 't \<Rightarrow> blob option outcome" where
  "tx_get R T k t = or_err (Storage ''storage_operation'') (get_row R T k t)"

definition tx_iter ::
  "('d, 't, 'r) redb \<Rightarrow> table_id \<Rightarrow> 't \<Rightarrow> (db_key \<times> blob) option list outcome" where
  "tx_iter R T t = or_err (Storage ''storage_operation'') (iter_rows R T t)"

text \<open>
  The end of a handler: commit when the work on the transaction succeeded. On an early return the
  transaction is dropped, which aborts it and leaves the database as it was.
\<close>

definition in_txn ::
  "('d, 't, 'r) redb \<Rightarrow> string \<Rightarrow> 't outcome \<Rightarrow> 'd \<Rightarrow> unit outcome \<times> 'd" where
  "in_txn R operation work d =
     (case work of
        Ok t \<Rightarrow> (case commit R t d of
                  (b, d) \<Rightarrow> (if b then Ok () else Err (Storage operation), d))
      | Err e \<Rightarrow> (Err e, d)
      | Panics \<Rightarrow> (Panics, d)
      | Blocks \<Rightarrow> (Blocks, d))"

text \<open>A function that opens its own transaction, works on it and commits, with \<open>?\<close> on each call.\<close>

definition write_txn ::
  "('d, 't, 'r) redb \<Rightarrow> ('t \<Rightarrow> 't outcome) \<Rightarrow> 'd \<Rightarrow> unit outcome \<times> 'd" where
  "write_txn R work d =
     (case begin_write R d of
        None \<Rightarrow> (Err StorageTransactionError, d)
      | Some t \<Rightarrow> in_txn R ''commit'' (work t) d)"

definition read_txn :: "('d, 't, 'r) redb \<Rightarrow> 'd \<Rightarrow> 'r outcome" where
  "read_txn R d = or_err StorageTransactionError (begin_read R d)"

text \<open>\<open>f(..)?; g(..)\<close> for operations on the database.\<close>

definition db_seq ::
  "unit outcome \<times> 'd \<Rightarrow> ('d \<Rightarrow> unit outcome \<times> 'd) \<Rightarrow> unit outcome \<times> 'd" where
  "db_seq p f = (case p of (Ok _, d) \<Rightarrow> f d | (r, d) \<Rightarrow> (r, d))"

section \<open>Serialization\<close>

record 'a serde =
  enc :: "'a \<Rightarrow> blob option"
  dec :: "blob \<Rightarrow> 'a option"

definition serde_ok :: "'a serde \<Rightarrow> bool" where
  "serde_ok s \<longleftrightarrow> (\<forall>x b. enc s x = Some b \<longrightarrow> dec s b = Some x)"

definition serialize_context :: "string \<Rightarrow> 'a option \<Rightarrow> 'a outcome" where
  "serialize_context operation = or_err (Serialization (''serialize '' @ operation))"

definition deserialize_context :: "string \<Rightarrow> string \<Rightarrow> 'a option \<Rightarrow> 'a outcome" where
  "deserialize_context operation data_type =
     or_err (Serialization (''deserialize '' @ operation @ '' ('' @ data_type @ '')''))"

section \<open>What the calls do to the rows\<close>

lemma or_err_Ok [simp]: "or_err e x = Ok y \<longleftrightarrow> x = Some y"
  by (simp add: or_err_def split: option.splits)

lemma context_Ok [simp]:
  "serialize_context s x = Ok y \<longleftrightarrow> x = Some y"
  "deserialize_context s s' x = Ok y \<longleftrightarrow> x = Some y"
  by (simp_all add: serialize_context_def deserialize_context_def)

lemma redb_laws:
  assumes "redb_ok R view tview rview"
  shows redb_typed: "view d T k \<noteq> None \<Longrightarrow> key_typed T k"
    and redb_begin_write: "begin_write R d = Some t \<Longrightarrow> tview t = view d"
    and redb_open: "tx_open R T t = Ok t' \<Longrightarrow> tview t' = tview t"
    and redb_insert: "tx_insert R T k v t = Ok t' \<Longrightarrow>
          tview t' = (tview t)(T := (tview t T)(k \<mapsto> v))"
    and redb_remove: "tx_remove R T k t = Ok t' \<Longrightarrow>
          tview t' = (tview t)(T := (tview t T)(k := None))"
    and redb_get: "tx_get R T k t = Ok v' \<Longrightarrow> v' = tview t T k"
    and redb_iter: "tx_iter R T t = Ok xs \<Longrightarrow> None \<notin> set xs \<Longrightarrow> lists_rows xs (tview t T)"
    and redb_commit: "commit R t d = (b, d') \<Longrightarrow> view d' = (if b then tview t else view d)"
    and redb_begin_read: "begin_read R d = Some r \<Longrightarrow> rview r = view d"
    and redb_get_read: "get_read R T k r = Some v' \<Longrightarrow> v' = rview r T k"
    and redb_iter_read: "iter_read R T r = Some xs \<Longrightarrow> None \<notin> set xs \<Longrightarrow> lists_rows xs (rview r T)"
  using assms
  by (simp_all only: redb_ok_def tx_open_def tx_insert_def tx_remove_def tx_get_def tx_iter_def
      or_err_Ok) blast+

lemma in_txn_cases:
  assumes "redb_ok R view tview rview" and "in_txn R operation work d = (r, d')"
  shows "(\<exists>t. work = Ok t \<and> r = Ok () \<and> view d' = tview t) \<or> (r \<noteq> Ok () \<and> view d' = view d)"
  using assms(2) redb_commit [OF assms(1)]
  by (auto simp: in_txn_def split: outcome.splits prod.splits if_splits)

lemma in_txn_Ok:
  assumes "redb_ok R view tview rview" and "in_txn R operation work d = (Ok (), d')"
  obtains t where "work = Ok t" and "view d' = tview t"
  using in_txn_cases [OF assms] by auto

lemma in_txn_failed:
  assumes "redb_ok R view tview rview" and "in_txn R operation work d = (r, d')" and "r \<noteq> Ok ()"
  shows "view d' = view d"
  using in_txn_cases [OF assms(1,2)] assms(3) by auto

lemma write_txn_cases:
  assumes "redb_ok R view tview rview" and "write_txn R work d = (r, d')"
  shows "(\<exists>t t'. tview t = view d \<and> work t = Ok t' \<and> r = Ok () \<and> view d' = tview t') \<or>
         (r \<noteq> Ok () \<and> view d' = view d)"
proof (cases "begin_write R d")
  case None
  then show ?thesis using assms(2) by (auto simp: write_txn_def)
next
  case (Some t)
  then have "in_txn R ''commit'' (work t) d = (r, d')" using assms(2) by (simp add: write_txn_def)
  then show ?thesis
    using in_txn_cases [OF assms(1)] redb_begin_write [OF assms(1) Some] by blast
qed

lemma write_txn_Ok:
  assumes "redb_ok R view tview rview" and "write_txn R work d = (Ok (), d')"
  obtains t t' where "tview t = view d" and "work t = Ok t'" and "view d' = tview t'"
  using write_txn_cases [OF assms] by auto

lemma write_txn_failed:
  assumes "redb_ok R view tview rview" and "write_txn R work d = (r, d')" and "r \<noteq> Ok ()"
  shows "view d' = view d"
  using write_txn_cases [OF assms(1,2)] assms(3) by auto

lemma read_txn_Ok:
  assumes "redb_ok R view tview rview" and "read_txn R d = Ok r"
  shows "rview r = view d"
  using assms redb_begin_read [OF assms(1)] by (simp add: read_txn_def)

lemma db_seq_Ok: "db_seq p f = (Ok (), d') \<longleftrightarrow> (\<exists>d. p = (Ok (), d) \<and> f d = (Ok (), d'))"
  by (auto simp: db_seq_def split: prod.splits outcome.splits)

lemma key_before_irrefl [simp]: "\<not> key_before k k"
  by (cases k) auto

lemma sorted_keys_distinct: "sorted_wrt key_before ks \<Longrightarrow> distinct ks"
  by (induction ks) auto

lemma lists_rows_Some: "lists_rows xs m \<Longrightarrow> Some (k, v) \<in> set xs \<longleftrightarrow> m k = Some v"
  by (auto simp: lists_rows_def dest!: sorted_keys_distinct)

section \<open>A store held in memory\<close>

text \<open>
  A concrete store: each table is a list of rows, the first row of a key counts, and rows with a key
  of the wrong type are not seen. Every call succeeds. The witnesses of the storage properties use it.
\<close>

type_synonym mem_db = "table_id \<Rightarrow> (db_key \<times> blob) list"

fun num_less :: "db_key \<Rightarrow> db_key \<Rightarrow> bool" where
  "num_less (Num a) (Num b) = (a < b)"
| "num_less _ _ = False"

fun put_sorted :: "db_key \<Rightarrow> blob \<Rightarrow> (db_key \<times> blob) list \<Rightarrow> (db_key \<times> blob) list" where
  "put_sorted k v [] = [(k, v)]"
| "put_sorted k v ((k', v') # kvs) =
     (if k = k' then (k, v) # kvs
      else if num_less k k' then (k, v) # (k', v') # kvs
      else (k', v') # put_sorted k v kvs)"

definition mem_rows :: "mem_db \<Rightarrow> table_id \<Rightarrow> (db_key \<times> blob) list" where
  "mem_rows d T = foldr (\<lambda>(k, v). put_sorted k v) (filter (\<lambda>(k, v). key_typed T k) (d T)) []"

definition mem_view :: "mem_db \<Rightarrow> rows" where
  "mem_view d T k = (if key_typed T k then map_of (d T) k else None)"

definition mem_redb :: "(mem_db, mem_db, mem_db) redb" where
  "mem_redb =
     \<lparr>begin_write = Some,
      open_table = (\<lambda>T d. Some d),
      insert_row = (\<lambda>T k v d. if key_typed T k then Some (d(T := (k, v) # d T)) else None),
      remove_row = (\<lambda>T k d. Some (d(T := filter (\<lambda>(k', v). k' \<noteq> k) (d T)))),
      get_row = (\<lambda>T k d. Some (mem_view d T k)),
      iter_rows = (\<lambda>T d. Some (map Some (mem_rows d T))),
      commit = (\<lambda>t d. (True, t)),
      begin_read = Some,
      open_read = (\<lambda>T d. True),
      get_read = (\<lambda>T k d. Some (mem_view d T k)),
      iter_read = (\<lambda>T d. Some (map Some (mem_rows d T)))\<rparr>"

lemma num_less_before: "num_less j k \<Longrightarrow> key_before j k"
  by (cases j; cases k) auto

lemma key_before_total: "j \<noteq> k \<Longrightarrow> \<not> num_less j k \<Longrightarrow> key_before k j"
  by (cases j; cases k) auto

lemma key_before_trans: "num_less j k \<Longrightarrow> key_before k l \<Longrightarrow> key_before j l"
  by (cases j; cases k; cases l) auto

lemma set_put_sorted: "fst ` set (put_sorted k v kvs) = insert k (fst ` set kvs)"
  by (induction k v kvs rule: put_sorted.induct) (simp_all add: insert_commute)

lemma sorted_put_sorted:
  "sorted_wrt key_before (map fst kvs) \<Longrightarrow> sorted_wrt key_before (map fst (put_sorted k v kvs))"
proof (induction kvs)
  case (Cons p kvs)
  obtain k' v' where p: "p = (k', v')" by force
  have tl: "sorted_wrt key_before (map fst kvs)" "\<And>l. l \<in> fst ` set kvs \<Longrightarrow> key_before k' l"
    using Cons.prems p by auto
  consider "k = k'" | "k \<noteq> k'" "num_less k k'" | "k \<noteq> k'" "\<not> num_less k k'" by blast
  then show ?case
  proof cases
    case 3
    have "key_before k' l" if "l \<in> fst ` set (put_sorted k v kvs)" for l
      using that tl(2) key_before_total [OF 3] unfolding set_put_sorted by blast
    then show ?thesis using 3 Cons.IH [OF tl(1)] p by auto
  qed (use tl p num_less_before key_before_trans in auto)
qed simp

lemma map_of_put_sorted:
  "sorted_wrt key_before (map fst kvs) \<Longrightarrow> map_of (put_sorted k v kvs) = (map_of kvs)(k \<mapsto> v)"
  by (induction kvs) (auto simp: fun_eq_iff)

lemma mem_rows_fold:
  "sorted_wrt key_before (map fst (foldr (\<lambda>(k, v). put_sorted k v) kvs [])) \<and>
   map_of (foldr (\<lambda>(k, v). put_sorted k v) kvs []) = map_of kvs"
  by (induction kvs) (auto simp: sorted_put_sorted map_of_put_sorted)

lemma map_of_filter_key:
  "map_of (filter (\<lambda>(k, v). P k) kvs) = (\<lambda>k. if P k then map_of kvs k else None)"
  by (induction kvs) (auto simp: fun_eq_iff)

lemma mem_rows_lists: "lists_rows (map Some (mem_rows d T)) (mem_view d T)"
  unfolding lists_rows_def mem_rows_def mem_view_def
  by (intro exI conjI refl)
    (use mem_rows_fold in \<open>auto simp: map_of_filter_key fun_eq_iff\<close>)

lemma mem_view_insert:
  "key_typed T k \<Longrightarrow> mem_view (d(T := (k, v) # d T)) = (mem_view d)(T := (mem_view d T)(k \<mapsto> v))"
  by (auto simp: mem_view_def fun_eq_iff)

lemma mem_view_remove:
  "mem_view (d(T := filter (\<lambda>(k', v). k' \<noteq> k) (d T))) = (mem_view d)(T := (mem_view d T)(k := None))"
  by (auto simp: mem_view_def map_of_filter_key fun_eq_iff)

lemma mem_view_typed: "mem_view d T k \<noteq> None \<Longrightarrow> key_typed T k"
  by (simp add: mem_view_def split: if_splits)

lemma mem_redb_ok: "redb_ok mem_redb mem_view mem_view mem_view"
  unfolding redb_ok_def mem_redb_def redb.simps
  using mem_view_typed
  by (simp add: mem_rows_lists mem_view_insert mem_view_remove)

lemma mem_redb_total [simp]:
  "reads_succeed mem_redb T" "items_succeed mem_redb" "gets_succeed mem_redb T"
  by (auto simp: reads_succeed_def items_succeed_def gets_succeed_def mem_redb_def)

end
