(* ===== verification/Resource_Quotas.thy ===== *)
theory Resource_Quotas
  imports Prelude
begin

text \<open>
  Tenant quotas and usage (\<open>resource_quotas.rs\<close>): the limits, their defaults, the usage records and
  how a VM's resources are added to and taken from a tenant's usage. Counters keep their Rust
  widths; the signed deltas are words of the same width read with \<^const>\<open>sint\<close>.
\<close>

section \<open>Limits\<close>

type_synonym tenant_id = string

record vm_resource_limits =
  max_vms :: u32
  max_vcpus :: u32
  max_memory_mb :: u64
  max_disk_gb :: u64
  max_vms_per_node :: u32
  overcommit_ratio :: real
  limit_priority :: u8

record operation_limits =
  vm_create_per_minute :: u32
  vm_delete_per_minute :: u32
  cluster_join_per_hour :: u32
  status_query_per_second :: u32
  config_change_per_hour :: u32

record api_rate_limits =
  requests_per_second :: u32
  burst_capacity :: u32
  max_concurrent_requests :: u32
  operation_limits :: operation_limits

record storage_limits =
  max_storage_gb :: u64
  max_disk_images :: u32
  max_image_size_gb :: u64
  max_backup_storage_gb :: u64
  max_iops :: u32

record tenant_quota =
  q_tenant_id :: tenant_id
  q_vm_limits :: vm_resource_limits
  q_api_limits :: api_rate_limits
  q_storage_limits :: storage_limits
  q_enabled :: bool
  q_created_at :: time
  q_updated_at :: time

section \<open>Usage\<close>

record vm_resource_usage =
  active_vms :: u32
  used_vcpus :: u32
  used_memory_mb :: u64
  used_disk_gb :: u64
  vms_per_node :: "u64 \<rightharpoonup> u32"

record operation_usage =
  vm_create_current_minute :: u32
  vm_delete_current_minute :: u32
  cluster_join_current_hour :: u32
  status_query_current_second :: u32
  config_change_current_hour :: u32

record api_usage =
  requests_current_second :: u32
  requests_current_minute :: u32
  requests_current_hour :: u32
  api_concurrent_requests :: u32
  operation_usage :: operation_usage
  request_timestamps :: "time list"

record storage_usage =
  used_storage_gb :: u64
  disk_image_count :: u32
  backup_storage_gb :: u64
  current_iops :: u32

record tenant_usage =
  u_tenant_id :: tenant_id
  u_vm_usage :: vm_resource_usage
  u_api_usage :: api_usage
  u_storage_usage :: storage_usage
  u_updated_at :: time

datatype quota_violation =
    VmLimitExceeded u32 u32 u32
  | CpuLimitExceeded u32 u32 u32
  | MemoryLimitExceeded u64 u64 u64
  | DiskLimitExceeded u64 u64 u64
  | PerNodeVmLimitExceeded u64 u32 u32
  | RateLimitExceeded string u32 u32
  | StorageLimitExceeded u64 u64 u64

record resource_request =
  rq_tenant_id :: tenant_id
  rq_node_id :: "u64 option"
  rq_vcpus :: u32
  rq_memory_mb :: u64
  rq_disk_gb :: u64
  rq_timestamp :: time

datatype api_operation =
    VmCreate | VmDelete | VmStart | VmStop | ClusterJoin | ClusterLeave | StatusQuery
  | ConfigChange | MetricsQuery

fun api_operation_display :: "api_operation \<Rightarrow> string" where
  "api_operation_display VmCreate = ''vm_create''"
| "api_operation_display VmDelete = ''vm_delete''"
| "api_operation_display VmStart = ''vm_start''"
| "api_operation_display VmStop = ''vm_stop''"
| "api_operation_display ClusterJoin = ''cluster_join''"
| "api_operation_display ClusterLeave = ''cluster_leave''"
| "api_operation_display StatusQuery = ''status_query''"
| "api_operation_display ConfigChange = ''config_change''"
| "api_operation_display MetricsQuery = ''metrics_query''"

section \<open>Defaults\<close>

text \<open>\<open>rnd32 (12 / 10)\<close> is the \<open>f32\<close> literal \<open>1.2\<close>.\<close>

definition vm_resource_limits_default :: "(real \<Rightarrow> real) \<Rightarrow> vm_resource_limits" where
  "vm_resource_limits_default rnd32 =
     \<lparr>max_vms = 50, max_vcpus = 200, max_memory_mb = 204800, max_disk_gb = 2048,
      max_vms_per_node = 25, overcommit_ratio = rnd32 (12 / 10), limit_priority = 100\<rparr>"

definition operation_limits_default :: operation_limits where
  "operation_limits_default =
     \<lparr>vm_create_per_minute = 10, vm_delete_per_minute = 20, cluster_join_per_hour = 5,
      status_query_per_second = 50, config_change_per_hour = 10\<rparr>"

definition api_rate_limits_default :: api_rate_limits where
  "api_rate_limits_default =
     \<lparr>requests_per_second = 100, burst_capacity = 200, max_concurrent_requests = 50,
      operation_limits = operation_limits_default\<rparr>"

definition storage_limits_default :: storage_limits where
  "storage_limits_default =
     \<lparr>max_storage_gb = 1024, max_disk_images = 100, max_image_size_gb = 100,
      max_backup_storage_gb = 512, max_iops = 10000\<rparr>"

definition vm_resource_usage_default :: vm_resource_usage where
  "vm_resource_usage_default =
     \<lparr>active_vms = 0, used_vcpus = 0, used_memory_mb = 0, used_disk_gb = 0,
      vms_per_node = Map.empty\<rparr>"

definition operation_usage_default :: operation_usage where
  "operation_usage_default =
     \<lparr>vm_create_current_minute = 0, vm_delete_current_minute = 0, cluster_join_current_hour = 0,
      status_query_current_second = 0, config_change_current_hour = 0\<rparr>"

definition api_usage_default :: api_usage where
  "api_usage_default =
     \<lparr>requests_current_second = 0, requests_current_minute = 0, requests_current_hour = 0,
      api_concurrent_requests = 0, operation_usage = operation_usage_default,
      request_timestamps = []\<rparr>"

definition storage_usage_default :: storage_usage where
  "storage_usage_default =
     \<lparr>used_storage_gb = 0, disk_image_count = 0, backup_storage_gb = 0, current_iops = 0\<rparr>"

section \<open>Operations\<close>

definition tenant_quota_new :: "(real \<Rightarrow> real) \<Rightarrow> time \<Rightarrow> tenant_id \<Rightarrow> tenant_quota" where
  "tenant_quota_new rnd32 now t =
     \<lparr>q_tenant_id = t, q_vm_limits = vm_resource_limits_default rnd32,
      q_api_limits = api_rate_limits_default, q_storage_limits = storage_limits_default,
      q_enabled = True, q_created_at = now, q_updated_at = now\<rparr>"

definition update_limits ::
  "tenant_quota \<Rightarrow> vm_resource_limits option \<Rightarrow> api_rate_limits option \<Rightarrow> storage_limits option \<Rightarrow>
     time \<Rightarrow> tenant_quota" where
  "update_limits q vm api storage now =
     (let q = (case vm of Some l \<Rightarrow> q\<lparr>q_vm_limits := l\<rparr> | None \<Rightarrow> q);
          q = (case api of Some l \<Rightarrow> q\<lparr>q_api_limits := l\<rparr> | None \<Rightarrow> q);
          q = (case storage of Some l \<Rightarrow> q\<lparr>q_storage_limits := l\<rparr> | None \<Rightarrow> q)
      in q\<lparr>q_updated_at := now\<rparr>)"

definition tenant_usage_new :: "time \<Rightarrow> tenant_id \<Rightarrow> tenant_usage" where
  "tenant_usage_new now t =
     \<lparr>u_tenant_id = t, u_vm_usage = vm_resource_usage_default, u_api_usage = api_usage_default,
      u_storage_usage = storage_usage_default, u_updated_at = now\<rparr>"

text \<open>The change of the VM part: \<^const>\<open>add_delta\<close> is \<open>(u as iN + d).max(0) as uN\<close>.\<close>

definition add_vm_usage :: "i32 \<Rightarrow> i64 \<Rightarrow> i64 \<Rightarrow> u64 \<Rightarrow> vm_resource_usage \<Rightarrow> vm_resource_usage" where
  "add_vm_usage vcpus memory_mb disk_gb node_id u =
     (let u = u\<lparr>used_vcpus := add_delta (used_vcpus u) vcpus,
                used_memory_mb := add_delta (used_memory_mb u) memory_mb,
                used_disk_gb := add_delta (used_disk_gb u) disk_gb\<rparr>
      in if 0 < sint vcpus then
           u\<lparr>active_vms := active_vms u + 1,
             vms_per_node := (vms_per_node u)(node_id \<mapsto>
               (case vms_per_node u node_id of None \<Rightarrow> 0 | Some c \<Rightarrow> c) + 1)\<rparr>
         else if sint vcpus < 0 then
           u\<lparr>active_vms := saturating_sub (active_vms u) 1,
             vms_per_node :=
               (case vms_per_node u node_id of
                  None \<Rightarrow> vms_per_node u
                | Some c \<Rightarrow>
                    let count = saturating_sub c 1
                    in if count = 0 then (vms_per_node u)(node_id := None)
                       else (vms_per_node u)(node_id \<mapsto> count))\<rparr>
         else u)"

definition update_vm_usage :: "i32 \<Rightarrow> i64 \<Rightarrow> i64 \<Rightarrow> u64 \<Rightarrow> time \<Rightarrow> tenant_usage \<Rightarrow> tenant_usage" where
  "update_vm_usage vcpus memory_mb disk_gb node_id now u =
     u\<lparr>u_vm_usage := add_vm_usage vcpus memory_mb disk_gb node_id (u_vm_usage u),
       u_updated_at := now\<rparr>"

fun quota_violation_display :: "quota_violation \<Rightarrow> string" where
  "quota_violation_display (VmLimitExceeded l c r) =
     ''VM limit exceeded: limit='' @ show_nat (unat l) @ '', current='' @ show_nat (unat c) @
     '', requested='' @ show_nat (unat r)"
| "quota_violation_display (CpuLimitExceeded l c r) =
     ''CPU limit exceeded: limit='' @ show_nat (unat l) @ '', current='' @ show_nat (unat c) @
     '', requested='' @ show_nat (unat r)"
| "quota_violation_display (MemoryLimitExceeded l c r) =
     ''Memory limit exceeded: limit='' @ show_nat (unat l) @ ''MB, current='' @ show_nat (unat c) @
     ''MB, requested='' @ show_nat (unat r) @ ''MB''"
| "quota_violation_display (DiskLimitExceeded l c r) =
     ''Disk limit exceeded: limit='' @ show_nat (unat l) @ ''GB, current='' @ show_nat (unat c) @
     ''GB, requested='' @ show_nat (unat r) @ ''GB''"
| "quota_violation_display (PerNodeVmLimitExceeded n l c) =
     ''Per-node VM limit exceeded on node '' @ show_nat (unat n) @ '': limit='' @
     show_nat (unat l) @ '', current='' @ show_nat (unat c)"
| "quota_violation_display (RateLimitExceeded operation l c) =
     ''Rate limit exceeded for '' @ operation @ '': limit='' @ show_nat (unat l) @
     '', current='' @ show_nat (unat c)"
| "quota_violation_display (StorageLimitExceeded l c r) =
     ''Storage limit exceeded: limit='' @ show_nat (unat l) @ ''GB, current='' @
     show_nat (unat c) @ ''GB, requested='' @ show_nat (unat r) @ ''GB''"

section \<open>What one change does to the counters\<close>

text \<open>The machines of a tenant on a node; an absent entry counts zero.\<close>

definition vms_on :: "vm_resource_usage \<Rightarrow> u64 \<Rightarrow> u32" where
  "vms_on u n = (case vms_per_node u n of None \<Rightarrow> 0 | Some c \<Rightarrow> c)"

text \<open>No stored per-node count is zero, and the counters fit their signed readings.\<close>

definition usage_wf :: "vm_resource_usage \<Rightarrow> bool" where
  "usage_wf u \<longleftrightarrow>
     (\<forall>n. vms_per_node u n \<noteq> Some 0) \<and> uint (used_vcpus u) < 2 ^ 31 \<and>
     uint (used_memory_mb u) < 2 ^ 63 \<and> uint (used_disk_gb u) < 2 ^ 63"

lemma usage_wf_default: "usage_wf vm_resource_usage_default"
  by (simp add: usage_wf_def vm_resource_usage_default_def)

lemma add_delta_nonneg:
  fixes u d :: "'a::len word"
  assumes "uint u < 2 ^ (LENGTH('a) - 1)" and "0 \<le> sint d"
    and "uint u + sint d < 2 ^ (LENGTH('a) - 1)"
  shows "add_delta u d = u + d" and "add_delta (add_delta u d) (- d) = u"
proof -
  have "sint u = uint u" using assms(1) by (rule sint_small)
  moreover have "sint (u + d) = sint u + sint d"
  proof (rule sint_add_in_range)
    have "0 \<le> (2 :: int) ^ (LENGTH('a) - 1)" by simp
    then show "- (2 ^ (LENGTH('a) - 1)) \<le> sint u + sint d"
      using calculation assms(2) uint_ge_0 [of u] by linarith
    show "sint u + sint d < 2 ^ (LENGTH('a) - 1)"
      using calculation assms(3) by simp
  qed
  ultimately have "0 \<le> sint (u + d)" "0 \<le> sint u"
    using assms(2) uint_ge_0 [of u] by linarith+
  then show "add_delta u d = u + d" "add_delta (add_delta u d) (- d) = u"
    by (simp_all add: add_delta_def signed_max0_def)
qed

lemma sint_uminus:
  fixes c :: "'a::len word"
  assumes "0 < sint c"
  shows "sint (- c) = - sint c"
proof -
  have "sint c < 2 ^ (LENGTH('a) - 1)" using sint_lt [of c] by simp
  then have "signed_take_bit (LENGTH('a) - 1) (- sint c) = - sint c"
    using assms by (intro signed_take_bit_int_eq_self) simp_all
  then show ?thesis by (simp add: sint_word_ariths)
qed

lemma Suc_minus_one_u32:
  fixes c :: u32
  assumes "c < - 1"
  shows "saturating_sub (c + 1) 1 = c" and "c + 1 \<noteq> 0"
proof -
  have "uint c < uint (- 1 :: u32)" using assms by (simp add: word_less_def)
  then have "uint c + 1 < 2 ^ 32" by (simp add: unsigned_minus_1_eq_mask mask_eq_exp_minus_1)
  then have "uint (c + 1) = uint c + 1"
    by (simp add: uint_word_ariths)
  then have "1 \<le> uint (c + 1)" using uint_ge_0 [of c] by linarith
  then have "c + 1 \<noteq> 0" "\<not> c + 1 < 1"
    by (auto simp: word_less_def simp flip: uint_0_iff)
  then show "c + 1 \<noteq> 0" "saturating_sub (c + 1) 1 = c"
    by (simp_all add: saturating_sub_def)
qed

lemma add_vm_usage_create:
  assumes "0 < sint v"
  shows "add_vm_usage v m d n u =
           u\<lparr>used_vcpus := add_delta (used_vcpus u) v,
             used_memory_mb := add_delta (used_memory_mb u) m,
             used_disk_gb := add_delta (used_disk_gb u) d,
             active_vms := active_vms u + 1,
             vms_per_node := (vms_per_node u)(n \<mapsto> vms_on u n + 1)\<rparr>"
  using assms by (simp add: add_vm_usage_def vms_on_def)

lemma vms_on_create:
  "0 < sint v \<Longrightarrow> vms_on (add_vm_usage v m d n u) n' = vms_on u n' + (if n' = n then 1 else 0)"
  by (simp add: add_vm_usage_create) (simp add: vms_on_def)

lemma add_vm_usage_create_delete:
  assumes "usage_wf u" and "0 < sint v" and "0 \<le> sint m" and "0 \<le> sint d"
    and "uint (used_vcpus u) + sint v < 2 ^ 31"
    and "uint (used_memory_mb u) + sint m < 2 ^ 63" and "uint (used_disk_gb u) + sint d < 2 ^ 63"
    and "active_vms u < - 1" and "vms_on u n < - 1"
  shows "add_vm_usage (- v) (- m) (- d) n (add_vm_usage v m d n u) = u"
proof -
  have neg: "sint (- v) < 0" using assms(2) by (simp add: sint_uminus)
  have cancel: "add_delta (add_delta (used_vcpus u) v) (- v) = used_vcpus u"
    "add_delta (add_delta (used_memory_mb u) m) (- m) = used_memory_mb u"
    "add_delta (add_delta (used_disk_gb u) d) (- d) = used_disk_gb u"
    using assms(1-7) by (auto intro!: add_delta_nonneg(2) simp: usage_wf_def)
  have counts: "saturating_sub (active_vms u + 1) 1 = active_vms u"
    "saturating_sub (vms_on u n + 1) 1 = vms_on u n"
    using assms(8,9) by (simp_all add: Suc_minus_one_u32)
  have node: "(if vms_on u n = 0 then (vms_per_node u)(n := None)
               else (vms_per_node u)(n \<mapsto> vms_on u n)) = vms_per_node u"
    using assms(1) by (auto simp: vms_on_def usage_wf_def fun_upd_idem_iff split: option.splits)
  have "add_vm_usage (- v) (- m) (- d) n (add_vm_usage v m d n u) =
      u\<lparr>vms_per_node := (if vms_on u n = 0 then (vms_per_node u)(n := None)
                           else (vms_per_node u)(n \<mapsto> vms_on u n))\<rparr>"
    using neg cancel counts
    by (simp add: add_vm_usage_create [OF assms(2)] add_vm_usage_def [of "- v"] Let_def)
  also have "\<dots> = u" unfolding node by simp
  finally show ?thesis .
qed

text \<open>Deleting never raises a counter.\<close>

lemma add_vm_usage_delete_le:
  assumes "usage_wf u" and "sint v < 0" and "sint m \<le> 0" and "sint d \<le> 0"
  shows "active_vms (add_vm_usage v m d n u) \<le> active_vms u"
    and "uint (used_vcpus (add_vm_usage v m d n u)) \<le> uint (used_vcpus u)"
    and "uint (used_memory_mb (add_vm_usage v m d n u)) \<le> uint (used_memory_mb u)"
    and "uint (used_disk_gb (add_vm_usage v m d n u)) \<le> uint (used_disk_gb u)"
    and "vms_on (add_vm_usage v m d n u) n' \<le> vms_on u n'"
    and "\<forall>n'. vms_per_node (add_vm_usage v m d n u) n' \<noteq> Some 0"
proof -
  have [simp]: "uint (add_delta (used_vcpus u) v) \<le> uint (used_vcpus u)"
    using uint_add_delta [of "used_vcpus u" v] assms(1,2) uint_ge_0 [of "used_vcpus u"]
    by (simp add: usage_wf_def)
  have [simp]: "uint (add_delta (used_memory_mb u) m) \<le> uint (used_memory_mb u)"
    using uint_add_delta [of "used_memory_mb u" m] assms(1,3) uint_ge_0 [of "used_memory_mb u"]
    by (simp add: usage_wf_def)
  have [simp]: "uint (add_delta (used_disk_gb u) d) \<le> uint (used_disk_gb u)"
    using uint_add_delta [of "used_disk_gb u" d] assms(1,4) uint_ge_0 [of "used_disk_gb u"]
    by (simp add: usage_wf_def)
  have nv: "\<not> 0 < sint v" using assms(2) by simp
  show "active_vms (add_vm_usage v m d n u) \<le> active_vms u"
    "uint (used_vcpus (add_vm_usage v m d n u)) \<le> uint (used_vcpus u)"
    "uint (used_memory_mb (add_vm_usage v m d n u)) \<le> uint (used_memory_mb u)"
    "uint (used_disk_gb (add_vm_usage v m d n u)) \<le> uint (used_disk_gb u)"
    using assms(2) nv by (simp_all add: add_vm_usage_def Let_def)
  show "vms_on (add_vm_usage v m d n u) n' \<le> vms_on u n'"
    using assms(2) nv by (simp add: add_vm_usage_def Let_def vms_on_def split: option.split)
  show "\<forall>n'. vms_per_node (add_vm_usage v m d n u) n' \<noteq> Some 0"
    using assms(1,2) nv
    by (simp add: add_vm_usage_def Let_def usage_wf_def split: option.split)
qed

section \<open>Usage accounting\<close>

text \<open>
  Creating and then deleting a VM leaves a tenant's usage as it was: with counters inside their
  signed ranges and below their maxima, a positive delta followed by its negation on the same node
  restores every field of the usage, the per-node map included, except the update time.
\<close>

theorem usage_create_delete_round_trip:
  assumes "usage_wf (u_vm_usage u)" and "0 < sint v" and "0 \<le> sint m" and "0 \<le> sint d"
    and "uint (used_vcpus (u_vm_usage u)) + sint v < 2 ^ 31"
    and "uint (used_memory_mb (u_vm_usage u)) + sint m < 2 ^ 63"
    and "uint (used_disk_gb (u_vm_usage u)) + sint d < 2 ^ 63"
    and "active_vms (u_vm_usage u) < - 1" and "vms_on (u_vm_usage u) n < - 1"
  shows "update_vm_usage (- v) (- m) (- d) n t2 (update_vm_usage v m d n t1 u) =
           u\<lparr>u_updated_at := t2\<rparr>"
  using assms by (simp add: update_vm_usage_def add_vm_usage_create_delete)

theorem usage_create_delete_round_trip_witness:
  "update_vm_usage (- 4) (- 8192) (- 20) 7 200
     (update_vm_usage 4 8192 20 7 100 (tenant_usage_new 0 ''acme'')) =
   (tenant_usage_new 0 ''acme'')\<lparr>u_updated_at := 200\<rparr>"
  by (rule usage_create_delete_round_trip)
    (simp_all add: tenant_usage_new_def usage_wf_default, simp_all add: vm_resource_usage_default_def
      vms_on_def word_less_def unsigned_minus_1_eq_mask mask_eq_exp_minus_1)

end
