(* ===== verification/Quota_Manager.thy ===== *)
theory Quota_Manager
  imports Resource_Quotas
begin

text \<open>
  The quota manager (\<open>quota_manager.rs\<close>) with the rate limiter built on it
  (\<open>common/rate_limiting.rs\<close>): in-memory quotas and usage over a persistent store, the admission
  check of a resource request and the sliding-window rate limits. The store is behind the trait
  \<open>Storage\<close>: the record \<open>quota_storage\<close> holds its operations, the locale \<open>quota_store\<close> what
  they promise.
\<close>

section \<open>State\<close>

record 's quota_storage =
  st_save_tenant_quota :: "tenant_quota \<Rightarrow> 's \<Rightarrow> unit outcome \<times> 's"
  st_get_tenant_quota :: "tenant_id \<Rightarrow> 's \<Rightarrow> tenant_quota option outcome"
  st_get_all_quotas :: "'s \<Rightarrow> tenant_quota list outcome"
  st_delete_tenant_quota :: "tenant_id \<Rightarrow> 's \<Rightarrow> unit outcome \<times> 's"

record tenant_request_tracking =
  request_times :: "time list"
  concurrent_requests :: u32
  operation_tracking :: "api_operation \<rightharpoonup> time list"

record 's quota_manager =
  quotas :: "tenant_id \<rightharpoonup> tenant_quota"
  quotas_poisoned :: bool
  usage :: "tenant_id \<rightharpoonup> tenant_usage"
  usage_poisoned :: bool
  tenant_requests :: "tenant_id \<rightharpoonup> tenant_request_tracking"
  storage :: 's

definition rate_limit_window :: time where
  "rate_limit_window = 60 * 1000000000"

definition tracking_new :: tenant_request_tracking where
  "tracking_new = \<lparr>request_times = [], concurrent_requests = 0, operation_tracking = Map.empty\<rparr>"

section \<open>Quotas\<close>

definition load_quotas_from_storage :: "'s quota_storage \<Rightarrow> 's quota_manager \<Rightarrow> unit outcome \<times> 's quota_manager"
  where
  "load_quotas_from_storage S m =
     (case st_get_all_quotas S (storage m) of
        Ok stored \<Rightarrow>
          if quotas_poisoned m then (Err (LockPoisoned ''accessing quota write lock''), m)
          else (Ok (), m\<lparr>quotas := fold (\<lambda>q qs. qs(q_tenant_id q \<mapsto> q)) stored (quotas m)\<rparr>)
      | Err _ \<Rightarrow> (Ok (), m)
      | Panics \<Rightarrow> (Panics, m)
      | Blocks \<Rightarrow> (Blocks, m))"

definition quota_manager_new :: "'s quota_storage \<Rightarrow> 's \<Rightarrow> unit outcome \<times> 's quota_manager" where
  "quota_manager_new S s =
     load_quotas_from_storage S
       \<lparr>quotas = Map.empty, quotas_poisoned = False, usage = Map.empty, usage_poisoned = False,
        tenant_requests = Map.empty, storage = s\<rparr>"

definition set_tenant_quota ::
  "'s quota_storage \<Rightarrow> tenant_quota \<Rightarrow> 's quota_manager \<Rightarrow> unit outcome \<times> 's quota_manager" where
  "set_tenant_quota S quota m =
     (if quotas_poisoned m then (Err (LockPoisoned ''accessing quota write lock''), m)
      else
        let m = m\<lparr>quotas := (quotas m)(q_tenant_id quota \<mapsto> quota)\<rparr>;
            (r, s) = st_save_tenant_quota S quota (storage m)
        in (r, m\<lparr>storage := s\<rparr>))"

definition get_tenant_quota ::
  "(real \<Rightarrow> real) \<Rightarrow> 's quota_storage \<Rightarrow> time \<Rightarrow> tenant_id \<Rightarrow> 's quota_manager \<Rightarrow>
     tenant_quota \<times> 's quota_manager" where
  "get_tenant_quota rnd32 S now t m =
     (case (if quotas_poisoned m then None else quotas m t) of
        Some quota \<Rightarrow> (quota, m)
      | None \<Rightarrow>
          let default_quota = tenant_quota_new rnd32 now t
          in (default_quota, snd (set_tenant_quota S default_quota m)))"

definition remove_tenant_quota ::
  "'s quota_storage \<Rightarrow> tenant_id \<Rightarrow> 's quota_manager \<Rightarrow> unit outcome \<times> 's quota_manager" where
  "remove_tenant_quota S t m =
     (if quotas_poisoned m then (Err (LockPoisoned ''accessing quota write lock''), m)
      else if usage_poisoned m then (Err (LockPoisoned ''accessing usage write lock''), m)
      else
        let m = m\<lparr>quotas := (quotas m)(t := None), usage := (usage m)(t := None)\<rparr>;
            (r, s) = st_delete_tenant_quota S t (storage m)
        in (r, m\<lparr>storage := s\<rparr>))"

definition get_all_quotas :: "'s quota_manager \<Rightarrow> (tenant_id \<rightharpoonup> tenant_quota)" where
  "get_all_quotas m = (if quotas_poisoned m then Map.empty else quotas m)"

section \<open>Usage\<close>

definition get_tenant_usage :: "time \<Rightarrow> tenant_id \<Rightarrow> 's quota_manager \<Rightarrow> tenant_usage" where
  "get_tenant_usage now t m =
     (case (if usage_poisoned m then None else usage m t) of
        Some u \<Rightarrow> u
      | None \<Rightarrow> tenant_usage_new now t)"

definition get_all_usage :: "'s quota_manager \<Rightarrow> (tenant_id \<rightharpoonup> tenant_usage)" where
  "get_all_usage m = (if usage_poisoned m then Map.empty else usage m)"

definition update_resource_usage ::
  "tenant_id \<Rightarrow> i32 \<Rightarrow> i64 \<Rightarrow> i64 \<Rightarrow> u64 \<Rightarrow> time \<Rightarrow> 's quota_manager \<Rightarrow>
     unit outcome \<times> 's quota_manager" where
  "update_resource_usage t vcpus memory_mb disk_gb node_id now m =
     (if usage_poisoned m then (Err (LockPoisoned ''accessing usage write lock''), m)
      else
        let tenant_usage = (case usage m t of Some u \<Rightarrow> u | None \<Rightarrow> tenant_usage_new now t)
        in (Ok (), m\<lparr>usage := (usage m)(t \<mapsto>
              update_vm_usage vcpus memory_mb disk_gb node_id now tenant_usage)\<rparr>))"

definition reset_tenant_usage ::
  "tenant_id \<Rightarrow> time \<Rightarrow> 's quota_manager \<Rightarrow> unit outcome \<times> 's quota_manager" where
  "reset_tenant_usage t now m =
     (if usage_poisoned m then (Err (LockPoisoned ''accessing usage write lock''), m)
      else (Ok (), m\<lparr>usage := (usage m)(t \<mapsto> tenant_usage_new now t),
                     tenant_requests := (tenant_requests m)(t := None)\<rparr>))"

section \<open>Admission\<close>

definition quota_check ::
  "tenant_quota \<Rightarrow> vm_resource_usage \<Rightarrow> resource_request \<Rightarrow> quota_violation + unit" where
  "quota_check quota u request =
     (let l = q_vm_limits quota in
      if active_vms u \<ge> max_vms l then Inl (VmLimitExceeded (max_vms l) (active_vms u) 1)
      else if used_vcpus u + rq_vcpus request > max_vcpus l
      then Inl (CpuLimitExceeded (max_vcpus l) (used_vcpus u) (rq_vcpus request))
      else if used_memory_mb u + rq_memory_mb request > max_memory_mb l
      then Inl (MemoryLimitExceeded (max_memory_mb l) (used_memory_mb u) (rq_memory_mb request))
      else if used_disk_gb u + rq_disk_gb request > max_disk_gb l
      then Inl (DiskLimitExceeded (max_disk_gb l) (used_disk_gb u) (rq_disk_gb request))
      else
        case rq_node_id request of
          None \<Rightarrow> Inr ()
        | Some node_id \<Rightarrow>
            let current = (case vms_per_node u node_id of None \<Rightarrow> 0 | Some c \<Rightarrow> c)
            in if current \<ge> max_vms_per_node l
               then Inl (PerNodeVmLimitExceeded node_id (max_vms_per_node l) current)
               else Inr ())"

definition check_resource_quota ::
  "(real \<Rightarrow> real) \<Rightarrow> 's quota_storage \<Rightarrow> time \<Rightarrow> resource_request \<Rightarrow> 's quota_manager \<Rightarrow>
     (quota_violation + unit) \<times> 's quota_manager" where
  "check_resource_quota rnd32 S now request m =
     (let (quota, m) = get_tenant_quota rnd32 S now (rq_tenant_id request) m in
      if \<not> q_enabled quota then (Inr (), m)
      else (quota_check quota (u_vm_usage (get_tenant_usage now (rq_tenant_id request) m)) request, m))"

section \<open>Rate limits\<close>

definition operation_limit :: "tenant_quota \<Rightarrow> api_operation \<Rightarrow> u32" where
  "operation_limit quota operation =
     (let l = operation_limits (q_api_limits quota) in
      case operation of
        VmCreate \<Rightarrow> vm_create_per_minute l
      | VmDelete \<Rightarrow> vm_delete_per_minute l
      | ClusterJoin \<Rightarrow> cluster_join_per_hour l div 60
      | StatusQuery \<Rightarrow> status_query_per_second l * 60
      | ConfigChange \<Rightarrow> config_change_per_hour l div 60
      | _ \<Rightarrow> 1000)"

definition tracking_of :: "'s quota_manager \<Rightarrow> tenant_id \<Rightarrow> tenant_request_tracking" where
  "tracking_of m t = (case tenant_requests m t of Some tr \<Rightarrow> tr | None \<Rightarrow> tracking_new)"

definition put_tracking ::
  "tenant_id \<Rightarrow> tenant_request_tracking \<Rightarrow> 's quota_manager \<Rightarrow> 's quota_manager" where
  "put_tracking t tr m = m\<lparr>tenant_requests := (tenant_requests m)(t \<mapsto> tr)\<rparr>"

definition operation_times :: "tenant_request_tracking \<Rightarrow> api_operation \<Rightarrow> time list" where
  "operation_times tr operation =
     (case operation_tracking tr operation of Some ts \<Rightarrow> ts | None \<Rightarrow> [])"

definition rate_check ::
  "tenant_quota \<Rightarrow> api_operation \<Rightarrow> time \<Rightarrow> tenant_request_tracking \<Rightarrow>
     (quota_violation + unit) \<times> tenant_request_tracking" where
  "rate_check quota operation now tr =
     (let api = q_api_limits quota;
          cutoff_time = now - rate_limit_window;
          tr = tr\<lparr>request_times := filter (\<lambda>t. t > cutoff_time) (request_times tr)\<rparr>;
          requests_in_window = of_nat (length (request_times tr)) :: u32
      in if requests_in_window \<ge> requests_per_second api * 60
         then (Inl (RateLimitExceeded ''general'' (requests_per_second api) requests_in_window), tr)
         else if concurrent_requests tr \<ge> max_concurrent_requests api
         then (Inl (RateLimitExceeded ''concurrent'' (max_concurrent_requests api)
                 (concurrent_requests tr)), tr)
         else
           let ts = filter (\<lambda>t. t > cutoff_time) (operation_times tr operation);
               tr = tr\<lparr>operation_tracking := (operation_tracking tr)(operation \<mapsto> ts)\<rparr>;
               n = of_nat (length ts) :: u32;
               limit = operation_limit quota operation
           in if n \<ge> limit
              then (Inl (RateLimitExceeded (api_operation_display operation) limit n), tr)
              else (Inr (), tr))"

definition check_rate_limit ::
  "(real \<Rightarrow> real) \<Rightarrow> 's quota_storage \<Rightarrow> time \<Rightarrow> tenant_id \<Rightarrow> api_operation \<Rightarrow> 's quota_manager \<Rightarrow>
     (quota_violation + unit) \<times> 's quota_manager" where
  "check_rate_limit rnd32 S now t operation m =
     (let (quota, m) = get_tenant_quota rnd32 S now t m in
      if \<not> q_enabled quota then (Inr (), m)
      else
        let (r, tr) = rate_check quota operation now (tracking_of m t)
        in (r, put_tracking t tr m))"

definition record_tracking ::
  "api_operation \<Rightarrow> time \<Rightarrow> tenant_request_tracking \<Rightarrow> tenant_request_tracking" where
  "record_tracking operation now tr =
     tr\<lparr>request_times := request_times tr @ [now],
        concurrent_requests := concurrent_requests tr + 1,
        operation_tracking :=
          (operation_tracking tr)(operation \<mapsto> operation_times tr operation @ [now])\<rparr>"

definition record_api_request ::
  "time \<Rightarrow> tenant_id \<Rightarrow> api_operation \<Rightarrow> 's quota_manager \<Rightarrow> 's quota_manager" where
  "record_api_request now t operation m =
     put_tracking t (record_tracking operation now (tracking_of m t)) m"

definition record_api_request_end :: "tenant_id \<Rightarrow> 's quota_manager \<Rightarrow> 's quota_manager" where
  "record_api_request_end t m =
     (case tenant_requests m t of
        None \<Rightarrow> m
      | Some tr \<Rightarrow>
          put_tracking t (tr\<lparr>concurrent_requests := saturating_sub (concurrent_requests tr) 1\<rparr>) m)"

definition clean_tracking :: "time \<Rightarrow> tenant_request_tracking \<Rightarrow> tenant_request_tracking" where
  "clean_tracking cutoff_time tr =
     tr\<lparr>request_times := filter (\<lambda>t. t > cutoff_time) (request_times tr),
        operation_tracking :=
          (\<lambda>operation.
             case operation_tracking tr operation of
               None \<Rightarrow> None
             | Some ts \<Rightarrow>
                 let ts = filter (\<lambda>t. t > cutoff_time) ts
                 in if ts = [] then None else Some ts)\<rparr>"

definition cleanup_expired_rate_limits :: "time \<Rightarrow> 's quota_manager \<Rightarrow> 's quota_manager" where
  "cleanup_expired_rate_limits now m =
     m\<lparr>tenant_requests :=
        (\<lambda>t. case tenant_requests m t of
               None \<Rightarrow> None
             | Some tr \<Rightarrow>
                 let tr = clean_tracking (now - 2 * rate_limit_window) tr
                 in if request_times tr \<noteq> [] \<or> concurrent_requests tr > 0 \<or>
                       operation_tracking tr \<noteq> Map.empty
                    then Some tr else None)\<rparr>"

text \<open>\<open>RateLimiter::check_and_record\<close> of the limiter over the quota manager.\<close>

definition limiter_check_rate_limit ::
  "(real \<Rightarrow> real) \<Rightarrow> 's quota_storage \<Rightarrow> time \<Rightarrow> tenant_id \<Rightarrow> api_operation \<Rightarrow> 's quota_manager \<Rightarrow>
     unit outcome \<times> 's quota_manager" where
  "limiter_check_rate_limit rnd32 S now key operation m =
     (case check_rate_limit rnd32 S now key operation m of
        (Inr _, m) \<Rightarrow> (Ok (), m)
      | (Inl violation, m) \<Rightarrow>
          (Err (Internal (''Rate limit exceeded: '' @ quota_violation_display violation)), m))"

definition check_and_record ::
  "(real \<Rightarrow> real) \<Rightarrow> 's quota_storage \<Rightarrow> time \<Rightarrow> tenant_id \<Rightarrow> api_operation \<Rightarrow> 's quota_manager \<Rightarrow>
     unit outcome \<times> 's quota_manager" where
  "check_and_record rnd32 S now key operation m =
     (case limiter_check_rate_limit rnd32 S now key operation m of
        (Ok _, m) \<Rightarrow> (Ok (), record_api_request now key operation m)
      | (r, m) \<Rightarrow> (r, m))"

section \<open>The store's contract\<close>

text \<open>
  What the manager relies on: saving and deleting change exactly one tenant when they succeed and
  nothing when they fail, and listing returns the stored quotas.
\<close>

datatype quota_event = SetQuota tenant_quota | RemoveQuota tenant_id

fun quota_op ::
  "'s quota_storage \<Rightarrow> 's quota_manager \<Rightarrow> quota_event \<Rightarrow> unit outcome \<times> 's quota_manager" where
  "quota_op S m (SetQuota q) = set_tenant_quota S q m"
| "quota_op S m (RemoveQuota t) = remove_tenant_quota S t m"

definition quota_step :: "'s quota_storage \<Rightarrow> 's quota_manager \<Rightarrow> quota_event \<Rightarrow> 's quota_manager" where
  "quota_step S m e = snd (quota_op S m e)"

definition quota_updated :: "'s quota_storage \<Rightarrow> 's quota_manager \<Rightarrow> quota_event \<Rightarrow> bool" where
  "quota_updated S m e \<longleftrightarrow> fst (quota_op S m e) = Ok ()"

definition quotas_synced ::
  "('s \<Rightarrow> tenant_id \<rightharpoonup> tenant_quota) \<Rightarrow> ('s \<Rightarrow> bool) \<Rightarrow> 's quota_manager \<Rightarrow> bool" where
  "quotas_synced view store_ok m \<longleftrightarrow> store_ok (storage m) \<and> quotas m = view (storage m)"

locale quota_store =
  fixes S :: "'s quota_storage"
    and view :: "'s \<Rightarrow> tenant_id \<rightharpoonup> tenant_quota"
    and store_ok :: "'s \<Rightarrow> bool"
  assumes save_law: "store_ok s \<Longrightarrow> st_save_tenant_quota S q s = (r, s') \<Longrightarrow>
      store_ok s' \<and> view s' = (if r = Ok () then (view s)(q_tenant_id q \<mapsto> q) else view s)"
    and delete_law: "store_ok s \<Longrightarrow> st_delete_tenant_quota S t s = (r, s') \<Longrightarrow>
      store_ok s' \<and> view s' = (if r = Ok () then (view s)(t := None) else view s)"
    and get_all_law: "store_ok s \<Longrightarrow> st_get_all_quotas S s = Ok qs \<Longrightarrow>
      view s t = Some q \<longleftrightarrow> q \<in> set qs \<and> q_tenant_id q = t"
    and get_law: "store_ok s \<Longrightarrow> st_get_tenant_quota S t s = Ok found \<Longrightarrow> found = view s t"
begin

lemma set_synced:
  assumes "quotas_synced view store_ok m" and "set_tenant_quota S q m = (Ok (), m')"
  shows "quotas_synced view store_ok m'" and "quotas m' = (quotas m)(q_tenant_id q \<mapsto> q)"
proof -
  obtain r s where rs: "st_save_tenant_quota S q (storage m) = (r, s)" by force
  with assms(2) have r: "r = Ok ()"
    and m': "m' = m\<lparr>quotas := (quotas m)(q_tenant_id q \<mapsto> q), storage := s\<rparr>"
    by (auto simp: set_tenant_quota_def split: if_splits)
  show "quotas_synced view store_ok m'" using assms(1) save_law [OF _ rs] r m' by (simp add: quotas_synced_def)
  show "quotas m' = (quotas m)(q_tenant_id q \<mapsto> q)" using m' by simp
qed

lemma remove_synced:
  assumes "quotas_synced view store_ok m" and "remove_tenant_quota S t m = (Ok (), m')"
  shows "quotas_synced view store_ok m'" and "quotas m' = (quotas m)(t := None)"
proof -
  obtain r s where rs: "st_delete_tenant_quota S t (storage m) = (r, s)" by force
  with assms(2) have r: "r = Ok ()"
    and m': "m' = m\<lparr>quotas := (quotas m)(t := None), usage := (usage m)(t := None), storage := s\<rparr>"
    by (auto simp: remove_tenant_quota_def split: if_splits)
  show "quotas_synced view store_ok m'" using assms(1) delete_law [OF _ rs] r m' by (simp add: quotas_synced_def)
  show "quotas m' = (quotas m)(t := None)" using m' by simp
qed

lemma fold_load:
  "fold (\<lambda>q qs. qs(q_tenant_id q \<mapsto> q)) stored m t = Some q \<Longrightarrow>
     (q \<in> set stored \<and> q_tenant_id q = t) \<or> m t = Some q"
  by (induction stored arbitrary: m) (fastforce split: if_splits)+

lemma fold_load_dom:
  "q \<in> set stored \<or> m (q_tenant_id q) \<noteq> None \<Longrightarrow>
     fold (\<lambda>q qs. qs(q_tenant_id q \<mapsto> q)) stored m (q_tenant_id q) \<noteq> None"
  by (induction stored arbitrary: m) auto

lemma new_synced:
  assumes "store_ok s" and "st_get_all_quotas S s = Ok stored"
  shows "fst (quota_manager_new S s) = Ok ()" and "quotas_synced view store_ok (snd (quota_manager_new S s))"
    and "storage (snd (quota_manager_new S s)) = s"
proof -
  let ?f = "fold (\<lambda>q qs. qs(q_tenant_id q \<mapsto> q)) stored Map.empty"
  have "?f t = view s t" for t
  proof (cases "?f t")
    case None
    have "view s t = None"
    proof (rule ccontr)
      assume "view s t \<noteq> None"
      then obtain q where "q \<in> set stored" "q_tenant_id q = t"
        using get_all_law [OF assms] by blast
      then show False using fold_load_dom [of q stored Map.empty] None by simp
    qed
    with None show ?thesis by simp
  next
    case (Some q)
    then have "q \<in> set stored \<and> q_tenant_id q = t" using fold_load [OF Some] by simp
    then have "view s t = Some q" using get_all_law [OF assms] by blast
    with Some show ?thesis by simp
  qed
  then have "?f = view s" ..
  then show "fst (quota_manager_new S s) = Ok ()" "quotas_synced view store_ok (snd (quota_manager_new S s))"
    "storage (snd (quota_manager_new S s)) = s"
    using assms by (simp_all add: quota_manager_new_def load_quotas_from_storage_def quotas_synced_def)
qed

text \<open>The memory is what a restart on the same store would load.\<close>

lemma restart_recovers:
  assumes "quotas_synced view store_ok m" and "st_get_all_quotas S (storage m) = Ok stored"
  shows "quotas (snd (quota_manager_new S (storage m))) = quotas m"
  using assms new_synced [OF _ assms(2)] by (simp add: quotas_synced_def)

text \<open>A failed update leaves the memory ahead of the store: a restart returns the old quota.\<close>

lemma failed_set_diverges:
  assumes "quotas_synced view store_ok m" and "\<not> quotas_poisoned m" and "set_tenant_quota S q m = (Err e, m')"
    and "st_get_all_quotas S (storage m') = Ok stored"
  shows "quotas m' (q_tenant_id q) = Some q"
    and "quotas (snd (quota_manager_new S (storage m'))) = quotas m"
proof -
  obtain r s where rs: "st_save_tenant_quota S q (storage m) = (r, s)" by force
  with assms(2,3) have r: "r = Err e"
    and m': "m' = m\<lparr>quotas := (quotas m)(q_tenant_id q \<mapsto> q), storage := s\<rparr>"
    by (auto simp: set_tenant_quota_def split: if_splits)
  then have s: "store_ok (storage m')" "view (storage m') = quotas m"
    using assms(1) save_law [OF _ rs] by (simp_all add: quotas_synced_def)
  show "quotas m' (q_tenant_id q) = Some q" using m' by simp
  show "quotas (snd (quota_manager_new S (storage m'))) = quotas m"
    using new_synced [OF s(1) assms(4)] s(2) by (simp add: quotas_synced_def)
qed

end

sublocale quota_store \<subseteq> updates: event_machine "quota_step S" "quota_updated S" "quotas_synced view store_ok"
proof
  fix m e
  assume m: "quotas_synced view store_ok m" and e: "quota_updated S m e"
  obtain m' where "quota_op S m e = (Ok (), m')"
    using e by (cases "quota_op S m e") (simp add: quota_updated_def)
  with m show "quotas_synced view store_ok (quota_step S m e)"
    by (cases e) (auto simp: quota_step_def intro: set_synced remove_synced)
qed

section \<open>Admission keeps usage within the limits\<close>

definition within_limits :: "vm_resource_limits \<Rightarrow> vm_resource_usage \<Rightarrow> bool" where
  "within_limits l u \<longleftrightarrow>
     active_vms u \<le> max_vms l \<and> used_vcpus u \<le> max_vcpus l \<and>
     used_memory_mb u \<le> max_memory_mb l \<and> used_disk_gb u \<le> max_disk_gb l \<and>
     (\<forall>n. vms_on u n \<le> max_vms_per_node l)"

text \<open>The limits fit the signed types the deltas are computed in.\<close>

definition limits_signed :: "vm_resource_limits \<Rightarrow> bool" where
  "limits_signed l \<longleftrightarrow>
     uint (max_vcpus l) < 2 ^ 31 \<and> uint (max_memory_mb l) < 2 ^ 63 \<and> uint (max_disk_gb l) < 2 ^ 63"

text \<open>
  A machine is charged by \<open>update_resource_usage\<close> and a deleted one is credited by the same call with
  negative amounts. A charge is preceded by a check of the same request that accepts it; the request
  names the node, asks for at least one vCPU, and its amounts are in the range of the signed types.
\<close>

datatype usage_event =
    Charge resource_request u64 time
  | Credit tenant_id i32 i64 i64 u64 time

fun usage_step :: "'s quota_manager \<Rightarrow> usage_event \<Rightarrow> 's quota_manager" where
  "usage_step m (Charge request node now) =
     snd (update_resource_usage (rq_tenant_id request) (rq_vcpus request) (rq_memory_mb request)
       (rq_disk_gb request) node now m)"
| "usage_step m (Credit t v mem d node now) = snd (update_resource_usage t v mem d node now m)"

definition chargeable :: "resource_request \<Rightarrow> u64 \<Rightarrow> bool" where
  "chargeable request node \<longleftrightarrow>
     rq_node_id request = Some node \<and> 0 < sint (rq_vcpus request) \<and>
     0 \<le> sint (rq_memory_mb request) \<and> 0 \<le> sint (rq_disk_gb request)"

definition creditable :: "i32 \<Rightarrow> i64 \<Rightarrow> i64 \<Rightarrow> bool" where
  "creditable v mem d \<longleftrightarrow> sint v < 0 \<and> sint mem \<le> 0 \<and> sint d \<le> 0"

fun usage_enabled ::
  "(real \<Rightarrow> real) \<Rightarrow> 's quota_storage \<Rightarrow> 's quota_manager \<Rightarrow> usage_event \<Rightarrow> bool" where
  "usage_enabled rnd32 S m (Charge request node now) \<longleftrightarrow>
     fst (check_resource_quota rnd32 S now request m) = Inr () \<and> chargeable request node"
| "usage_enabled rnd32 S m (Credit t v mem d node now) \<longleftrightarrow> creditable v mem d"

lemma quota_check_accepts:
  "quota_check q u request = Inr () \<longleftrightarrow>
     active_vms u < max_vms (q_vm_limits q) \<and>
     used_vcpus u + rq_vcpus request \<le> max_vcpus (q_vm_limits q) \<and>
     used_memory_mb u + rq_memory_mb request \<le> max_memory_mb (q_vm_limits q) \<and>
     used_disk_gb u + rq_disk_gb request \<le> max_disk_gb (q_vm_limits q) \<and>
     (\<forall>n. rq_node_id request = Some n \<longrightarrow> vms_on u n < max_vms_per_node (q_vm_limits q))"
  by (auto simp: quota_check_def Let_def vms_on_def not_le not_less split: option.splits)

lemma word_plus_nowrap:
  fixes a b l :: "'a::len word"
  assumes "a + b \<le> l" and "0 \<le> sint b" and "a \<le> m" and "uint m < 2 ^ (LENGTH('a) - 1)"
    and "uint l < 2 ^ (LENGTH('a) - 1)"
  shows "uint a < 2 ^ (LENGTH('a) - 1)" and "uint a + sint b < 2 ^ (LENGTH('a) - 1)"
    and "add_delta a b = a + b"
proof -
  have pow: "(2 :: int) ^ LENGTH('a) = 2 * 2 ^ (LENGTH('a) - 1)"
    by (simp flip: power_Suc)
  show a: "uint a < 2 ^ (LENGTH('a) - 1)"
    using assms(3,4) by (simp add: word_le_def)
  have b: "sint b = uint b" using assms(2) by (rule sint_nonneg_uint)
  have "sint b < 2 ^ (LENGTH('a) - 1)" using sint_lt [of b] by simp
  then have "uint a + uint b < 2 ^ LENGTH('a)" using a b pow by linarith
  then have "uint (a + b) = uint a + uint b"
    using uint_ge_0 [of a] uint_ge_0 [of b] by (simp add: uint_word_ariths)
  then show "uint a + sint b < 2 ^ (LENGTH('a) - 1)"
    using assms(1,5) b by (simp add: word_le_def)
  with a assms(2) show "add_delta a b = a + b" by (rule add_delta_nonneg(1))
qed

lemma word_less_succ_le:
  fixes a l :: u32
  assumes "a < l"
  shows "a + 1 \<le> l" and "a + 1 \<noteq> 0"
proof -
  have "uint a < uint l" "uint l < 2 ^ 32"
    using assms uint_lt2p [of l] by (simp_all add: word_less_def)
  then have "uint (a + 1) = uint a + 1" by (simp add: uint_word_ariths)
  then have "uint (a + 1) \<le> uint l" "1 \<le> uint (a + 1)"
    using \<open>uint a < uint l\<close> uint_ge_0 [of a] by linarith+
  then show "a + 1 \<le> l" "a + 1 \<noteq> 0"
    by (auto simp: word_le_def simp flip: uint_0_iff)
qed

lemma admit_keeps_limits:
  assumes "limits_signed (q_vm_limits q)"
    and inv: "within_limits (q_vm_limits q) u" "usage_wf u"
    and en: "chargeable request node"
    and ok: "quota_check q u request = Inr ()"
  defines "u' \<equiv> add_vm_usage (rq_vcpus request) (rq_memory_mb request) (rq_disk_gb request) node u"
  shows "within_limits (q_vm_limits q) u'" and "usage_wf u'"
proof -
  let ?l = "q_vm_limits q"
  have cpu: "add_delta (used_vcpus u) (rq_vcpus request) = used_vcpus u + rq_vcpus request"
    "uint (used_vcpus u + rq_vcpus request) < 2 ^ 31"
    and mem: "add_delta (used_memory_mb u) (rq_memory_mb request) = used_memory_mb u + rq_memory_mb request"
    "uint (used_memory_mb u + rq_memory_mb request) < 2 ^ 63"
    and disk: "add_delta (used_disk_gb u) (rq_disk_gb request) = used_disk_gb u + rq_disk_gb request"
    "uint (used_disk_gb u + rq_disk_gb request) < 2 ^ 63"
    using ok inv(1) en assms(1)
      word_plus_nowrap(3) [of "used_vcpus u" "rq_vcpus request" "max_vcpus ?l" "max_vcpus ?l"]
      word_plus_nowrap(3) [of "used_memory_mb u" "rq_memory_mb request" "max_memory_mb ?l" "max_memory_mb ?l"]
      word_plus_nowrap(3) [of "used_disk_gb u" "rq_disk_gb request" "max_disk_gb ?l" "max_disk_gb ?l"]
    by (auto simp: chargeable_def quota_check_accepts within_limits_def limits_signed_def word_le_def)
  have vms: "active_vms u + 1 \<le> max_vms ?l" "vms_on u node + 1 \<le> max_vms_per_node ?l"
    "vms_on u node + 1 \<noteq> 0"
    using ok en word_less_succ_le [of "vms_on u node" "max_vms_per_node ?l"]
    by (simp_all add: chargeable_def quota_check_accepts word_less_succ_le)
  have u': "u' = u\<lparr>used_vcpus := used_vcpus u + rq_vcpus request,
      used_memory_mb := used_memory_mb u + rq_memory_mb request,
      used_disk_gb := used_disk_gb u + rq_disk_gb request, active_vms := active_vms u + 1,
      vms_per_node := (vms_per_node u)(node \<mapsto> vms_on u node + 1)\<rparr>"
    using ok en cpu(1) mem(1) disk(1) by (simp add: u'_def add_vm_usage_create chargeable_def)
  have on: "vms_on u' n = (if n = node then vms_on u node + 1 else vms_on u n)" for n
    by (simp add: u' vms_on_def)
  show "within_limits ?l u'"
    using ok inv(1) vms on by (simp add: within_limits_def quota_check_accepts) (simp add: u')
  show "usage_wf u'"
    using inv(2) cpu(2) mem(2) disk(2) vms(3) by (simp add: usage_wf_def u')
qed

lemma release_keeps_limits:
  assumes "within_limits l u" and "usage_wf u" and "creditable v m d"
  shows "within_limits l (add_vm_usage v m d node u)" and "usage_wf (add_vm_usage v m d node u)"
proof -
  note le = add_vm_usage_delete_le [of u v m d node]
  have e: "sint v < 0" "sint m \<le> 0" "sint d \<le> 0" using assms(3) by (simp_all add: creditable_def)
  show "within_limits l (add_vm_usage v m d node u)"
    using assms(1) le(1-5) [OF assms(2) e]
    unfolding within_limits_def word_le_def by (meson order_trans)
  show "usage_wf (add_vm_usage v m d node u)"
    using assms(2) le(2-4,6) [OF assms(2) e] unfolding usage_wf_def by (meson order_le_less_trans)
qed

text \<open>The usage of a tenant with an enabled quota stays within its limits.\<close>

definition tenant_vm_usage :: "tenant_id \<Rightarrow> 's quota_manager \<Rightarrow> vm_resource_usage" where
  "tenant_vm_usage t m = (case usage m t of Some u \<Rightarrow> u_vm_usage u | None \<Rightarrow> vm_resource_usage_default)"

definition usage_inv :: "tenant_id \<Rightarrow> tenant_quota \<Rightarrow> 's quota_manager \<Rightarrow> bool" where
  "usage_inv t q m \<longleftrightarrow>
     quotas m t = Some q \<and> q_enabled q \<and> \<not> quotas_poisoned m \<and> \<not> usage_poisoned m \<and>
     limits_signed (q_vm_limits q) \<and> within_limits (q_vm_limits q) (tenant_vm_usage t m) \<and>
     usage_wf (tenant_vm_usage t m)"

lemma get_tenant_vm_usage:
  "\<not> usage_poisoned m \<Longrightarrow> u_vm_usage (get_tenant_usage now t m) = tenant_vm_usage t m"
  by (simp add: get_tenant_usage_def tenant_vm_usage_def tenant_usage_new_def split: option.split)

lemma update_tenant_vm_usage:
  assumes "\<not> usage_poisoned m"
  shows "tenant_vm_usage t (snd (update_resource_usage t' v mem d node now m)) =
           (if t = t' then add_vm_usage v mem d node (tenant_vm_usage t m) else tenant_vm_usage t m)"
  using assms
  by (simp add: update_resource_usage_def Let_def tenant_vm_usage_def update_vm_usage_def
      tenant_usage_new_def split: option.split)

lemma update_usage_frame [simp]:
  "quotas (snd (update_resource_usage t v mem d node now m)) = quotas m"
  "quotas_poisoned (snd (update_resource_usage t v mem d node now m)) = quotas_poisoned m"
  "usage_poisoned (snd (update_resource_usage t v mem d node now m)) = usage_poisoned m"
  by (simp_all add: update_resource_usage_def Let_def)

lemma check_accepted:
  assumes "usage_inv t q m" and "rq_tenant_id request = t"
    and "fst (check_resource_quota rnd32 S now request m) = Inr ()"
  shows "quota_check q (tenant_vm_usage t m) request = Inr ()"
proof -
  have "get_tenant_quota rnd32 S now t m = (q, m)"
    using assms(1) by (simp add: usage_inv_def get_tenant_quota_def)
  then show ?thesis
    using assms by (simp add: usage_inv_def check_resource_quota_def get_tenant_vm_usage)
qed

lemma usage_step_inv:
  assumes inv: "usage_inv t q m" and en: "usage_enabled rnd32 S m e"
  shows "usage_inv t q (usage_step m e)"
proof (cases e)
  case (Charge request node now)
  show ?thesis
  proof (cases "rq_tenant_id request = t")
    case True
    have e: "fst (check_resource_quota rnd32 S now request m) = Inr ()" "chargeable request node"
      using en Charge by simp_all
    with inv check_accepted [OF inv True e(1)] admit_keeps_limits [of q "tenant_vm_usage t m" request node] show ?thesis
      by (simp add: Charge usage_inv_def True update_tenant_vm_usage)
  qed (use inv Charge in \<open>simp add: usage_inv_def update_tenant_vm_usage\<close>)
next
  case (Credit t' v mem d node now)
  with inv en release_keeps_limits [of "q_vm_limits q" "tenant_vm_usage t m" v mem d node] show ?thesis
    by (auto simp: usage_inv_def update_tenant_vm_usage)
qed

interpretation usage: event_machine usage_step "usage_enabled rnd32 S" "usage_inv t q" for rnd32 S t q
  by unfold_locales (rule usage_step_inv)

section \<open>Sequences of rate-limited requests\<close>

datatype api_event =
    Request tenant_id api_operation time
  | CleanupTick time

fun event_time :: "api_event \<Rightarrow> time" where
  "event_time (Request t operation now) = now"
| "event_time (CleanupTick now) = now"

text \<open>One event and whether it was an admitted request.\<close>

fun api_step ::
  "(real \<Rightarrow> real) \<Rightarrow> 's quota_storage \<Rightarrow> 's quota_manager \<Rightarrow> api_event \<Rightarrow> bool \<times> 's quota_manager" where
  "api_step rnd32 S m (Request t operation now) =
     (case check_and_record rnd32 S now t operation m of (r, m) \<Rightarrow> (is_ok r, m))"
| "api_step rnd32 S m (CleanupTick now) = (False, cleanup_expired_rate_limits now m)"

fun admitted ::
  "(real \<Rightarrow> real) \<Rightarrow> 's quota_storage \<Rightarrow> 's quota_manager \<Rightarrow> api_event list \<Rightarrow> api_event list" where
  "admitted rnd32 S m [] = []"
| "admitted rnd32 S m (e # es) =
     (case api_step rnd32 S m e of
        (a, m) \<Rightarrow> (if a then [e] else []) @ admitted rnd32 S m es)"

definition quota_fixed :: "tenant_id \<Rightarrow> tenant_quota \<Rightarrow> 's quota_manager \<Rightarrow> bool" where
  "quota_fixed t q m \<longleftrightarrow> \<not> quotas_poisoned m \<and> quotas m t = Some q \<and> q_enabled q"

abbreviation recent :: "time \<Rightarrow> time list \<Rightarrow> time list" where
  "recent now \<equiv> filter (\<lambda>x. now - rate_limit_window < x)"

lemma recent_recent: "now \<le> now' \<Longrightarrow> recent now' (recent now xs) = recent now' xs"
  by (simp add: filter_filter) (rule filter_cong, auto)

lemma tracking_put [simp]:
  "tracking_of (put_tracking t tr m) t' = (if t' = t then tr else tracking_of m t')"
  "quota_fixed t q (put_tracking t' tr m) = quota_fixed t q m"
  by (simp_all add: tracking_of_def put_tracking_def quota_fixed_def)

lemma operation_times_record [simp]:
  "operation_times (record_tracking operation' now tr) operation =
     operation_times tr operation @ (if operation = operation' then [now] else [])"
  "concurrent_requests (record_tracking operation' now tr) = concurrent_requests tr + 1"
  by (simp_all add: record_tracking_def operation_times_def)

lemma rate_check_spec:
  assumes "rate_check q operation' now tr = (r, tr')"
  shows "recent now (operation_times tr' operation) = recent now (operation_times tr operation)"
    and "concurrent_requests tr' = concurrent_requests tr"
    and "r = Inr () \<Longrightarrow>
           of_nat (length (recent now (operation_times tr operation'))) < operation_limit q operation'"
    and "r = Inr () \<Longrightarrow> concurrent_requests tr < max_concurrent_requests (q_api_limits q)"
  using assms
  by (auto simp: rate_check_def Let_def operation_times_def not_le filter_filter
      split: if_splits)

lemma get_tenant_quota_fixed:
  "quota_fixed t q m \<Longrightarrow> get_tenant_quota rnd32 S now t m = (q, m)"
  by (simp add: get_tenant_quota_def quota_fixed_def)

lemma get_tenant_quota_other:
  assumes "get_tenant_quota rnd32 S now t' m = (q', m')" and "t' \<noteq> t"
  shows "quota_fixed t q m' = quota_fixed t q m" and "tenant_requests m' = tenant_requests m"
  using assms
  by (auto simp: get_tenant_quota_def quota_fixed_def set_tenant_quota_def Let_def tenant_quota_new_def
      split: if_splits option.splits prod.splits)

lemma check_and_record_fixed:
  assumes "quota_fixed t q m"
  shows "check_and_record rnd32 S now t operation m =
     (case rate_check q operation now (tracking_of m t) of
        (Inr _, tr) \<Rightarrow> (Ok (), put_tracking t (record_tracking operation now tr) m)
      | (Inl v, tr) \<Rightarrow> (Err (Internal (''Rate limit exceeded: '' @ quota_violation_display v)),
                        put_tracking t tr m))"
  using assms
  by (auto simp: check_and_record_def limiter_check_rate_limit_def check_rate_limit_def
      get_tenant_quota_fixed record_api_request_def Let_def quota_fixed_def put_tracking_def
      tracking_of_def split: prod.split sum.split)

lemma check_rate_limit_other:
  assumes "check_rate_limit rnd32 S now t' operation m = (r, m')" and "t' \<noteq> t"
  shows "quota_fixed t q m' = quota_fixed t q m" and "tracking_of m' t = tracking_of m t"
proof -
  obtain q' m1 where g: "get_tenant_quota rnd32 S now t' m = (q', m1)" by force
  note o = get_tenant_quota_other [OF g assms(2)]
  have "tracking_of m1 t = tracking_of m t" using o(2) by (simp add: tracking_of_def)
  moreover have "m' = m1 \<or> (\<exists>tr. m' = put_tracking t' tr m1)"
    using assms(1) by (auto simp: check_rate_limit_def g Let_def split: if_splits prod.splits)
  moreover from this have "quota_fixed t q m' = quota_fixed t q m1 \<and> tracking_of m' t = tracking_of m1 t"
    using assms(2) by (elim disjE exE) simp_all
  ultimately show "quota_fixed t q m' = quota_fixed t q m" "tracking_of m' t = tracking_of m t"
    by (simp_all only: o(1))
qed

lemma check_and_record_other:
  assumes "check_and_record rnd32 S now t' operation m = (r, m')" and "t' \<noteq> t"
  shows "quota_fixed t q m' = quota_fixed t q m" and "tracking_of m' t = tracking_of m t"
proof -
  obtain x m1 where c: "check_rate_limit rnd32 S now t' operation m = (x, m1)" by force
  note o = check_rate_limit_other [OF c assms(2)]
  have "m' = m1 \<or> m' = record_api_request now t' operation m1"
    using assms(1)
    by (auto simp: check_and_record_def limiter_check_rate_limit_def c split: sum.splits)
  then have "quota_fixed t q m' = quota_fixed t q m1 \<and> tracking_of m' t = tracking_of m1 t"
    using assms(2) by (elim disjE) (simp_all add: record_api_request_def)
  then show "quota_fixed t q m' = quota_fixed t q m" "tracking_of m' t = tracking_of m t"
    by (simp_all only: o)
qed

lemma cleanup_tracking:
  shows "quota_fixed t q (cleanup_expired_rate_limits now m) = quota_fixed t q m"
    and "recent now (operation_times (tracking_of (cleanup_expired_rate_limits now m) t) operation) =
         recent now (operation_times (tracking_of m t) operation)"
    and "concurrent_requests (tracking_of (cleanup_expired_rate_limits now m) t) =
         concurrent_requests (tracking_of m t)"
proof -
  let ?m = "cleanup_expired_rate_limits now m"
  let ?cut = "\<lambda>xs. filter (\<lambda>x. now - 2 * rate_limit_window < x) xs"
  have cut: "recent now (?cut xs) = recent now xs" for xs
    by (simp add: filter_filter) (rule filter_cong, auto simp: rate_limit_window_def)
  have clean: "recent now (operation_times (clean_tracking (now - 2 * rate_limit_window) tr) operation) =
      recent now (operation_times tr operation)" for tr
  proof (cases "operation_tracking tr operation")
    case (Some ts)
    have "operation_times (clean_tracking (now - 2 * rate_limit_window) tr) operation = ?cut ts"
      using Some by (simp add: operation_times_def clean_tracking_def Let_def)
    then show ?thesis using cut [of ts] Some by (simp only:) (simp add: operation_times_def)
  qed (simp add: operation_times_def clean_tracking_def)
  show "quota_fixed t q ?m = quota_fixed t q m"
    by (simp add: quota_fixed_def cleanup_expired_rate_limits_def)
  show "recent now (operation_times (tracking_of ?m t) operation) =
      recent now (operation_times (tracking_of m t) operation)"
  proof (cases "tenant_requests m t")
    case (Some tr)
    let ?tr = "clean_tracking (now - 2 * rate_limit_window) tr"
    show ?thesis
    proof (cases "request_times ?tr \<noteq> [] \<or> concurrent_requests ?tr > 0 \<or>
        operation_tracking ?tr \<noteq> Map.empty")
      case True
      then show ?thesis using Some clean
        by (simp add: tracking_of_def cleanup_expired_rate_limits_def Let_def)
    next
      case False
      then have "operation_times ?tr operation = []" by (simp add: operation_times_def)
      then have "recent now (operation_times tr operation) = []" using clean [of tr] by simp
      with False Some show ?thesis
        by (simp add: tracking_of_def cleanup_expired_rate_limits_def Let_def tracking_new_def
            operation_times_def)
    qed
  qed (simp add: tracking_of_def cleanup_expired_rate_limits_def)
  show "concurrent_requests (tracking_of ?m t) = concurrent_requests (tracking_of m t)"
    by (auto simp: tracking_of_def cleanup_expired_rate_limits_def Let_def tracking_new_def
        clean_tracking_def word_gt_0 split: option.split)
qed

lemma api_step_fixed:
  assumes "api_step rnd32 S m e = (a, m')" and "quota_fixed t q m" and "event_time e = now"
  shows "quota_fixed t q m' \<and>
      recent now (operation_times (tracking_of m' t) operation) =
         recent now (operation_times (tracking_of m t) operation) @
           (if a \<and> e = Request t operation now then [now] else []) \<and>
      concurrent_requests (tracking_of m' t) = concurrent_requests (tracking_of m t) +
           (if a \<and> (\<exists>operation. e = Request t operation now) then 1 else 0) \<and>
      (a \<and> e = Request t operation now \<longrightarrow>
         of_nat (length (recent now (operation_times (tracking_of m t) operation)))
           < operation_limit q operation \<and>
         concurrent_requests (tracking_of m t) < max_concurrent_requests (q_api_limits q))"
proof (cases e)
  case (CleanupTick now')
  with assms cleanup_tracking [where t = t and now = now and m = m] show ?thesis by simp
next
  case (Request t' operation' now')
  then have now: "now' = now" using assms(3) by simp
  obtain r where c: "check_and_record rnd32 S now t' operation' m = (r, m')" and a: "a = is_ok r"
    using assms(1) Request now by (auto split: prod.splits)
  show ?thesis
  proof (cases "t' = t")
    case False
    then show ?thesis
      using check_and_record_other [OF c False] assms(2) Request by simp
  next
    case True
    obtain x tr where x: "rate_check q operation' now (tracking_of m t) = (x, tr)" by force
    note sp = rate_check_spec [OF x]
    have pos: "0 < rate_limit_window" by (simp add: rate_limit_window_def)
    show ?thesis
    proof (cases x)
      case (Inl v)
      then show ?thesis
        using c a x check_and_record_fixed [OF assms(2), of rnd32 S now operation'] True sp assms(2)
        by auto
    next
      case (Inr u)
      have r: "r = Ok ()" "m' = put_tracking t (record_tracking operation' now tr) m"
        using c x check_and_record_fixed [OF assms(2), of rnd32 S now operation'] True Inr by auto
      show ?thesis
        using r a True Request now sp(1) [of operation] sp(2) sp(3,4) Inr assms(2) pos by auto
    qed
  qed
qed

text \<open>The clock readings of a list of requests that belong to one tenant and operation.\<close>

fun times_of :: "tenant_id \<Rightarrow> api_operation \<Rightarrow> api_event list \<Rightarrow> time list" where
  "times_of t operation [] = []"
| "times_of t operation (e # es) =
     (if e = Request t operation (event_time e) then [event_time e] else []) @ times_of t operation es"

text \<open>The number of readings in the window that ends at \<open>w\<close>.\<close>

definition window_count :: "time \<Rightarrow> time list \<Rightarrow> nat" where
  "window_count w ts = length (filter (\<lambda>x. w - rate_limit_window < x \<and> x \<le> w) ts)"

lemma times_of_append: "times_of t operation (xs @ ys) = times_of t operation xs @ times_of t operation ys"
  by (induction xs) auto

lemma length_filter_mono: "(\<And>x. x \<in> set xs \<Longrightarrow> P x \<Longrightarrow> Q x) \<Longrightarrow> length (filter P xs) \<le> length (filter Q xs)"
  by (induction xs) auto

lemma window_count_snoc:
  assumes "\<forall>w. window_count w H \<le> n" and "\<forall>x \<in> set H. x \<le> now"
    and "length (recent now H) < n"
  shows "window_count w (H @ [now]) \<le> n"
proof (cases "w < now")
  case True
  then show ?thesis using assms(1) by (simp add: window_count_def)
next
  case False
  have "window_count w (H @ [now]) \<le> window_count w H + 1" by (simp add: window_count_def)
  also have "window_count w H \<le> length (recent now H)"
    unfolding window_count_def by (rule length_filter_mono) (use False in auto)
  finally show ?thesis using assms(3) by simp
qed

lemma sliding_window:
  assumes "quota_fixed t q m" and "sorted (map event_time es)" and "\<forall>e \<in> set es. c \<le> event_time e"
    and "\<forall>x \<in> set H. x \<le> c"
    and "recent c (operation_times (tracking_of m t) operation) = recent c H"
    and "\<forall>w. window_count w H \<le> unat (operation_limit q operation)"
  shows "window_count w (H @ times_of t operation (admitted rnd32 S m es))
           \<le> unat (operation_limit q operation)"
  using assms
proof (induction es arbitrary: m H c)
  case Nil
  then show ?case by simp
next
  case (Cons e es)
  let ?L = "operation_limit q operation" and ?now = "event_time e"
  obtain a m' where st: "api_step rnd32 S m e = (a, m')" by force
  let ?hit = "a \<and> e = Request t operation ?now"
  let ?H = "H @ (if ?hit then [?now] else [])"
  note step = api_step_fixed [OF st Cons.prems(1) refl, of operation]
  have now: "c \<le> ?now" using Cons.prems(3) by simp
  have le: "\<forall>x \<in> set H. x \<le> ?now" using Cons.prems(4) now by force
  have same: "recent ?now (operation_times (tracking_of m t) operation) = recent ?now H"
    using Cons.prems(5) recent_recent [OF now] by metis
  have "window_count ?now H = length (recent ?now H)"
    unfolding window_count_def using le by (intro arg_cong [where f = length] filter_cong) auto
  then have "length (recent ?now H) \<le> unat ?L" using Cons.prems(6) by metis
  then have small: "unat (of_nat (length (recent ?now H)) :: u32) = length (recent ?now H)"
    using unat_bound [of ?L] by (simp add: unat_of_nat)
  have win: "\<forall>w. window_count w ?H \<le> unat ?L"
  proof (cases ?hit)
    case True
    then have "(of_nat (length (recent ?now H)) :: u32) < ?L" using step same by simp
    then have "length (recent ?now H) < unat ?L" using small by (simp add: word_less_nat_alt)
    with True show ?thesis using window_count_snoc [OF Cons.prems(6) le] by simp
  qed (use Cons.prems(6) in auto)
  have rec: "recent ?now (operation_times (tracking_of m' t) operation) = recent ?now ?H"
    using step same by (simp add: rate_limit_window_def)
  have "window_count w (?H @ times_of t operation (admitted rnd32 S m' es)) \<le> unat ?L"
    by (rule Cons.IH [of m' ?now]) (use step Cons.prems le win rec in auto)
  moreover have "times_of t operation (admitted rnd32 S m (e # es)) =
      (if ?hit then [?now] else []) @ times_of t operation (admitted rnd32 S m' es)"
    by (simp add: st times_of_append)
  ultimately show ?case by simp
qed

definition requests_of :: "tenant_id \<Rightarrow> api_event list \<Rightarrow> api_event list" where
  "requests_of t = filter (\<lambda>e. \<exists>operation. e = Request t operation (event_time e))"

lemma concurrent_bound:
  assumes "quota_fixed t q m"
    and "concurrent_requests (tracking_of m t) \<le> max_concurrent_requests (q_api_limits q)"
  shows "length (requests_of t (admitted rnd32 S m es)) +
           unat (concurrent_requests (tracking_of m t))
         \<le> unat (max_concurrent_requests (q_api_limits q))"
  using assms
proof (induction es arbitrary: m)
  case Nil
  then show ?case by (simp add: requests_of_def word_le_nat_alt)
next
  case (Cons e es)
  let ?M = "max_concurrent_requests (q_api_limits q)" and ?now = "event_time e"
  let ?c = "\<lambda>m. concurrent_requests (tracking_of m t)"
  obtain a m' where st: "api_step rnd32 S m e = (a, m')" by force
  let ?hit = "a \<and> (\<exists>operation. e = Request t operation ?now)"
  note step = api_step_fixed [OF st Cons.prems(1) refl]
  have c': "?c m' \<le> ?M \<and> unat (?c m') = unat (?c m) + (if ?hit then 1 else 0)"
  proof (cases ?hit)
    case True
    then have lt: "?c m < ?M" using step by blast
    have "?c m' = ?c m + 1" using step True by simp
    moreover have "unat (?c m + 1) = unat (?c m) + 1"
      using lt unat_bound [of ?M] by (simp add: unat_word_ariths word_less_nat_alt)
    ultimately show ?thesis using lt True word_less_succ_le(1) [OF lt] by simp
  next
    case False
    then have "?c m' = ?c m" using step [of VmCreate] by simp
    with False Cons.prems(2) show ?thesis by simp
  qed
  have "length (requests_of t (admitted rnd32 S m' es)) + unat (?c m') \<le> unat ?M"
    using Cons.IH [of m'] step [of VmCreate] c' by simp
  moreover have "length (requests_of t (admitted rnd32 S m (e # es))) =
      (if ?hit then 1 else 0) + length (requests_of t (admitted rnd32 S m' es))"
    by (simp add: requests_of_def st)
  ultimately show ?case using c' by simp
qed

lemma check_rate_limit_fixed:
  assumes "quota_fixed t q m"
  shows "check_rate_limit rnd32 S now t operation m =
     (case rate_check q operation now (tracking_of m t) of (r, tr) \<Rightarrow> (r, put_tracking t tr m))"
  using get_tenant_quota_fixed [OF assms] assms by (simp add: check_rate_limit_def quota_fixed_def)

lemma rate_check_again:
  assumes "rate_check q operation now tr = (Inr (), tr')"
  shows "rate_check q operation now tr' = (Inr (), tr')"
  using assms
  by (auto simp: rate_check_def Let_def operation_times_def filter_filter split: if_splits)

lemma rate_check_zero_limit:
  "operation_limit q operation = 0 \<Longrightarrow> \<exists>v. fst (rate_check q operation now tr) = Inl v"
  by (simp add: rate_check_def Let_def)

section \<open>Properties of the quota manager\<close>

text \<open>
  C4. Quota enforcement is sound: a tenant with an enabled quota starts without usage; machines are
  charged by \<open>update_resource_usage\<close>, each right after \<open>check_resource_quota\<close> has accepted the same
  request, and deleted machines are credited, in any order and for any tenants. Then the tenant never
  exceeds its limits on machines, vCPUs, memory, disk or machines per node. A charged request names
  its node, asks for at least one vCPU and for amounts in the range of the signed types, which the
  limits must fit in as well: a larger amount can wrap around and pass the check. A check is not
  separated from its charge by another one.
\<close>

theorem quota_enforcement_sound:
  assumes "limits_signed (q_vm_limits q)" and "q_enabled q"
    and "quotas m t = Some q" and "usage m t = None" and "\<not> quotas_poisoned m" and "\<not> usage_poisoned m"
    and "reach usage_step (usage_enabled rnd32 S) m m'"
  shows "within_limits (q_vm_limits q) (u_vm_usage (get_tenant_usage now t m'))"
proof -
  have "usage_inv t q m"
    using assms(1-6)
    by (simp add: usage_inv_def tenant_vm_usage_def usage_wf_default)
      (simp add: within_limits_def vm_resource_usage_default_def vms_on_def)
  then have "usage_inv t q m'" by (rule usage.reach_inv [OF assms(7)])
  then show ?thesis by (simp add: usage_inv_def get_tenant_vm_usage)
qed

definition sample_charge :: usage_event where
  "sample_charge = Charge \<lparr>rq_tenant_id = ''acme'', rq_node_id = Some 1, rq_vcpus = 4, rq_memory_mb = 8192,
     rq_disk_gb = 20, rq_timestamp = 0\<rparr> 1 0"

definition acme_storage :: "unit quota_storage" where
  "acme_storage =
     \<lparr>st_save_tenant_quota = (\<lambda>_ s. (Ok (), s)), st_get_tenant_quota = (\<lambda>_ _. Ok None),
      st_get_all_quotas = (\<lambda>_. Ok []), st_delete_tenant_quota = (\<lambda>_ s. (Ok (), s))\<rparr>"

definition acme_manager :: "unit quota_manager" where
  "acme_manager =
     \<lparr>quotas = [''acme'' \<mapsto> tenant_quota_new (\<lambda>x. x) 0 ''acme''], quotas_poisoned = False,
      usage = Map.empty, usage_poisoned = False, tenant_requests = Map.empty, storage = ()\<rparr>"

lemmas acme = acme_manager_def sample_charge_def tenant_quota_new_def vm_resource_limits_default_def
  limits_signed_def check_resource_quota_def get_tenant_quota_def get_tenant_usage_def quota_check_def
  chargeable_def tenant_usage_new_def vm_resource_usage_default_def update_resource_usage_def

theorem quota_enforcement_sound_witness:
  "let q = tenant_quota_new (\<lambda>x. x) 0 ''acme'';
       u = u_vm_usage (get_tenant_usage 0 ''acme'' (usage_step acme_manager sample_charge))
   in active_vms u = 1 \<and> within_limits (q_vm_limits q) u"
proof -
  have r: "reach usage_step (usage_enabled (\<lambda>x. x) acme_storage) acme_manager (usage_step acme_manager sample_charge)"
    by (rule reach_step [OF reach_refl]) (simp add: acme)
  have "within_limits (q_vm_limits (tenant_quota_new (\<lambda>x. x) 0 ''acme''))
      (u_vm_usage (get_tenant_usage 0 ''acme'' (usage_step acme_manager sample_charge)))"
    by (rule quota_enforcement_sound [OF _ _ _ _ _ _ r]) (simp_all add: acme)
  then show ?thesis
    by (simp add: Let_def acme update_vm_usage_def add_vm_usage_def)
qed

text \<open>
  The totals are computed with wrapping additions, so an oversized request passes: whenever a
  tenant already uses some vCPUs and some request is accepted, the same request for \<open>2 ^ 32\<close> minus
  the vCPUs in use is accepted too, although the tenant would then hold \<open>2 ^ 32\<close> vCPUs.
\<close>

theorem cpu_limit_bypassed:
  assumes "quota_check q u request = Inr ()" and "used_vcpus u \<noteq> 0"
  shows "quota_check q u (request\<lparr>rq_vcpus := - used_vcpus u\<rparr>) = Inr () \<and>
         uint (used_vcpus u) + uint (- used_vcpus u) = 2 ^ 32"
proof -
  have "uint (- used_vcpus u) = 2 ^ 32 - uint (used_vcpus u)"
  proof -
    have "0 < uint (used_vcpus u)" "uint (used_vcpus u) < 2 ^ 32"
      using assms(2) uint_ge_0 [of "used_vcpus u"] uint_lt2p [of "used_vcpus u"]
      by (simp_all add: order_less_le uint_0_iff)
    then show ?thesis by (simp add: uint_word_ariths zmod_zminus1_eq_if)
  qed
  with assms(1) show ?thesis by (auto simp: quota_check_accepts)
qed

theorem cpu_limit_bypassed_witness:
  "quota_check (tenant_quota_new (\<lambda>x. x) 0 ''acme'')
     (vm_resource_usage_default\<lparr>active_vms := 2, used_vcpus := 150\<rparr>)
     \<lparr>rq_tenant_id = ''acme'', rq_node_id = None, rq_vcpus = - 150, rq_memory_mb = 1024,
      rq_disk_gb = 10, rq_timestamp = 0\<rparr> = Inr ()"
  using cpu_limit_bypassed [of "tenant_quota_new (\<lambda>x. x) 0 ''acme''"
      "vm_resource_usage_default\<lparr>active_vms := 2, used_vcpus := 150\<rparr>"
      "\<lparr>rq_tenant_id = ''acme'', rq_node_id = None, rq_vcpus = 2, rq_memory_mb = 1024,
       rq_disk_gb = 10, rq_timestamp = 0\<rparr>"]
  by (simp add: quota_check_def tenant_quota_new_def vm_resource_limits_default_def
      vm_resource_usage_default_def)

text \<open>
  C14. The rate limit holds in every window: for a tenant with an enabled quota and no earlier
  requests, along any sequence of checked-and-recorded requests of all tenants and of cleanup
  rounds with a clock that does not run backwards, every window of sixty seconds contains at most
  the operation's limit of admitted requests.
\<close>

theorem rate_limit_every_window:
  assumes "quota_fixed t q m" and "tenant_requests m t = None" and "sorted (map event_time es)"
  shows "window_count w (times_of t operation (admitted rnd32 S m es))
           \<le> unat (operation_limit q operation)"
proof (cases es)
  case (Cons e es')
  have "window_count w ([] @ times_of t operation (admitted rnd32 S m es))
      \<le> unat (operation_limit q operation)"
    by (rule sliding_window [OF assms(1,3), of "event_time e"])
      (use assms Cons in \<open>auto simp: window_count_def tracking_of_def tracking_new_def operation_times_def\<close>)
  then show ?thesis by simp
qed (simp add: window_count_def)

theorem rate_limit_every_window_witness:
  "window_count 5 (times_of ''acme'' VmCreate (admitted (\<lambda>x. x)
      \<lparr>st_save_tenant_quota = (\<lambda>_ s. (Ok (), s)), st_get_tenant_quota = (\<lambda>_ _. Ok None),
       st_get_all_quotas = (\<lambda>_. Ok []), st_delete_tenant_quota = (\<lambda>_ s. (Ok (), s))\<rparr>
      \<lparr>quotas = [''acme'' \<mapsto> tenant_quota_new (\<lambda>x. x) 0 ''acme''], quotas_poisoned = False,
       usage = Map.empty, usage_poisoned = False, tenant_requests = Map.empty, storage = ()\<rparr>
      (replicate 30 (Request ''acme'' VmCreate 5)))) \<le> 10"
  by (rule order_trans [OF rate_limit_every_window [where q = "tenant_quota_new (\<lambda>x. x) 0 ''acme''"]])
    (simp_all add: quota_fixed_def tenant_quota_new_def operation_limit_def
      api_rate_limits_default_def operation_limits_default_def)

text \<open>
  Concurrency slots leak: the limiter takes a slot for every admitted request and nothing in the
  program gives one back, so along any sequence of requests and cleanup rounds, however long and
  however slow, a tenant is granted at most \<open>max_concurrent_requests\<close> requests in total.
\<close>

theorem concurrent_slots_leak:
  assumes "quota_fixed t q m" and "tenant_requests m t = None"
  shows "length (requests_of t (admitted rnd32 S m es))
           \<le> unat (max_concurrent_requests (q_api_limits q))"
  using concurrent_bound [OF assms(1), of rnd32 S es] assms(2)
  by (simp add: tracking_of_def tracking_new_def)

theorem concurrent_slots_leak_witness:
  "length (requests_of ''acme'' (admitted (\<lambda>x. x)
      \<lparr>st_save_tenant_quota = (\<lambda>_ s. (Ok (), s)), st_get_tenant_quota = (\<lambda>_ _. Ok None),
       st_get_all_quotas = (\<lambda>_. Ok []), st_delete_tenant_quota = (\<lambda>_ s. (Ok (), s))\<rparr>
      \<lparr>quotas = [''acme'' \<mapsto> tenant_quota_new (\<lambda>x. x) 0 ''acme''], quotas_poisoned = False,
       usage = Map.empty, usage_poisoned = False, tenant_requests = Map.empty, storage = ()\<rparr>
      (map (\<lambda>i. Request ''acme'' StatusQuery (int i * 3600000000000)) [0..<1000]))) \<le> 50"
  by (rule order_trans [OF concurrent_slots_leak [where q = "tenant_quota_new (\<lambda>x. x) 0 ''acme''"]])
    (simp_all add: quota_fixed_def tenant_quota_new_def api_rate_limits_default_def)

text \<open>
  The hourly limits are divided by sixty before they are compared with the last minute's requests,
  so a limit below sixty, the defaults of 5 and 10 included, refuses every request.
\<close>

theorem hourly_limit_refuses:
  assumes "quota_fixed t q m" and "cluster_join_per_hour (operation_limits (q_api_limits q)) < 60"
  shows "\<exists>v. fst (check_rate_limit rnd32 S now t ClusterJoin m) = Inl v"
proof -
  have "operation_limit q ClusterJoin = 0"
    using assms(2) by (simp add: operation_limit_def word_less_nat_alt unat_div word_unat_eq_iff)
  then show ?thesis
    using rate_check_zero_limit [of q ClusterJoin now "tracking_of m t"]
    by (auto simp: check_rate_limit_fixed [OF assms(1)] split: prod.split)
qed

text \<open>
  \<open>check_and_record\<close> is two separate steps: when one check is accepted, a second one made before
  either request is recorded is accepted as well, and both end up recorded.
\<close>

theorem check_and_record_not_atomic:
  assumes "quota_fixed t q m" and "check_rate_limit rnd32 S now t operation m = (Inr (), m')"
  defines "m2 \<equiv> record_api_request now t operation (record_api_request now t operation m')"
  shows "check_rate_limit rnd32 S now t operation m' = (Inr (), m') \<and>
         length (recent now (operation_times (tracking_of m2 t) operation)) =
           length (recent now (operation_times (tracking_of m t) operation)) + 2"
proof -
  obtain tr where tr: "rate_check q operation now (tracking_of m t) = (Inr (), tr)"
    "m' = put_tracking t tr m"
    using assms(2) by (auto simp: check_rate_limit_fixed [OF assms(1)] split: prod.splits)
  have "quota_fixed t q m'" using assms(1) tr(2) by simp
  then have "check_rate_limit rnd32 S now t operation m' = (Inr (), m')"
    using tr rate_check_again [OF tr(1)]
    by (simp add: check_rate_limit_fixed) (simp add: put_tracking_def)
  moreover have "recent now (operation_times tr operation) =
      recent now (operation_times (tracking_of m t) operation)"
    using rate_check_spec(1) [OF tr(1)] .
  ultimately show ?thesis
    using tr(2) by (simp add: m2_def record_api_request_def rate_limit_window_def)
qed

end
