(* ===== verification/Raft_Storage.thy ===== *)
theory Raft_Storage
  imports Redb Raft_Codec Quota_Manager Vm_Types
begin

text \<open>
  The persistent storage of a node (\<open>raft_storage.rs\<close>): the Raft log, the hard state and the
  membership, snapshots of the state machine, and the quota and topology tables. Every function
  takes the store \<open>R\<close> and the database; the serializers of the values it stores are arguments.
  A failure of the \<open>raft::Storage\<close> trait functions, a \<open>raft::Error\<close>, is \<^const>\<open>RaftError\<close>, the
  variant it is converted to. Metrics, logging and fail points are left out.
\<close>

section \<open>Reading the Raft state\<close>

definition read_row :: "('d, 't, 'r) redb \<Rightarrow> table_id \<Rightarrow> db_key \<Rightarrow> 'r \<Rightarrow> blob option" where
  "read_row R T k r =
     (if open_read R T r then (case get_read R T k r of Some (Some b) \<Rightarrow> Some b | _ \<Rightarrow> None) else None)"

definition initial_state :: "('d, 't, 'r) redb \<Rightarrow> 'd \<Rightarrow> (hard_state \<times> conf_state) outcome" where
  "initial_state R d =
     (case begin_read R d of
        None \<Rightarrow> Err RaftError
      | Some r \<Rightarrow>
          let hard = (case read_row R RAFT_HARD_STATE_TABLE (Str ''hard_state'') r of
                        None \<Rightarrow> hard_state_default
                      | Some b \<Rightarrow> (case deserialize_hard_state b of Ok s \<Rightarrow> s | _ \<Rightarrow> hard_state_default));
              conf = (case read_row R RAFT_CONF_STATE_TABLE (Str ''conf_state'') r of
                        None \<Rightarrow> conf_state_default
                      | Some b \<Rightarrow> (case deserialize_conf_state b of Ok s \<Rightarrow> s | _ \<Rightarrow> conf_state_default))
          in Ok (hard, conf))"

definition log_read :: "('d, 't, 'r) redb \<Rightarrow> 'd \<Rightarrow> 'r outcome" where
  "log_read R d =
     (case begin_read R d of
        None \<Rightarrow> Err RaftError
      | Some r \<Rightarrow> if open_read R RAFT_LOG_TABLE r then Ok r else Err RaftError)"

definition decode_entry :: "blob \<Rightarrow> raft_entry outcome" where
  "decode_entry b = (case deserialize_entry b of Ok e \<Rightarrow> Ok e | _ \<Rightarrow> Err RaftError)"

text \<open>The loop over \<open>low..high\<close>; \<open>used\<close> is the number of bytes collected so far.\<close>

fun entries_loop ::
  "('d, 't, 'r) redb \<Rightarrow> 'r \<Rightarrow> u64 option \<Rightarrow> u64 list \<Rightarrow> u64 \<Rightarrow> raft_entry list outcome" where
  "entries_loop R r max_size [] used = Ok []"
| "entries_loop R r max_size (idx # idxs) used =
     (case get_read R RAFT_LOG_TABLE (Num idx) r of
        Some (Some b) \<Rightarrow>
          let entry_size = of_nat (length b) in
          if (case max_size of Some limit \<Rightarrow> used + entry_size > limit | None \<Rightarrow> False) then Ok []
          else obind (decode_entry b) (\<lambda>e.
                 obind (entries_loop R r max_size idxs (used + entry_size)) (\<lambda>es. Ok (e # es)))
      | _ \<Rightarrow> entries_loop R r max_size idxs used)"

definition log_range :: "u64 \<Rightarrow> u64 \<Rightarrow> u64 list" where
  "log_range low high = map of_nat [unat low..<unat high]"

definition storage_entries ::
  "('d, 't, 'r) redb \<Rightarrow> u64 \<Rightarrow> u64 \<Rightarrow> u64 option \<Rightarrow> 'd \<Rightarrow> raft_entry list outcome" where
  "storage_entries R low high max_size d =
     obind (log_read R d) (\<lambda>r. entries_loop R r max_size (log_range low high) 0)"

definition storage_term :: "('d, 't, 'r) redb \<Rightarrow> u64 \<Rightarrow> 'd \<Rightarrow> u64 outcome" where
  "storage_term R idx d =
     obind (log_read R d) (\<lambda>r.
       case get_read R RAFT_LOG_TABLE (Num idx) r of
         Some (Some b) \<Rightarrow> obind (decode_entry b) (\<lambda>e. Ok (entry_term e))
       | _ \<Rightarrow> Ok 0)"

definition first_index :: "('d, 't, 'r) redb \<Rightarrow> 'd \<Rightarrow> u64 outcome" where
  "first_index R d =
     obind (log_read R d) (\<lambda>r.
       case iter_read R RAFT_LOG_TABLE r of
         Some (Some (k, _) # _) \<Rightarrow> Ok (key_num k)
       | _ \<Rightarrow> Ok 1)"

definition last_index :: "('d, 't, 'r) redb \<Rightarrow> 'd \<Rightarrow> u64 outcome" where
  "last_index R d =
     obind (log_read R d) (\<lambda>r.
       case iter_read R RAFT_LOG_TABLE r of
         Some xs \<Rightarrow> (case rev xs of Some (k, _) # _ \<Rightarrow> Ok (key_num k) | _ \<Rightarrow> Ok 0)
       | None \<Rightarrow> Ok 0)"

section \<open>Writing the log and the Raft state\<close>

fun append_loop :: "('d, 't, 'r) redb \<Rightarrow> raft_entry list \<Rightarrow> 't \<Rightarrow> 't outcome" where
  "append_loop R [] t = Ok t"
| "append_loop R (e # es) t =
     obind (tx_insert R RAFT_LOG_TABLE (Num (entry_index e)) (serialize_entry e) t) (append_loop R es)"

definition append_entries ::
  "('d, 't, 'r) redb \<Rightarrow> raft_entry list \<Rightarrow> 'd \<Rightarrow> unit outcome \<times> 'd" where
  "append_entries R es = write_txn R (\<lambda>t. obind (tx_open R RAFT_LOG_TABLE t) (append_loop R es))"

definition save_hard_state :: "('d, 't, 'r) redb \<Rightarrow> hard_state \<Rightarrow> 'd \<Rightarrow> unit outcome \<times> 'd" where
  "save_hard_state R hs =
     write_txn R (\<lambda>t. obind (tx_open R RAFT_HARD_STATE_TABLE t)
       (tx_insert R RAFT_HARD_STATE_TABLE (Str ''hard_state'') (serialize_hard_state hs)))"

definition save_conf_state :: "('d, 't, 'r) redb \<Rightarrow> conf_state \<Rightarrow> 'd \<Rightarrow> unit outcome \<times> 'd" where
  "save_conf_state R cs =
     write_txn R (\<lambda>t. obind (tx_open R RAFT_CONF_STATE_TABLE t)
       (tx_insert R RAFT_CONF_STATE_TABLE (Str ''conf_state'') (serialize_conf_state cs)))"

definition initialize_single_node ::
  "('d, 't, 'r) redb \<Rightarrow> u64 \<Rightarrow> 'd \<Rightarrow> unit outcome \<times> 'd" where
  "initialize_single_node R node_id d =
     (case begin_read R d of
        None \<Rightarrow> (Err StorageTransactionError, d)
      | Some r \<Rightarrow>
          if read_row R RAFT_CONF_STATE_TABLE (Str ''conf_state'') r \<noteq> None then (Ok (), d)
          else save_conf_state R (conf_state_default\<lparr>voters := [node_id]\<rparr>) d)"

definition initialize_joining_node :: "('d, 't, 'r) redb \<Rightarrow> 'd \<Rightarrow> unit outcome \<times> 'd" where
  "initialize_joining_node R d =
     db_seq (save_conf_state R conf_state_default d)
       (save_hard_state R \<lparr>hs_term = 0, hs_vote = 0, hs_commit = 0\<rparr>)"

definition load_conf_state :: "('d, 't, 'r) redb \<Rightarrow> 'd \<Rightarrow> conf_state outcome" where
  "load_conf_state R d =
     obind (read_txn R d) (\<lambda>r.
       case read_row R RAFT_CONF_STATE_TABLE (Str ''conf_state'') r of
         None \<Rightarrow> Ok conf_state_default
       | Some b \<Rightarrow> (case deserialize_conf_state b of
                      Ok cs \<Rightarrow> Ok cs
                    | _ \<Rightarrow> Err (Serialization ''deserialize conf state'')))"

text \<open>The loops that remove a list of keys and insert a list of rows.\<close>

fun remove_rows :: "('d, 't, 'r) redb \<Rightarrow> table_id \<Rightarrow> db_key list \<Rightarrow> 't \<Rightarrow> 't outcome" where
  "remove_rows R T [] t = Ok t"
| "remove_rows R T (k # ks) t = obind (tx_remove R T k t) (remove_rows R T ks)"

fun insert_rows ::
  "('d, 't, 'r) redb \<Rightarrow> table_id \<Rightarrow> (db_key \<times> blob) list \<Rightarrow> 't \<Rightarrow> 't outcome" where
  "insert_rows R T [] t = Ok t"
| "insert_rows R T ((k, v) # kvs) t = obind (tx_insert R T k v t) (insert_rows R T kvs)"

text \<open>\<open>filter_map(|entry| entry.ok())\<close>: the keys of the items that could be read.\<close>

definition item_keys :: "(db_key \<times> blob) option list \<Rightarrow> db_key list" where
  "item_keys xs = [k. Some (k, v) \<leftarrow> xs]"

definition compact_log_before :: "('d, 't, 'r) redb \<Rightarrow> u64 \<Rightarrow> 'd \<Rightarrow> unit outcome \<times> 'd" where
  "compact_log_before R index d =
     (if index = 0 then (Ok (), d)
      else write_txn R (\<lambda>t.
             obind (tx_open R RAFT_LOG_TABLE t) (\<lambda>t.
             obind (tx_iter R RAFT_LOG_TABLE t) (\<lambda>xs.
               remove_rows R RAFT_LOG_TABLE
                 (filter (\<lambda>k. key_num k < index) (item_keys xs)) t))) d)"

section \<open>Snapshots\<close>

record snapshot_data =
  sd_vm_states :: "(string \<times> blob) list"
  sd_cluster_state :: "(string \<times> blob) list"
  sd_tasks :: "(string \<times> blob) list"
  sd_task_assignments :: "(string \<times> blob) list"
  sd_task_results :: "(string \<times> blob) list"
  sd_workers :: "(byte list \<times> blob) list"
  sd_worker_status :: "(byte list \<times> blob) list"
  sd_ip_pools :: "(u64 \<times> blob) list"
  sd_ip_allocations :: "(string \<times> blob) list"
  sd_vm_ip_mappings :: "(string \<times> blob) list"

record raft_snapshot =
  snap_data :: blob
  snap_conf_state :: conf_state
  snap_index :: u64
  snap_term :: u64

text \<open>\<open>for entry in table.iter()? { let (key, value) = entry?; .. }\<close> on one table, when it opens.\<close>

fun collect_rows :: "(db_key \<Rightarrow> 'k) \<Rightarrow> (db_key \<times> blob) option list \<Rightarrow> ('k \<times> blob) list outcome" where
  "collect_rows f [] = Ok []"
| "collect_rows f (None # xs) = Err (Storage ''storage_operation'')"
| "collect_rows f (Some (k, v) # xs) = obind (collect_rows f xs) (\<lambda>kvs. Ok ((f k, v) # kvs))"

definition snapshot_table ::
  "('d, 't, 'r) redb \<Rightarrow> table_id \<Rightarrow> (db_key \<Rightarrow> 'k) \<Rightarrow> 'r \<Rightarrow> ('k \<times> blob) list outcome" where
  "snapshot_table R T f r =
     (if open_read R T r
      then obind (or_err (Storage ''storage_operation'') (iter_read R T r)) (collect_rows f)
      else Ok [])"

definition create_snapshot_data :: "('d, 't, 'r) redb \<Rightarrow> 'd \<Rightarrow> snapshot_data outcome" where
  "create_snapshot_data R d =
     obind (read_txn R d) (\<lambda>r.
     obind (snapshot_table R VM_STATE_TABLE key_str r) (\<lambda>vm_states.
     obind (snapshot_table R CLUSTER_STATE_TABLE key_str r) (\<lambda>cluster_state.
     obind (snapshot_table R TASK_TABLE key_str r) (\<lambda>tasks.
     obind (snapshot_table R TASK_ASSIGNMENT_TABLE key_str r) (\<lambda>task_assignments.
     obind (snapshot_table R TASK_RESULT_TABLE key_str r) (\<lambda>task_results.
     obind (snapshot_table R WORKER_TABLE key_bytes r) (\<lambda>workers.
     obind (snapshot_table R WORKER_STATUS_TABLE key_bytes r) (\<lambda>worker_status.
     obind (snapshot_table R IP_POOL_TABLE key_num r) (\<lambda>ip_pools.
     obind (snapshot_table R IP_ALLOCATION_TABLE key_str r) (\<lambda>ip_allocations.
     obind (snapshot_table R VM_IP_MAPPING_TABLE key_str r) (\<lambda>vm_ip_mappings.
       Ok \<lparr>sd_vm_states = vm_states, sd_cluster_state = cluster_state, sd_tasks = tasks,
           sd_task_assignments = task_assignments, sd_task_results = task_results,
           sd_workers = workers, sd_worker_status = worker_status, sd_ip_pools = ip_pools,
           sd_ip_allocations = ip_allocations, sd_vm_ip_mappings = vm_ip_mappings\<rparr>)))))))))))"

definition or_raft :: "'a outcome \<Rightarrow> 'a outcome" where
  "or_raft x = (case x of Err _ \<Rightarrow> Err RaftError | _ \<Rightarrow> x)"

definition storage_snapshot ::
  "('d, 't, 'r) redb \<Rightarrow> snapshot_data serde \<Rightarrow> u64 \<Rightarrow> 'd \<Rightarrow> raft_snapshot outcome" where
  "storage_snapshot R Sn request_index d =
     obind (or_raft (load_conf_state R d)) (\<lambda>conf_state.
     obind (last_index R d) (\<lambda>last.
     obind (if last > 0 then storage_term R last d else Ok 0) (\<lambda>term'.
     obind (or_raft (create_snapshot_data R d)) (\<lambda>snapshot_data.
     obind (or_err RaftError (enc Sn snapshot_data)) (\<lambda>bytes.
       Ok \<lparr>snap_data = bytes, snap_conf_state = conf_state,
           snap_index = min request_index last, snap_term = term'\<rparr>)))))"

text \<open>\<open>restore_string_table\<close>, \<open>restore_bytes_table\<close> and \<open>restore_u64_table\<close> differ only in the key type.\<close>

definition restore_table ::
  "('d, 't, 'r) redb \<Rightarrow> table_id \<Rightarrow> (db_key \<times> blob) list \<Rightarrow> 't \<Rightarrow> 't outcome" where
  "restore_table R T kvs t =
     obind (tx_open R T t) (\<lambda>t.
     obind (tx_iter R T t) (\<lambda>xs.
     obind (remove_rows R T (item_keys xs) t) (insert_rows R T kvs)))"

definition restore_string_table ::
  "('d, 't, 'r) redb \<Rightarrow> table_id \<Rightarrow> (string \<times> blob) list \<Rightarrow> 't \<Rightarrow> 't outcome" where
  "restore_string_table R T kvs = restore_table R T (map (apfst Str) kvs)"

definition restore_bytes_table ::
  "('d, 't, 'r) redb \<Rightarrow> table_id \<Rightarrow> (byte list \<times> blob) list \<Rightarrow> 't \<Rightarrow> 't outcome" where
  "restore_bytes_table R T kvs = restore_table R T (map (apfst Bytes) kvs)"

definition restore_u64_table ::
  "('d, 't, 'r) redb \<Rightarrow> table_id \<Rightarrow> (u64 \<times> blob) list \<Rightarrow> 't \<Rightarrow> 't outcome" where
  "restore_u64_table R T kvs = restore_table R T (map (apfst Num) kvs)"

definition restore_from_snapshot ::
  "('d, 't, 'r) redb \<Rightarrow> snapshot_data serde \<Rightarrow> blob \<Rightarrow> 'd \<Rightarrow> unit outcome \<times> 'd" where
  "restore_from_snapshot R Sn bytes d =
     (case dec Sn bytes of
        None \<Rightarrow> (Err (Serialization ''deserialize snapshot data''), d)
      | Some s \<Rightarrow>
          write_txn R (\<lambda>t.
            obind (restore_string_table R VM_STATE_TABLE (sd_vm_states s) t) (\<lambda>t.
            obind (restore_string_table R CLUSTER_STATE_TABLE (sd_cluster_state s) t) (\<lambda>t.
            obind (restore_string_table R TASK_TABLE (sd_tasks s) t) (\<lambda>t.
            obind (restore_string_table R TASK_ASSIGNMENT_TABLE (sd_task_assignments s) t) (\<lambda>t.
            obind (restore_string_table R TASK_RESULT_TABLE (sd_task_results s) t) (\<lambda>t.
            obind (restore_bytes_table R WORKER_TABLE (sd_workers s) t) (\<lambda>t.
            obind (restore_bytes_table R WORKER_STATUS_TABLE (sd_worker_status s) t) (\<lambda>t.
            obind (restore_u64_table R IP_POOL_TABLE (sd_ip_pools s) t) (\<lambda>t.
            obind (restore_string_table R IP_ALLOCATION_TABLE (sd_ip_allocations s) t) (\<lambda>t.
              restore_string_table R VM_IP_MAPPING_TABLE (sd_vm_ip_mappings s) t)))))))))) d)"

definition apply_snapshot ::
  "('d, 't, 'r) redb \<Rightarrow> snapshot_data serde \<Rightarrow> raft_snapshot \<Rightarrow> 'd \<Rightarrow> unit outcome \<times> 'd" where
  "apply_snapshot R Sn snap d =
     db_seq (save_conf_state R (snap_conf_state snap) d) (\<lambda>d.
     db_seq (save_hard_state R
       (hard_state_default\<lparr>hs_term := snap_term snap, hs_commit := snap_index snap\<rparr>) d) (\<lambda>d.
     db_seq (if snap_data snap \<noteq> [] then restore_from_snapshot R Sn (snap_data snap) d else (Ok (), d))
       (compact_log_before R (snap_index snap))))"

section \<open>Quotas and topologies\<close>

definition redb_save_tenant_quota ::
  "('d, 't, 'r) redb \<Rightarrow> tenant_quota serde \<Rightarrow> tenant_quota \<Rightarrow> 'd \<Rightarrow> unit outcome \<times> 'd" where
  "redb_save_tenant_quota R Q quota =
     write_txn R (\<lambda>t.
       obind (tx_open R TENANT_QUOTA_TABLE t) (\<lambda>t.
       obind (or_err (Serialization ''serialize tenant quota'') (enc Q quota)) (\<lambda>bytes.
         tx_insert R TENANT_QUOTA_TABLE (Str (q_tenant_id quota)) bytes t)))"

definition redb_get_tenant_quota ::
  "('d, 't, 'r) redb \<Rightarrow> tenant_quota serde \<Rightarrow> tenant_id \<Rightarrow> 'd \<Rightarrow> tenant_quota option outcome" where
  "redb_get_tenant_quota R Q tenant d =
     obind (read_txn R d) (\<lambda>r.
       case read_row R TENANT_QUOTA_TABLE (Str tenant) r of
         None \<Rightarrow> Ok None
       | Some b \<Rightarrow> obind (or_err (Serialization ''deserialize tenant quota'') (dec Q b)) (\<lambda>q. Ok (Some q)))"

definition redb_get_all_quotas ::
  "('d, 't, 'r) redb \<Rightarrow> tenant_quota serde \<Rightarrow> 'd \<Rightarrow> tenant_quota list outcome" where
  "redb_get_all_quotas R Q d =
     obind (read_txn R d) (\<lambda>r.
       if open_read R TENANT_QUOTA_TABLE r
       then obind (or_err (Storage ''storage_operation'') (iter_read R TENANT_QUOTA_TABLE r))
              (\<lambda>xs. Ok (List.map_filter (\<lambda>x. Option.bind x (\<lambda>(k, b). dec Q b)) xs))
       else Ok [])"

definition redb_delete_tenant_quota ::
  "('d, 't, 'r) redb \<Rightarrow> tenant_id \<Rightarrow> 'd \<Rightarrow> unit outcome \<times> 'd" where
  "redb_delete_tenant_quota R tenant =
     write_txn R (\<lambda>t.
       obind (tx_open R TENANT_QUOTA_TABLE t) (tx_remove R TENANT_QUOTA_TABLE (Str tenant)))"

definition save_node_topology ::
  "('d, 't, 'r) redb \<Rightarrow> node_topology serde \<Rightarrow> u64 \<Rightarrow> node_topology \<Rightarrow> 'd \<Rightarrow> unit outcome \<times> 'd" where
  "save_node_topology R N node_id topology =
     write_txn R (\<lambda>t.
       obind (tx_open R NODE_TOPOLOGY_TABLE t) (\<lambda>t.
       obind (or_err (Serialization ''serialize node topology'') (enc N topology)) (\<lambda>bytes.
         tx_insert R NODE_TOPOLOGY_TABLE (Bytes (u64_to_le_bytes node_id)) bytes t)))"

definition get_node_topology ::
  "('d, 't, 'r) redb \<Rightarrow> node_topology serde \<Rightarrow> u64 \<Rightarrow> 'd \<Rightarrow> node_topology option outcome" where
  "get_node_topology R N node_id d =
     obind (read_txn R d) (\<lambda>r.
       case read_row R NODE_TOPOLOGY_TABLE (Bytes (u64_to_le_bytes node_id)) r of
         None \<Rightarrow> Ok None
       | Some b \<Rightarrow> obind (or_err (Serialization ''deserialize node topology'') (dec N b)) (\<lambda>x. Ok (Some x)))"

text \<open>\<open>init_database_tables\<close>: opening a table in a write transaction creates it.\<close>

fun open_tables :: "('d, 't, 'r) redb \<Rightarrow> table_id list \<Rightarrow> 't \<Rightarrow> 't outcome" where
  "open_tables R [] t = Ok t"
| "open_tables R (T # Ts) t = obind (tx_open R T t) (open_tables R Ts)"

definition init_database_tables :: "('d, 't, 'r) redb \<Rightarrow> 'd \<Rightarrow> unit outcome \<times> 'd" where
  "init_database_tables R =
     write_txn R (open_tables R
       [VM_STATE_TABLE, CLUSTER_STATE_TABLE, RAFT_LOG_TABLE, RAFT_HARD_STATE_TABLE,
        RAFT_CONF_STATE_TABLE, TASK_TABLE, TASK_ASSIGNMENT_TABLE, TASK_RESULT_TABLE, WORKER_TABLE,
        WORKER_STATUS_TABLE, NODE_TOPOLOGY_TABLE, TENANT_QUOTA_TABLE, TENANT_USAGE_TABLE])"

text \<open>The \<open>Storage\<close> trait the quota manager uses, implemented by this storage.\<close>

definition redb_quota_storage :: "('d, 't, 'r) redb \<Rightarrow> tenant_quota serde \<Rightarrow> 'd quota_storage" where
  "redb_quota_storage R Q =
     \<lparr>st_save_tenant_quota = redb_save_tenant_quota R Q,
      st_get_tenant_quota = redb_get_tenant_quota R Q,
      st_get_all_quotas = redb_get_all_quotas R Q,
      st_delete_tenant_quota = redb_delete_tenant_quota R\<rparr>"

section \<open>Effects on the rows\<close>

lemma remove_rows_view:
  "redb_ok R view tview rview \<Longrightarrow> remove_rows R T ks t = Ok t' \<Longrightarrow>
     tview t' = (tview t)(T := (\<lambda>k. if k \<in> set ks then None else tview t T k))"
proof (induction ks arbitrary: t)
  case (Cons k ks)
  then obtain t1 where t1: "tx_remove R T k t = Ok t1" "remove_rows R T ks t1 = Ok t'" by auto
  show ?case
    using Cons.IH [OF Cons.prems(1) t1(2)] redb_remove [OF Cons.prems(1) t1(1)]
    by (auto simp: fun_eq_iff)
qed (auto simp: fun_eq_iff)

lemma insert_rows_view:
  "redb_ok R view tview rview \<Longrightarrow> insert_rows R T kvs t = Ok t' \<Longrightarrow>
     tview t' = (tview t)(T := tview t T ++ map_of (rev kvs))"
proof (induction kvs arbitrary: t)
  case (Cons p kvs)
  obtain k v where p: "p = (k, v)" by force
  then obtain t1 where t1: "tx_insert R T k v t = Ok t1" "insert_rows R T kvs t1 = Ok t'"
    using Cons.prems(2) by auto
  show ?case
    using Cons.IH [OF Cons.prems(1) t1(2)] redb_insert [OF Cons.prems(1) t1(1)] p
    by (simp add: fun_eq_iff map_add_def split: option.splits)
qed (auto simp: fun_eq_iff)

lemma item_keys_iff: "lists_rows xs m \<Longrightarrow> k \<in> set (item_keys xs) \<longleftrightarrow> m k \<noteq> None"
  by (force simp: item_keys_def lists_rows_Some)

lemma map_of_rev_distinct: "distinct (map fst kvs) \<Longrightarrow> map_of (rev kvs) = map_of kvs"
  by (simp add: map_of_inject_set rev_map [symmetric])

lemma restore_table_view:
  assumes "redb_ok R view tview rview" and "items_succeed R" and "restore_table R T kvs t = Ok t'"
    and "distinct (map fst kvs)"
  shows "tview t' = (tview t)(T := map_of kvs)"
proof -
  obtain t1 xs t2 where t: "tx_open R T t = Ok t1" "tx_iter R T t1 = Ok xs"
    "remove_rows R T (item_keys xs) t1 = Ok t2" "insert_rows R T kvs t2 = Ok t'"
    using assms(3) by (auto simp: restore_table_def)
  have "None \<notin> set xs" using assms(2) t(2) by (simp add: items_succeed_def tx_iter_def)
  then have "lists_rows xs (tview t1 T)" using redb_iter [OF assms(1) t(2)] by simp
  then have "tview t2 = (tview t1)(T := Map.empty)"
    using remove_rows_view [OF assms(1) t(3)] by (auto simp: item_keys_iff fun_eq_iff)
  then show ?thesis
    using insert_rows_view [OF assms(1) t(4)] redb_open [OF assms(1) t(1)] assms(4)
    by (simp add: map_of_rev_distinct)
qed

lemma append_loop_view:
  "redb_ok R view tview rview \<Longrightarrow> append_loop R es t = Ok t' \<Longrightarrow>
     tview t' = (tview t)(RAFT_LOG_TABLE := tview t RAFT_LOG_TABLE ++
       map_of (rev (map (\<lambda>e. (Num (entry_index e), serialize_entry e)) es)))"
proof (induction es arbitrary: t)
  case (Cons e es)
  then obtain t1 where t1: "tx_insert R RAFT_LOG_TABLE (Num (entry_index e)) (serialize_entry e) t = Ok t1"
    "append_loop R es t1 = Ok t'" by auto
  show ?case
    using Cons.IH [OF Cons.prems(1) t1(2)] redb_insert [OF Cons.prems(1) t1(1)]
    by (simp add: fun_eq_iff map_add_def split: option.splits)
qed (auto simp: fun_eq_iff)

text \<open>A function that stores one row.\<close>

lemma put_txn_view:
  assumes "redb_ok R view tview rview"
    and "write_txn R (\<lambda>t. obind (tx_open R T t) (tx_insert R T k v)) d = (Ok (), d')"
  shows "view d' = (view d)(T := (view d T)(k \<mapsto> v))"
proof -
  obtain t t' where t: "tview t = view d" "obind (tx_open R T t) (tx_insert R T k v) = Ok t'"
    "view d' = tview t'" using write_txn_Ok [OF assms] by blast
  then obtain t1 where "tx_open R T t = Ok t1" "tx_insert R T k v t1 = Ok t'" by auto
  then show ?thesis using t redb_open [OF assms(1)] redb_insert [OF assms(1)] by simp
qed

lemma put_encoded_txn_view:
  assumes "redb_ok R view tview rview"
    and "write_txn R (\<lambda>t. obind (tx_open R T t) (\<lambda>t. obind (or_err e x) (\<lambda>b. tx_insert R T k b t))) d =
           (Ok (), d')"
  obtains b where "x = Some b" and "view d' = (view d)(T := (view d T)(k \<mapsto> b))"
proof -
  obtain t t' where t: "tview t = view d" "view d' = tview t'"
    "obind (tx_open R T t) (\<lambda>t. obind (or_err e x) (\<lambda>b. tx_insert R T k b t)) = Ok t'"
    using write_txn_Ok [OF assms] by blast
  then obtain t1 b where "tx_open R T t = Ok t1" "x = Some b" "tx_insert R T k b t1 = Ok t'" by auto
  then show ?thesis using that t redb_open [OF assms(1)] redb_insert [OF assms(1)] by simp
qed

lemma remove_txn_view:
  assumes "redb_ok R view tview rview"
    and "write_txn R (\<lambda>t. obind (tx_open R T t) (tx_remove R T k)) d = (Ok (), d')"
  shows "view d' = (view d)(T := (view d T)(k := None))"
proof -
  obtain t t' where t: "tview t = view d" "obind (tx_open R T t) (tx_remove R T k) = Ok t'"
    "view d' = tview t'" using write_txn_Ok [OF assms] by blast
  then obtain t1 where "tx_open R T t = Ok t1" "tx_remove R T k t1 = Ok t'" by auto
  then show ?thesis using t redb_open [OF assms(1)] redb_remove [OF assms(1)] by simp
qed

lemma read_row_view:
  assumes "redb_ok R view tview rview" and "reads_succeed R T"
  shows "read_row R T k r = rview r T k"
proof -
  obtain v where "get_read R T k r = Some v" using assms(2) unfolding reads_succeed_def by blast
  moreover have "open_read R T r" using assms(2) by (simp add: reads_succeed_def)
  ultimately show ?thesis
    using redb_get_read [OF assms(1)] by (auto simp: read_row_def split: option.splits)
qed

section \<open>The log\<close>

lemma log_read_Ok:
  assumes "redb_ok R view tview rview" and "reads_succeed R RAFT_LOG_TABLE" and "begin_read R d \<noteq> None"
  obtains r where "log_read R d = Ok r" and "rview r = view d"
    and "\<forall>k. get_read R RAFT_LOG_TABLE k r = Some (view d RAFT_LOG_TABLE k)"
proof -
  obtain r where r: "begin_read R d = Some r" using assms(3) by blast
  have v: "rview r = view d" using redb_begin_read [OF assms(1) r] .
  have "get_read R RAFT_LOG_TABLE k r = Some (view d RAFT_LOG_TABLE k)" for k
  proof -
    obtain v where "get_read R RAFT_LOG_TABLE k r = Some v"
      using assms(2) unfolding reads_succeed_def by blast
    with redb_get_read [OF assms(1) this] v show ?thesis by simp
  qed
  moreover have "log_read R d = Ok r" using r assms(2) by (simp add: log_read_def reads_succeed_def)
  ultimately show ?thesis using that v by blast
qed

lemma empty_log_indices:
  assumes "redb_ok R view tview rview" and "reads_succeed R RAFT_LOG_TABLE" and "begin_read R d \<noteq> None"
    and "view d RAFT_LOG_TABLE = Map.empty"
  shows "last_index R d = Ok 0 \<and> first_index R d = Ok 1"
proof -
  obtain r where r: "log_read R d = Ok r" "rview r = view d" by (rule log_read_Ok [OF assms(1-3)])
  have "xs = []" if "iter_read R RAFT_LOG_TABLE r = Some xs" for xs
  proof -
    have "None \<notin> set xs" using assms(2) that by (simp add: reads_succeed_def)
    with redb_iter_read [OF assms(1) that] r(2) assms(4) show ?thesis by (auto simp: lists_rows_def)
  qed
  then show ?thesis by (cases "iter_read R RAFT_LOG_TABLE r") (simp_all add: last_index_def first_index_def r(1))
qed

definition codec_fits :: "raft_entry \<Rightarrow> bool" where
  "codec_fits e \<longleftrightarrow> uint (entry_type e) < 256 \<and>
     length (entry_data e) < 2 ^ 32 \<and> length (entry_context e) < 2 ^ 32"

lemma decode_serialize: "codec_fits e \<Longrightarrow> decode_entry (serialize_entry e) = Ok e"
  by (simp add: decode_entry_def deserialize_serialize_entry codec_fits_def)

text \<open>Without a size limit the loop returns all entries; with one, a prefix that keeps to it.\<close>

lemma entries_loop_all:
  assumes "\<And>k. get_read R RAFT_LOG_TABLE (Num k) r = Some (m k)"
    and "map m idxs = map (Some \<circ> serialize_entry) es" and "\<forall>e \<in> set es. codec_fits e"
  shows "entries_loop R r None idxs used = Ok es"
  using assms(2,3)
proof (induction idxs arbitrary: es used)
  case (Cons idx idxs)
  then obtain e es' where es: "es = e # es'" by (cases es) auto
  then have "m idx = Some (serialize_entry e)" using Cons.prems(1) by simp
  moreover have "entries_loop R r None idxs (used + of_nat (length (serialize_entry e))) = Ok es'"
    using Cons es by simp
  ultimately show ?case
    using assms(1) [of idx] es Cons.prems(2) by (simp add: decode_serialize Let_def)
qed simp

lemma entries_loop_limited:
  assumes "\<And>k. get_read R RAFT_LOG_TABLE (Num k) r = Some (m k)"
    and "map m idxs = map (Some \<circ> serialize_entry) es" and "\<forall>e \<in> set es. codec_fits e"
    and "unat used + sum_list (map (length \<circ> serialize_entry) es) < 2 ^ 64" and "used \<le> limit"
  shows "\<exists>n \<le> length es. entries_loop R r (Some limit) idxs used = Ok (take n es) \<and>
           unat used + sum_list (map (length \<circ> serialize_entry) (take n es)) \<le> unat limit"
  using assms(2-5)
proof (induction idxs arbitrary: es used)
  case Nil
  then show ?case by (simp add: word_le_nat_alt)
next
  case (Cons idx idxs)
  then obtain e es' where es: "es = e # es'" by (cases es) auto
  let ?l = "length (serialize_entry e)"
  let ?used = "used + of_nat ?l"
  have m: "m idx = Some (serialize_entry e)" using Cons.prems(1) es by simp
  have u: "unat ?used = unat used + ?l"
    using Cons.prems(3) es by (simp add: unat_word_ariths unat_of_nat)
  show ?case
  proof (cases "?used > limit")
    case True
    then show ?thesis using assms(1) [of idx] m Cons.prems(4)
      by (intro exI [of _ 0]) (simp add: Let_def word_le_nat_alt)
  next
    case False
    have "\<exists>n \<le> length es'. entries_loop R r (Some limit) idxs ?used = Ok (take n es') \<and>
        unat ?used + sum_list (map (length \<circ> serialize_entry) (take n es')) \<le> unat limit"
      using Cons.prems es False by (intro Cons.IH) (simp_all only: u, simp_all add: not_less)
    then obtain n where n: "n \<le> length es'"
      "entries_loop R r (Some limit) idxs ?used = Ok (take n es')"
      "unat ?used + sum_list (map (length \<circ> serialize_entry) (take n es')) \<le> unat limit"
      by blast
    then show ?thesis
      using assms(1) [of idx] m False es Cons.prems(2) u
      by (intro exI [of _ "Suc n"]) (simp add: decode_serialize Let_def o_def)
  qed
qed

definition consecutive :: "u64 \<Rightarrow> raft_entry list \<Rightarrow> bool" where
  "consecutive low es \<longleftrightarrow> unat low + length es < 2 ^ 64 \<and>
     (\<forall>i < length es. entry_index (es ! i) = low + of_nat i)"

lemma unat_of_nat_u64: "n < 2 ^ 64 \<Longrightarrow> unat (of_nat n :: u64) = n"
  by (simp add: unat_of_nat take_bit_nat_eq_self)

lemma unat_add_u64: "unat low + n < 2 ^ 64 \<Longrightarrow> unat (low + of_nat n :: u64) = unat low + n"
  by (simp add: unat_word_ariths unat_of_nat_u64)

lemma consecutive_range:
  assumes "consecutive low es"
  shows "log_range low (low + of_nat (length es)) = map entry_index es"
proof (rule nth_equalityI)
  have l: "unat low + length es < 2 ^ 64" using assms unfolding consecutive_def by (rule conjunct1)
  note u = unat_add_u64 [OF l]
  show len: "length (log_range low (low + of_nat (length es))) = length (map entry_index es)"
    by (simp only: log_range_def length_map length_upt u diff_add_inverse)
  fix i
  assume "i < length (log_range low (low + of_nat (length es)))"
  then have i: "i < length es" using len by simp
  have "log_range low (low + of_nat (length es)) ! i = of_nat (unat low + i)"
    using i by (simp only: log_range_def u length_upt diff_add_inverse nth_map nth_upt
        add_less_cancel_left)
  also have "\<dots> = entry_index (es ! i)" using assms i by (simp add: consecutive_def)
  finally show "log_range low (low + of_nat (length es)) ! i = map entry_index es ! i" using i by simp
qed

lemma consecutive_distinct:
  assumes "consecutive low es"
  shows "distinct (map entry_index es)"
proof -
  have l: "length es < 2 ^ 64"
    using assms unfolding consecutive_def by (meson add_lessD1 le_add2 order_le_less_trans)
  have "i = j" if "i < length es" "j < length es" "entry_index (es ! i) = entry_index (es ! j)" for i j
  proof -
    have "(of_nat i :: u64) = of_nat j" using assms that by (simp add: consecutive_def)
    then show ?thesis using l that(1,2) by (metis order_less_trans unat_of_nat_u64)
  qed
  then show ?thesis by (auto simp: distinct_conv_nth)
qed

lemma append_entries_view:
  assumes "redb_ok R view tview rview" and "append_entries R es d = (Ok (), d')"
    and "distinct (map entry_index es)"
  shows "view d' = (view d)(RAFT_LOG_TABLE := view d RAFT_LOG_TABLE ++
           map_of (map (\<lambda>e. (Num (entry_index e), serialize_entry e)) es))"
proof -
  obtain t t' t1 where t: "tview t = view d" "tx_open R RAFT_LOG_TABLE t = Ok t1"
    "append_loop R es t1 = Ok t'" "view d' = tview t'"
    by (rule write_txn_Ok [OF assms(1) assms(2) [unfolded append_entries_def]]) auto
  have "distinct (map fst (map (\<lambda>e. (Num (entry_index e), serialize_entry e)) es))"
    using assms(3) by (simp add: distinct_map o_def inj_on_def)
  from map_of_rev_distinct [OF this] show ?thesis
    using append_loop_view [OF assms(1) t(3)] redb_open [OF assms(1) t(2)] t by (simp add: rev_map)
qed

lemma appended_row:
  assumes "redb_ok R view tview rview" and "append_entries R es d = (Ok (), d')"
    and "distinct (map entry_index es)" and "e \<in> set es"
  shows "view d' RAFT_LOG_TABLE (Num (entry_index e)) = Some (serialize_entry e)"
proof -
  let ?L = "map (\<lambda>e. (Num (entry_index e), serialize_entry e)) es"
  have "distinct (map fst ?L)" using assms(3) by (simp add: distinct_map o_def inj_on_def)
  then have "map_of ?L (Num (entry_index e)) = Some (serialize_entry e)"
    by (rule map_of_is_SomeI) (use assms(4) in simp)
  then show ?thesis unfolding append_entries_view [OF assms(1-3)] by simp
qed

lemma compact_log_view:
  assumes "redb_ok R view tview rview" and "items_succeed R"
    and "compact_log_before R index d = (Ok (), d')"
  shows "view d' = (view d)(RAFT_LOG_TABLE :=
           (\<lambda>k. if key_num k < index then None else view d RAFT_LOG_TABLE k))"
proof (cases "index = 0")
  case True
  then show ?thesis using assms(3) by (simp add: compact_log_before_def)
next
  case False
  let ?T = RAFT_LOG_TABLE
  obtain t t1 xs t' where t: "tview t = view d" "tx_open R ?T t = Ok t1" "tx_iter R ?T t1 = Ok xs"
    "remove_rows R ?T (filter (\<lambda>k. key_num k < index) (item_keys xs)) t1 = Ok t'" "view d' = tview t'"
    using assms(3) False unfolding compact_log_before_def
    by (simp only: if_False) (erule write_txn_Ok [OF assms(1)], auto)
  have t1: "tview t1 = view d" using redb_open [OF assms(1) t(2)] t(1) by simp
  have "None \<notin> set xs" using assms(2) t(3) by (simp add: items_succeed_def tx_iter_def)
  then have "lists_rows xs (view d ?T)" using redb_iter [OF assms(1) t(3)] t1 by simp
  then have "(if k \<in> set (filter (\<lambda>k. key_num k < index) (item_keys xs)) then None else view d ?T k) =
      (if key_num k < index then None else view d ?T k)" for k
    by (auto simp: item_keys_iff)
  then show ?thesis unfolding t(5) remove_rows_view [OF assms(1) t(4)] t1 by (simp only:)
qed

section \<open>Membership and hard state\<close>

definition conf_fits :: "conf_state \<Rightarrow> bool" where
  "conf_fits cs \<longleftrightarrow> length (voters cs) < 2 ^ 32 \<and> length (learners cs) < 2 ^ 32 \<and>
     length (voters_outgoing cs) < 2 ^ 32 \<and> length (learners_next cs) < 2 ^ 32"

lemma decode_conf: "conf_fits cs \<Longrightarrow> deserialize_conf_state (serialize_conf_state cs) = Ok cs"
  by (simp add: conf_fits_def deserialize_serialize_conf_state)

lemma save_conf_state_view:
  "redb_ok R view tview rview \<Longrightarrow> save_conf_state R cs d = (Ok (), d') \<Longrightarrow>
     view d' = (view d)(RAFT_CONF_STATE_TABLE :=
       (view d RAFT_CONF_STATE_TABLE)(Str ''conf_state'' \<mapsto> serialize_conf_state cs))"
  unfolding save_conf_state_def by (rule put_txn_view)

lemma save_hard_state_view:
  "redb_ok R view tview rview \<Longrightarrow> save_hard_state R hs d = (Ok (), d') \<Longrightarrow>
     view d' = (view d)(RAFT_HARD_STATE_TABLE :=
       (view d RAFT_HARD_STATE_TABLE)(Str ''hard_state'' \<mapsto> serialize_hard_state hs))"
  unfolding save_hard_state_def by (rule put_txn_view)

lemma initial_state_rows:
  assumes "redb_ok R view tview rview" and "reads_succeed R RAFT_HARD_STATE_TABLE"
    and "reads_succeed R RAFT_CONF_STATE_TABLE" and "begin_read R d \<noteq> None"
    and "view d RAFT_HARD_STATE_TABLE (Str ''hard_state'') = Some (serialize_hard_state hs)"
    and "view d RAFT_CONF_STATE_TABLE (Str ''conf_state'') = Some (serialize_conf_state cs)"
    and "conf_fits cs"
  shows "initial_state R d = Ok (hs, cs)"
proof -
  obtain r where r: "begin_read R d = Some r" using assms(4) by blast
  show ?thesis
    using r read_row_view [OF assms(1,2)] read_row_view [OF assms(1,3)] redb_begin_read [OF assms(1) r]
      assms(5-7) deserialize_hard_state_iff [of "serialize_hard_state hs" hs]
    by (simp add: initial_state_def decode_conf Let_def)
qed

section \<open>Snapshots\<close>

definition snapshot_tables :: "table_id list" where
  "snapshot_tables =
     [VM_STATE_TABLE, CLUSTER_STATE_TABLE, TASK_TABLE, TASK_ASSIGNMENT_TABLE, TASK_RESULT_TABLE,
      WORKER_TABLE, WORKER_STATUS_TABLE, IP_POOL_TABLE, IP_ALLOCATION_TABLE, VM_IP_MAPPING_TABLE]"

text \<open>The rows of a snapshot that go into a table.\<close>

definition snapshot_rows :: "snapshot_data \<Rightarrow> table_id \<Rightarrow> (db_key \<times> blob) list" where
  "snapshot_rows s T =
     (case T of
        VM_STATE_TABLE \<Rightarrow> map (apfst Str) (sd_vm_states s)
      | CLUSTER_STATE_TABLE \<Rightarrow> map (apfst Str) (sd_cluster_state s)
      | TASK_TABLE \<Rightarrow> map (apfst Str) (sd_tasks s)
      | TASK_ASSIGNMENT_TABLE \<Rightarrow> map (apfst Str) (sd_task_assignments s)
      | TASK_RESULT_TABLE \<Rightarrow> map (apfst Str) (sd_task_results s)
      | WORKER_TABLE \<Rightarrow> map (apfst Bytes) (sd_workers s)
      | WORKER_STATUS_TABLE \<Rightarrow> map (apfst Bytes) (sd_worker_status s)
      | IP_POOL_TABLE \<Rightarrow> map (apfst Num) (sd_ip_pools s)
      | IP_ALLOCATION_TABLE \<Rightarrow> map (apfst Str) (sd_ip_allocations s)
      | VM_IP_MAPPING_TABLE \<Rightarrow> map (apfst Str) (sd_vm_ip_mappings s)
      | _ \<Rightarrow> [])"

lemma collect_rows_Ok:
  "collect_rows f xs = Ok kvs \<longleftrightarrow> (\<exists>rows. xs = map Some rows \<and> kvs = map (apfst f) rows)"
proof (induction f xs arbitrary: kvs rule: collect_rows.induct)
  case (3 f k v xs)
  then show ?case by (force simp: Cons_eq_map_conv)
qed auto

text \<open>A collected table, with its keys put back, is the table.\<close>

lemma snapshot_table_rows:
  assumes "redb_ok R view tview rview" and "read_txn R d = Ok r" and "open_read R T r"
    and "snapshot_table R T f r = Ok kvs" and "\<And>k. key_typed T k \<Longrightarrow> g (f k) = k"
  shows "map_of (map (apfst g) kvs) = view d T" and "distinct (map fst (map (apfst g) kvs))"
proof -
  obtain xs where xs: "iter_read R T r = Some xs" "collect_rows f xs = Ok kvs"
    using assms(3,4) by (auto simp: snapshot_table_def)
  obtain rows where rows: "xs = map Some rows" "kvs = map (apfst f) rows"
    using xs(2) unfolding collect_rows_Ok by blast
  have v: "rview r = view d" by (rule read_txn_Ok [OF assms(1,2)])
  have "lists_rows xs (view d T)" using redb_iter_read [OF assms(1) xs(1)] rows(1) v by auto
  then have l: "sorted_wrt key_before (map fst rows)" "map_of rows = view d T"
    unfolding lists_rows_def rows(1) by (auto simp: inj_map_eq_map)
  have "distinct (map fst rows)" using sorted_keys_distinct [OF l(1)] .
  moreover have "g (f k) = k" if "(k, v) \<in> set rows" for k v
    using that l(2) redb_typed [OF assms(1)] assms(5) calculation
    by (metis map_of_eq_Some_iff option.distinct(1))
  then have "map (apfst g) kvs = rows" unfolding rows(2) map_map by (auto intro!: map_idI)
  ultimately show "map_of (map (apfst g) kvs) = view d T" "distinct (map fst (map (apfst g) kvs))"
    using l(2) by simp_all
qed

lemma restore_from_snapshot_view:
  assumes "redb_ok R view tview rview" and "items_succeed R"
    and "restore_from_snapshot R Sn bytes d = (Ok (), d')" and "dec Sn bytes = Some s"
    and "\<And>T. T \<in> set snapshot_tables \<Longrightarrow> distinct (map fst (snapshot_rows s T))"
  shows "view d' T = (if T \<in> set snapshot_tables then map_of (snapshot_rows s T) else view d T)"
proof -
  obtain t0 t1 t2 t3 t4 t5 t6 t7 t8 t9 t10 where t: "tview t0 = view d" "view d' = tview t10"
    "restore_table R VM_STATE_TABLE (snapshot_rows s VM_STATE_TABLE) t0 = Ok t1"
    "restore_table R CLUSTER_STATE_TABLE (snapshot_rows s CLUSTER_STATE_TABLE) t1 = Ok t2"
    "restore_table R TASK_TABLE (snapshot_rows s TASK_TABLE) t2 = Ok t3"
    "restore_table R TASK_ASSIGNMENT_TABLE (snapshot_rows s TASK_ASSIGNMENT_TABLE) t3 = Ok t4"
    "restore_table R TASK_RESULT_TABLE (snapshot_rows s TASK_RESULT_TABLE) t4 = Ok t5"
    "restore_table R WORKER_TABLE (snapshot_rows s WORKER_TABLE) t5 = Ok t6"
    "restore_table R WORKER_STATUS_TABLE (snapshot_rows s WORKER_STATUS_TABLE) t6 = Ok t7"
    "restore_table R IP_POOL_TABLE (snapshot_rows s IP_POOL_TABLE) t7 = Ok t8"
    "restore_table R IP_ALLOCATION_TABLE (snapshot_rows s IP_ALLOCATION_TABLE) t8 = Ok t9"
    "restore_table R VM_IP_MAPPING_TABLE (snapshot_rows s VM_IP_MAPPING_TABLE) t9 = Ok t10"
    using assms(3) unfolding restore_from_snapshot_def assms(4) option.case restore_string_table_def
      restore_bytes_table_def restore_u64_table_def
    by (rule write_txn_Ok [OF assms(1)]) (auto simp: snapshot_rows_def)
  have st: "tview y = (tview x)(T' := map_of (snapshot_rows s T'))"
    if "restore_table R T' (snapshot_rows s T') x = Ok y" "T' \<in> set snapshot_tables" for T' x y
    using restore_table_view [OF assms(1,2) that(1) assms(5) [OF that(2)]] .
  note views = st [OF t(3)] st [OF t(4)] st [OF t(5)] st [OF t(6)] st [OF t(7)] st [OF t(8)]
    st [OF t(9)] st [OF t(10)] st [OF t(11)] st [OF t(12)]
  have "view d' = (\<lambda>T. if T \<in> set snapshot_tables then map_of (snapshot_rows s T) else view d T)"
    using views t(1,2) by (simp add: snapshot_tables_def fun_eq_iff)
  then show ?thesis by simp
qed

lemma create_snapshot_rows:
  assumes "redb_ok R view tview rview" and "create_snapshot_data R d = Ok s"
    and "\<And>T r. T \<in> set snapshot_tables \<Longrightarrow> open_read R T r" and "T \<in> set snapshot_tables"
  shows "map_of (snapshot_rows s T) = view d T" and "distinct (map fst (snapshot_rows s T))"
proof -
  obtain r where r: "read_txn R d = Ok r"
    "snapshot_table R VM_STATE_TABLE key_str r = Ok (sd_vm_states s)"
    "snapshot_table R CLUSTER_STATE_TABLE key_str r = Ok (sd_cluster_state s)"
    "snapshot_table R TASK_TABLE key_str r = Ok (sd_tasks s)"
    "snapshot_table R TASK_ASSIGNMENT_TABLE key_str r = Ok (sd_task_assignments s)"
    "snapshot_table R TASK_RESULT_TABLE key_str r = Ok (sd_task_results s)"
    "snapshot_table R WORKER_TABLE key_bytes r = Ok (sd_workers s)"
    "snapshot_table R WORKER_STATUS_TABLE key_bytes r = Ok (sd_worker_status s)"
    "snapshot_table R IP_POOL_TABLE key_num r = Ok (sd_ip_pools s)"
    "snapshot_table R IP_ALLOCATION_TABLE key_str r = Ok (sd_ip_allocations s)"
    "snapshot_table R VM_IP_MAPPING_TABLE key_str r = Ok (sd_vm_ip_mappings s)"
    using assms(2) unfolding create_snapshot_data_def by auto
  note rows = snapshot_table_rows [OF assms(1) r(1) assms(3)]
  have str: "Str (key_str k) = k" if "key_typed T' k"
    "T' \<in> {VM_STATE_TABLE, CLUSTER_STATE_TABLE, TASK_TABLE, TASK_ASSIGNMENT_TABLE, TASK_RESULT_TABLE,
      IP_ALLOCATION_TABLE, VM_IP_MAPPING_TABLE}" for T' k
    using that by (cases k) auto
  have byt: "Bytes (key_bytes k) = k" if "key_typed T' k" "T' \<in> {WORKER_TABLE, WORKER_STATUS_TABLE}" for T' k
    using that by (cases k) auto
  have num: "Num (key_num k) = k" if "key_typed IP_POOL_TABLE k" for k
    using that by (cases k) auto
  have "map_of (snapshot_rows s T) = view d T \<and> distinct (map fst (snapshot_rows s T))"
    using assms(4) rows [OF _ r(2), of Str] rows [OF _ r(3), of Str] rows [OF _ r(4), of Str]
      rows [OF _ r(5), of Str] rows [OF _ r(6), of Str] rows [OF _ r(7), of Bytes]
      rows [OF _ r(8), of Bytes] rows [OF _ r(9), of Num] rows [OF _ r(10), of Str]
      rows [OF _ r(11), of Str] str byt num
    by - (cases T, simp_all add: snapshot_rows_def snapshot_tables_def)
  then show "map_of (snapshot_rows s T) = view d T" "distinct (map fst (snapshot_rows s T))" by simp_all
qed

lemma apply_snapshot_steps:
  assumes "redb_ok R view tview rview" and "items_succeed R" and "apply_snapshot R Sn snap d = (Ok (), d')"
    and "snap_data snap \<noteq> []" and "dec Sn (snap_data snap) = Some s"
    and "\<And>T. T \<in> set snapshot_tables \<Longrightarrow> distinct (map fst (snapshot_rows s T))"
  shows "view d' =
     (\<lambda>T. if T \<in> set snapshot_tables then map_of (snapshot_rows s T)
          else if T = RAFT_LOG_TABLE
          then (\<lambda>k. if key_num k < snap_index snap then None else view d RAFT_LOG_TABLE k)
          else if T = RAFT_CONF_STATE_TABLE
          then (view d T)(Str ''conf_state'' \<mapsto> serialize_conf_state (snap_conf_state snap))
          else if T = RAFT_HARD_STATE_TABLE
          then (view d T)(Str ''hard_state'' \<mapsto> serialize_hard_state
                 \<lparr>hs_term = snap_term snap, hs_vote = 0, hs_commit = snap_index snap\<rparr>)
          else view d T)"
proof -
  let ?hs = "hard_state_default\<lparr>hs_term := snap_term snap, hs_commit := snap_index snap\<rparr>"
  obtain d1 d2 d3 where d: "save_conf_state R (snap_conf_state snap) d = (Ok (), d1)"
    "save_hard_state R ?hs d1 = (Ok (), d2)"
    "restore_from_snapshot R Sn (snap_data snap) d2 = (Ok (), d3)"
    "compact_log_before R (snap_index snap) d3 = (Ok (), d')"
    using assms(3,4) by (auto simp: apply_snapshot_def db_seq_Ok)
  have hs: "?hs = \<lparr>hs_term = snap_term snap, hs_vote = 0, hs_commit = snap_index snap\<rparr>"
    by (simp add: hard_state_default_def)
  have raft: "RAFT_LOG_TABLE \<notin> set snapshot_tables" "RAFT_CONF_STATE_TABLE \<notin> set snapshot_tables"
    "RAFT_HARD_STATE_TABLE \<notin> set snapshot_tables" by (simp_all add: snapshot_tables_def)
  have d3: "view d3 T = (if T \<in> set snapshot_tables then map_of (snapshot_rows s T) else view d2 T)" for T
    by (rule restore_from_snapshot_view [OF assms(1,2) d(3) assms(5,6)])
  show ?thesis
    by (rule ext) (simp add: compact_log_view [OF assms(1,2) d(4)] d3 raft hs
        save_hard_state_view [OF assms(1) d(2)] save_conf_state_view [OF assms(1) d(1)] cong: if_cong)
qed

section \<open>Quotas\<close>

definition quota_rows :: "('d \<Rightarrow> rows) \<Rightarrow> tenant_quota serde \<Rightarrow> 'd \<Rightarrow> tenant_id \<rightharpoonup> tenant_quota" where
  "quota_rows view Q d t = Option.bind (view d TENANT_QUOTA_TABLE (Str t)) (dec Q)"

text \<open>
  When the store behaves, the serializer round-trips, and every row holds a quota of the tenant in
  its key, the storage keeps the contract of the quota manager.
\<close>

definition quota_table_ok ::
  "('d, 't, 'r) redb \<Rightarrow> ('d \<Rightarrow> rows) \<Rightarrow> ('t \<Rightarrow> rows) \<Rightarrow> ('r \<Rightarrow> rows) \<Rightarrow> tenant_quota serde \<Rightarrow> 'd \<Rightarrow> bool"
  where
  "quota_table_ok R view tview rview Q d \<longleftrightarrow>
     redb_ok R view tview rview \<and> reads_succeed R TENANT_QUOTA_TABLE \<and> serde_ok Q \<and>
     (\<forall>t b. view d TENANT_QUOTA_TABLE (Str t) = Some b \<longrightarrow> (\<exists>q. dec Q b = Some q \<and> q_tenant_id q = t))"

interpretation redb_quotas: quota_store "redb_quota_storage R Q" "quota_rows view Q"
    "quota_table_ok R view tview rview Q" for R view tview rview Q
proof unfold_locales
  fix s q r s' t
  assume ok: "quota_table_ok R view tview rview Q s"
  note R = ok [unfolded quota_table_ok_def, THEN conjunct1]
  show "st_save_tenant_quota (redb_quota_storage R Q) q s = (r, s') \<Longrightarrow>
      quota_table_ok R view tview rview Q s' \<and>
      quota_rows view Q s' = (if r = Ok () then (quota_rows view Q s)(q_tenant_id q \<mapsto> q) else quota_rows view Q s)"
  proof -
    assume "st_save_tenant_quota (redb_quota_storage R Q) q s = (r, s')"
    then have save: "redb_save_tenant_quota R Q q s = (r, s')" by (simp add: redb_quota_storage_def)
    show ?thesis
    proof (cases "r = Ok ()")
      case True
      obtain b where b: "enc Q q = Some b"
        "view s' = (view s)(TENANT_QUOTA_TABLE := (view s TENANT_QUOTA_TABLE)(Str (q_tenant_id q) \<mapsto> b))"
        using save True unfolding redb_save_tenant_quota_def by (auto elim: put_encoded_txn_view [OF R])
      have "dec Q b = Some q" using ok b(1) by (simp add: quota_table_ok_def serde_ok_def)
      then show ?thesis using ok True b(2) by (auto simp: quota_table_ok_def quota_rows_def fun_eq_iff)
    next
      case False
      then have "view s' = view s"
        using save unfolding redb_save_tenant_quota_def by (auto intro: write_txn_failed [OF R])
      then show ?thesis using ok False by (simp add: quota_table_ok_def quota_rows_def fun_eq_iff)
    qed
  qed
  show "st_delete_tenant_quota (redb_quota_storage R Q) t s = (r, s') \<Longrightarrow>
      quota_table_ok R view tview rview Q s' \<and>
      quota_rows view Q s' = (if r = Ok () then (quota_rows view Q s)(t := None) else quota_rows view Q s)"
  proof -
    assume "st_delete_tenant_quota (redb_quota_storage R Q) t s = (r, s')"
    then have del: "redb_delete_tenant_quota R t s = (r, s')" by (simp add: redb_quota_storage_def)
    show ?thesis
    proof (cases "r = Ok ()")
      case True
      have "view s' = (view s)(TENANT_QUOTA_TABLE := (view s TENANT_QUOTA_TABLE)(Str t := None))"
        using del True unfolding redb_delete_tenant_quota_def by (auto intro: remove_txn_view [OF R])
      then show ?thesis using ok True by (auto simp: quota_table_ok_def quota_rows_def fun_eq_iff)
    next
      case False
      then have "view s' = view s"
        using del unfolding redb_delete_tenant_quota_def by (auto intro: write_txn_failed [OF R])
      then show ?thesis using ok False by (simp add: quota_table_ok_def quota_rows_def fun_eq_iff)
    qed
  qed
next
  fix s qs t q
  assume ok: "quota_table_ok R view tview rview Q s"
    and get: "st_get_all_quotas (redb_quota_storage R Q) s = Ok qs"
  note R = ok [unfolded quota_table_ok_def, THEN conjunct1]
  have rd: "reads_succeed R TENANT_QUOTA_TABLE" using ok by (simp add: quota_table_ok_def)
  obtain r xs where r: "read_txn R s = Ok r" "iter_read R TENANT_QUOTA_TABLE r = Some xs"
    "qs = List.map_filter (\<lambda>x. Option.bind x (\<lambda>(k, b). dec Q b)) xs"
    using get rd by (auto simp: redb_quota_storage_def redb_get_all_quotas_def reads_succeed_def)
  have "None \<notin> set xs" using rd r(2) by (simp add: reads_succeed_def)
  then have l: "lists_rows xs (view s TENANT_QUOTA_TABLE)"
    using redb_iter_read [OF R r(2)] read_txn_Ok [OF R r(1)] by simp
  have "q \<in> set qs \<longleftrightarrow> (\<exists>k b. view s TENANT_QUOTA_TABLE k = Some b \<and> dec Q b = Some q)"
    unfolding r(3) using lists_rows_Some [OF l] by (force simp: List.map_filter_def bind_eq_Some_conv)
  moreover have "\<exists>t'. k = Str t'" if "view s TENANT_QUOTA_TABLE k = Some b" for k b
    using redb_typed [OF R, of s TENANT_QUOTA_TABLE k] that by (cases k) auto
  ultimately have "q \<in> set qs \<longleftrightarrow> (\<exists>t. quota_rows view Q s t = Some q)"
    unfolding quota_rows_def bind_eq_Some_conv by metis
  moreover have "q_tenant_id q = t'" if "quota_rows view Q s t' = Some q" for t'
    using ok that by (fastforce simp: quota_table_ok_def quota_rows_def bind_eq_Some_conv)
  ultimately show "quota_rows view Q s t = Some q \<longleftrightarrow> q \<in> set qs \<and> q_tenant_id q = t" by blast
next
  fix s t found
  assume ok: "quota_table_ok R view tview rview Q s"
    and get: "st_get_tenant_quota (redb_quota_storage R Q) t s = Ok found"
  note R = ok [unfolded quota_table_ok_def, THEN conjunct1]
  have rd: "reads_succeed R TENANT_QUOTA_TABLE" using ok by (simp add: quota_table_ok_def)
  show "found = quota_rows view Q s t"
    using get read_row_view [OF R rd] read_txn_Ok [OF R]
    by (auto simp: redb_quota_storage_def redb_get_tenant_quota_def quota_rows_def split: option.splits)
qed

end
