(* ===== verification/Resource_Pool.thy ===== *)
theory Resource_Pool
  imports Prelude "HOL-Library.Multiset"
begin

text \<open>
  The generic resource pool (\<open>patterns/resource_pool.rs\<close>): a semaphore bounds the resources handed
  out, a queue keeps returned ones, a factory creates and destroys them. The factory and the
  resource type are behind traits: the record \<open>factory\<close> holds their operations, the locale
  \<open>resource_factory\<close> what they promise.
\<close>

section \<open>State\<close>

record pool_config =
  max_size :: usize
  min_size :: usize
  acquire_timeout :: time
  validate_on_acquire :: bool
  reset_on_acquire :: bool

definition pool_config_default :: pool_config where
  "pool_config_default =
     \<lparr>max_size = 10, min_size = 0, acquire_timeout = 30 * 1000000000, validate_on_acquire = True,
      reset_on_acquire = False\<rparr>"

text \<open>
  \<open>ResourceFactory\<close> and \<open>PoolableResource\<close>: creating and destroying act on the factory's state
  \<open>'f\<close>, validity and reset on the resource \<open>'r\<close>.
\<close>

record ('r, 'f) factory =
  f_create :: "'f \<Rightarrow> 'r outcome \<times> 'f"
  f_destroy :: "'r \<Rightarrow> 'f \<Rightarrow> unit outcome \<times> 'f"
  r_is_valid :: "'r \<Rightarrow> bool"
  r_reset :: "'r \<Rightarrow> 'r outcome"

text \<open>The semaphore is its number of free permits.\<close>

record 'r resource_pool =
  available :: "'r list"
  permits :: nat
  pool_config :: pool_config
  total_created :: usize

text \<open>
  Waiting for a permit under a timeout ends with the permit, with a closed semaphore or with the
  timeout; which one is the runtime's decision. A permit is only granted when there is one.
\<close>

datatype sem_outcome = Granted | Closed | TimedOut

definition sem_ok :: "(nat \<Rightarrow> sem_outcome) \<Rightarrow> bool" where
  "sem_ok sem \<longleftrightarrow> sem 0 \<noteq> Granted"

text \<open>\<open>Semaphore::MAX_PERMITS\<close>; a larger initial count makes \<open>Semaphore::new\<close> panic.\<close>

definition max_permits :: nat where
  "max_permits = 2 ^ 61 - 1"

section \<open>Operations\<close>

definition pool_new :: "pool_config \<Rightarrow> 'r resource_pool outcome" where
  "pool_new config =
     (if unat (max_size config) > max_permits then Panics
      else Ok \<lparr>available = [], permits = unat (max_size config), pool_config = config,
               total_created = 0\<rparr>)"

text \<open>The creation loop: the resources created, the number of errors and the factory after it.\<close>

fun initialize_loop :: "('r, 'f) factory \<Rightarrow> nat \<Rightarrow> 'f \<Rightarrow> 'r list \<times> nat \<times> 'f" where
  "initialize_loop F 0 f = ([], 0, f)"
| "initialize_loop F (Suc n) f =
     (case f_create F f of
        (Ok r, f) \<Rightarrow> (case initialize_loop F n f of (rs, errors, f) \<Rightarrow> (r # rs, errors, f))
      | (_, f) \<Rightarrow> (case initialize_loop F n f of (rs, errors, f) \<Rightarrow> (rs, Suc errors, f)))"

definition initialize ::
  "('r, 'f) factory \<Rightarrow> 'r resource_pool \<Rightarrow> 'f \<Rightarrow> unit outcome \<times> 'r resource_pool \<times> 'f" where
  "initialize F p f =
     (case initialize_loop F (unat (min_size (pool_config p))) f of
        (rs, errors, f) \<Rightarrow>
          let p = p\<lparr>available := available p @ rs, total_created := of_nat (length rs)\<rparr>
          in if rs = [] \<and> errors > 0
             then (Err (Internal ''Failed to initialize pool''), p, f)
             else (Ok (), p, f))"

text \<open>
  A resource in hand: taken from the front of the queue or newly created. The permit is dropped,
  that is returned, on every early exit and forgotten on success.
\<close>

definition pop_or_create ::
  "('r, 'f) factory \<Rightarrow> 'r resource_pool \<Rightarrow> 'f \<Rightarrow> 'r outcome \<times> 'r resource_pool \<times> 'f" where
  "pop_or_create F p f =
     (case available p of
        r # rs \<Rightarrow> (Ok r, p\<lparr>available := rs\<rparr>, f)
      | [] \<Rightarrow>
          (case f_create F f of
             (Ok r, f) \<Rightarrow> (Ok r, p\<lparr>total_created := total_created p + 1\<rparr>, f)
           | (x, f) \<Rightarrow> (x, p, f)))"

definition revalidate :: "('r, 'f) factory \<Rightarrow> pool_config \<Rightarrow> 'r \<Rightarrow> 'f \<Rightarrow> 'r outcome \<times> 'f" where
  "revalidate F config r f =
     (if validate_on_acquire config \<and> \<not> r_is_valid F r then
        (case f_destroy F r f of
           (Ok _, f) \<Rightarrow> f_create F f
         | (Err e, f) \<Rightarrow> (Err e, f)
         | (Panics, f) \<Rightarrow> (Panics, f)
         | (Blocks, f) \<Rightarrow> (Blocks, f))
      else (Ok r, f))"

definition acquire_with_timeout ::
  "('r, 'f) factory \<Rightarrow> (nat \<Rightarrow> sem_outcome) \<Rightarrow> 'r resource_pool \<Rightarrow> 'f \<Rightarrow>
     'r outcome \<times> 'r resource_pool \<times> 'f" where
  "acquire_with_timeout F sem p f =
     (case sem (permits p) of
        Closed \<Rightarrow> (Err (Internal ''Failed to acquire semaphore permit''), p, f)
      | TimedOut \<Rightarrow> (Err (Timeout ''acquire resource from pool''), p, f)
      | Granted \<Rightarrow>
          (case pop_or_create F p f of
             (Ok r, p, f) \<Rightarrow>
               (case revalidate F (pool_config p) r f of
                  (Ok r, f) \<Rightarrow>
                    (case (if reset_on_acquire (pool_config p) then r_reset F r else Ok r) of
                       Ok r \<Rightarrow> (Ok r, p\<lparr>permits := permits p - 1\<rparr>, f)
                     | x \<Rightarrow> (x, p, f))
                | (x, f) \<Rightarrow> (x, p, f))
           | (x, p, f) \<Rightarrow> (x, p, f)))"

definition return_resource ::
  "('r, 'f) factory \<Rightarrow> 'r \<Rightarrow> 'r resource_pool \<Rightarrow> 'f \<Rightarrow> 'r resource_pool \<times> 'f" where
  "return_resource F r p f =
     (if r_is_valid F r
      then (p\<lparr>available := available p @ [r], permits := permits p + 1\<rparr>, f)
      else (p\<lparr>total_created := total_created p - 1, permits := permits p + 1\<rparr>,
            snd (f_destroy F r f)))"

text \<open>\<open>PooledResource\<close>: a guard that holds the resource until it is taken or dropped.\<close>

definition guard_get :: "'r option \<Rightarrow> 'r outcome" where
  "guard_get g = (case g of Some r \<Rightarrow> Ok r | None \<Rightarrow> Err ResourceUnavailable)"

definition guard_take :: "'r option \<Rightarrow> 'r outcome" where
  "guard_take g = (case g of Some r \<Rightarrow> Ok r | None \<Rightarrow> Err ResourceUnavailable)"

definition guard_drop ::
  "('r, 'f) factory \<Rightarrow> 'r option \<Rightarrow> 'r resource_pool \<Rightarrow> 'f \<Rightarrow> 'r resource_pool \<times> 'f" where
  "guard_drop F g p f = (case g of Some r \<Rightarrow> return_resource F r p f | None \<Rightarrow> (p, f))"

record pool_stats =
  ps_available :: usize
  ps_in_use :: usize
  ps_total_created :: usize
  ps_max_size :: usize

definition pool_stats_of :: "'r resource_pool \<Rightarrow> pool_stats" where
  "pool_stats_of p =
     (let available_count = of_nat (length (available p))
      in \<lparr>ps_available = available_count,
          ps_in_use = saturating_sub (total_created p) available_count,
          ps_total_created = total_created p, ps_max_size = max_size (pool_config p)\<rparr>)"

fun destroy_all :: "('r, 'f) factory \<Rightarrow> 'r list \<Rightarrow> 'f \<Rightarrow> unit outcome \<times> 'f" where
  "destroy_all F [] f = (Ok (), f)"
| "destroy_all F (r # rs) f =
     (case f_destroy F r f of (Ok _, f) \<Rightarrow> destroy_all F rs f | (x, f) \<Rightarrow> (x, f))"

definition pool_clear ::
  "('r, 'f) factory \<Rightarrow> 'r resource_pool \<Rightarrow> 'f \<Rightarrow> unit outcome \<times> 'r resource_pool \<times> 'f" where
  "pool_clear F p f =
     (let resources = available p; p = p\<lparr>available := []\<rparr>
      in case destroy_all F resources f of
           (Ok _, f) \<Rightarrow> (Ok (), p\<lparr>total_created := 0\<rparr>, f)
         | (x, f) \<Rightarrow> (x, p, f))"

section \<open>A pool in use\<close>

text \<open>
  The pool, its factory, the resources held by guards and those taken out for good. A step
  acquires, drops a guard, or takes its resource.
\<close>

record ('r, 'f) pool_system =
  sys_pool :: "'r resource_pool"
  sys_factory :: 'f
  held :: "'r list"
  taken :: "'r list"

datatype pool_event = Acquire "nat \<Rightarrow> sem_outcome" | DropGuard nat | TakeGuard nat

definition remove_nth :: "nat \<Rightarrow> 'a list \<Rightarrow> 'a list" where
  "remove_nth i xs = take i xs @ drop (Suc i) xs"

fun pool_step :: "('r, 'f) factory \<Rightarrow> ('r, 'f) pool_system \<Rightarrow> pool_event \<Rightarrow> ('r, 'f) pool_system" where
  "pool_step F s (Acquire sem) =
     (case acquire_with_timeout F sem (sys_pool s) (sys_factory s) of
        (Ok r, p, f) \<Rightarrow> s\<lparr>sys_pool := p, sys_factory := f, held := held s @ [r]\<rparr>
      | (_, p, f) \<Rightarrow> s\<lparr>sys_pool := p, sys_factory := f\<rparr>)"
| "pool_step F s (DropGuard i) =
     (case guard_drop F (Some (held s ! i)) (sys_pool s) (sys_factory s) of
        (p, f) \<Rightarrow> s\<lparr>sys_pool := p, sys_factory := f, held := remove_nth i (held s)\<rparr>)"
| "pool_step F s (TakeGuard i) =
     s\<lparr>held := remove_nth i (held s), taken := held s ! i # taken s\<rparr>"

fun pool_enabled :: "('r, 'f) pool_system \<Rightarrow> pool_event \<Rightarrow> bool" where
  "pool_enabled s (Acquire sem) \<longleftrightarrow> sem_ok sem"
| "pool_enabled s (DropGuard i) \<longleftrightarrow> i < length (held s)"
| "pool_enabled s (TakeGuard i) \<longleftrightarrow> i < length (held s)"

definition pool_system_new :: "'r resource_pool \<Rightarrow> 'f \<Rightarrow> ('r, 'f) pool_system" where
  "pool_system_new p f = \<lparr>sys_pool = p, sys_factory = f, held = [], taken = []\<rparr>"

text \<open>Every permit is free or accounted for by a resource outside the pool.\<close>

definition permits_balanced :: "nat \<Rightarrow> ('r, 'f) pool_system \<Rightarrow> bool" where
  "permits_balanced n s \<longleftrightarrow> permits (sys_pool s) + length (held s) + length (taken s) = n"

section \<open>Permits\<close>

lemma length_remove_nth: "i < length xs \<Longrightarrow> length (remove_nth i xs) = length xs - 1"
  by (simp add: remove_nth_def)

lemma pop_or_create_frame:
  assumes "pop_or_create F p f = (x, p', f')"
  shows "permits p' = permits p" and "pool_config p' = pool_config p"
  using assms
  by (auto simp: pop_or_create_def split: list.splits prod.splits outcome.splits)

text \<open>What a call of \<open>acquire\<close> does to the permits: one is used up exactly when it succeeds.\<close>

lemma acquire_permits:
  assumes "acquire_with_timeout F sem p f = (x, p', f')" and "sem_ok sem"
  shows "permits p' = (if is_ok x then permits p - 1 else permits p)"
    and "is_ok x \<Longrightarrow> 0 < permits p" and "pool_config p' = pool_config p"
proof -
  have g: "0 < permits p" if "sem (permits p) = Granted"
    using that assms(2) by (cases "permits p") (auto simp: sem_ok_def)
  show "permits p' = (if is_ok x then permits p - 1 else permits p)"
    and "is_ok x \<Longrightarrow> 0 < permits p" and "pool_config p' = pool_config p"
    using assms(1) g
    by (auto simp: acquire_with_timeout_def is_ok_iff dest: pop_or_create_frame
        split: sem_outcome.splits prod.splits outcome.splits if_splits)
qed

lemma return_permits: "return_resource F r p f = (p', f') \<Longrightarrow> permits p' = permits p + 1"
  by (auto simp: return_resource_def split: if_splits)

lemma pool_step_balanced:
  assumes "permits_balanced n s" and "pool_enabled s e"
  shows "permits_balanced n (pool_step F s e)"
proof (cases e)
  case (Acquire sem)
  obtain x p f where a: "acquire_with_timeout F sem (sys_pool s) (sys_factory s) = (x, p, f)"
    by (cases "acquire_with_timeout F sem (sys_pool s) (sys_factory s)") auto
  show ?thesis
    using acquire_permits [OF a] assms Acquire a
    by (cases x) (auto simp: permits_balanced_def is_ok_iff)
next
  case (DropGuard i)
  then show ?thesis
    using assms return_permits [of F "held s ! i" "sys_pool s" "sys_factory s"]
    by (cases "held s") (auto simp: permits_balanced_def guard_drop_def length_remove_nth split: prod.split)
next
  case (TakeGuard i)
  then show ?thesis
    using assms by (auto simp: permits_balanced_def length_remove_nth)
qed

interpretation pool: event_machine "pool_step F" pool_enabled "permits_balanced n" for F n
  by unfold_locales (rule pool_step_balanced)

section \<open>The factory's contract\<close>

text \<open>
  What the pool relies on: the factory knows the keys that are live, a new resource has a fresh key,
  and only destroying a resource retires its key.
\<close>

definition keys_ok :: "'k list \<Rightarrow> 'k set \<Rightarrow> bool" where
  "keys_ok ks live \<longleftrightarrow> distinct ks \<and> set ks \<subseteq> live"

definition system_keys :: "('r \<Rightarrow> 'k) \<Rightarrow> ('r, 'f) pool_system \<Rightarrow> 'k list" where
  "system_keys key s = map key (available (sys_pool s)) @ map key (held s) @ map key (taken s)"

definition system_unique :: "('r \<Rightarrow> 'k) \<Rightarrow> ('f \<Rightarrow> 'k set) \<Rightarrow> ('r, 'f) pool_system \<Rightarrow> bool" where
  "system_unique key live s \<longleftrightarrow> keys_ok (system_keys key s) (live (sys_factory s))"

lemma keys_ok_tl: "keys_ok (k # ks) l \<Longrightarrow> keys_ok ks l"
  by (simp add: keys_ok_def)

locale resource_factory =
  fixes F :: "('r, 'f) factory"
    and key :: "'r \<Rightarrow> 'k"
    and live :: "'f \<Rightarrow> 'k set"
  assumes create_ok: "f_create F f = (Ok r, f') \<Longrightarrow> key r \<notin> live f \<and> live f' = insert (key r) (live f)"
    and create_fail: "f_create F f = (x, f') \<Longrightarrow> \<not> is_ok x \<Longrightarrow> live f' = live f"
    and destroy_live: "f_destroy F r f = (d, f') \<Longrightarrow> live f - {key r} \<subseteq> live f'"
    and reset_key: "r_reset F r = Ok r' \<Longrightarrow> key r' = key r"
begin

lemma create_keys:
  assumes "f_create F f = (x, f')" and "keys_ok ks (live f)"
  shows "keys_ok ks (live f')" and "x = Ok r \<Longrightarrow> keys_ok (key r # ks) (live f')"
proof -
  show "keys_ok ks (live f')"
    using assms create_ok [of f _ f'] create_fail [of f x f'] by (cases x) (auto simp: keys_ok_def)
  show "x = Ok r \<Longrightarrow> keys_ok (key r # ks) (live f')"
    using assms create_ok [of f r f'] by (auto simp: keys_ok_def)
qed

lemma destroy_keys:
  "f_destroy F r f = (x, f') \<Longrightarrow> keys_ok (key r # ks) (live f) \<Longrightarrow> keys_ok ks (live f')"
  using destroy_live [of r f x f'] by (auto simp: keys_ok_def)

lemma pop_or_create_keys:
  assumes "pop_or_create F p f = (x, p', f')" and "keys_ok (map key (available p) @ ks) (live f)"
  shows "keys_ok (map key (available p') @ ks) (live f')"
    and "x = Ok r \<Longrightarrow> keys_ok (key r # map key (available p') @ ks) (live f')"
proof -
  have "keys_ok (map key (available p') @ ks) (live f') \<and>
      (x = Ok r \<longrightarrow> keys_ok (key r # map key (available p') @ ks) (live f'))"
  proof (cases "available p")
    case Nil
    obtain y g where c: "f_create F f = (y, g)" by force
    show ?thesis
      using assms Nil c create_keys [OF c, of ks]
      by (cases y) (auto simp: pop_or_create_def)
  next
    case (Cons a as)
    then show ?thesis using assms by (auto simp: pop_or_create_def dest: keys_ok_tl)
  qed
  then show "keys_ok (map key (available p') @ ks) (live f')"
    and "x = Ok r \<Longrightarrow> keys_ok (key r # map key (available p') @ ks) (live f')" by auto
qed

lemma revalidate_keys:
  assumes "revalidate F config r f = (x, f')" and "keys_ok (key r # ks) (live f)"
  shows "keys_ok ks (live f')" and "x = Ok r' \<Longrightarrow> keys_ok (key r' # ks) (live f')"
proof -
  have "keys_ok ks (live f') \<and> (x = Ok r' \<longrightarrow> keys_ok (key r' # ks) (live f'))"
  proof (cases "validate_on_acquire config \<and> \<not> r_is_valid F r")
    case True
    obtain y g where d: "f_destroy F r f = (y, g)" by force
    have g: "keys_ok ks (live g)" using destroy_keys [OF d assms(2)] .
    show ?thesis
      using assms(1) True d g create_keys [of g x f' ks]
      by (cases y) (auto simp: revalidate_def)
  qed (use assms in \<open>auto simp: revalidate_def keys_ok_def\<close>)
  then show "keys_ok ks (live f')" and "x = Ok r' \<Longrightarrow> keys_ok (key r' # ks) (live f')" by auto
qed

lemma acquire_keys:
  assumes "acquire_with_timeout F sem p f = (x, p', f')"
    and "keys_ok (map key (available p) @ ks) (live f)"
  shows "keys_ok (map key (available p') @ ks) (live f')"
    and "x = Ok r \<Longrightarrow> keys_ok (key r # map key (available p') @ ks) (live f')"
proof -
  have "keys_ok (map key (available p') @ ks) (live f') \<and>
      (x = Ok r \<longrightarrow> keys_ok (key r # map key (available p') @ ks) (live f'))"
  proof (cases "sem (permits p)")
    case Granted
    obtain y p1 f1 where pc: "pop_or_create F p f = (y, p1, f1)" by (rule prod_cases3)
    note k1 = pop_or_create_keys [OF pc assms(2)]
    show ?thesis
    proof (cases y)
      case (Ok a)
      obtain z f2 where rv: "revalidate F (pool_config p1) a f1 = (z, f2)" by force
      note k2 = revalidate_keys [OF rv k1(2) [OF Ok]]
      show ?thesis
      proof (cases z)
        case (Ok b)
        then show ?thesis
          using assms(1) Granted pc \<open>y = Ok a\<close> rv k2(1) k2(2) [OF Ok] reset_key [of b]
          by (auto simp: acquire_with_timeout_def split: outcome.splits if_splits)
      qed (use assms(1) Granted pc \<open>y = Ok a\<close> rv k2(1) in \<open>auto simp: acquire_with_timeout_def\<close>)
    qed (use assms(1) Granted pc k1(1) in \<open>auto simp: acquire_with_timeout_def\<close>)
  qed (use assms in \<open>auto simp: acquire_with_timeout_def\<close>)
  then show "keys_ok (map key (available p') @ ks) (live f')"
    and "x = Ok r \<Longrightarrow> keys_ok (key r # map key (available p') @ ks) (live f')" by auto
qed

lemma remove_nth_split: "i < length xs \<Longrightarrow> mset xs = add_mset (xs ! i) (mset (remove_nth i xs))"
  by (metis Cons_nth_drop_Suc id_take_nth_drop mset.simps(2) mset_append remove_nth_def
      union_mset_add_mset_right)

lemma keys_ok_mset: "mset ks = mset ks' \<Longrightarrow> keys_ok ks l \<longleftrightarrow> keys_ok ks' l"
  unfolding keys_ok_def by (metis mset_eq_imp_distinct_iff mset_eq_setD)

lemma pool_step_unique:
  assumes "system_unique key live s" and "pool_enabled s e"
  shows "system_unique key live (pool_step F s e)"
proof (cases e)
  case (Acquire sem)
  obtain x p f where a: "acquire_with_timeout F sem (sys_pool s) (sys_factory s) = (x, p, f)"
    by (rule prod_cases3)
  let ?ks = "map key (held s) @ map key (taken s)"
  note k = acquire_keys [OF a, of ?ks]
  show ?thesis
  proof (cases x)
    case (Ok r)
    have "keys_ok (key r # map key (available p) @ ?ks) (live f)"
      using k(2) [OF _ Ok] assms(1) by (simp add: system_unique_def system_keys_def)
    then have "keys_ok (map key (available p) @ map key (held s @ [r]) @ map key (taken s)) (live f)"
      by (subst keys_ok_mset) simp_all
    then show ?thesis using a Ok Acquire by (simp add: system_unique_def system_keys_def)
  qed (use k(1) assms(1) a Acquire in \<open>simp_all add: system_unique_def system_keys_def\<close>)
next
  case (DropGuard i)
  let ?r = "held s ! i" and ?h = "remove_nth i (held s)"
  have i: "i < length (held s)" using assms(2) DropGuard by simp
  let ?rest = "map key (available (sys_pool s)) @ map key ?h @ map key (taken s)"
  have "mset (system_keys key s) = mset (key ?r # ?rest)"
    using remove_nth_split [OF i] by (simp add: system_keys_def)
  then have k: "keys_ok (key ?r # ?rest) (live (sys_factory s))"
    using assms(1) keys_ok_mset unfolding system_unique_def by blast
  obtain p f where rr: "return_resource F ?r (sys_pool s) (sys_factory s) = (p, f)" by force
  have "keys_ok (map key (available p) @ map key ?h @ map key (taken s)) (live f)"
  proof (cases "r_is_valid F ?r")
    case True
    then show ?thesis
      using rr k by (subst keys_ok_mset [of _ "key ?r # ?rest"]) (auto simp: return_resource_def)
  next
    case False
    obtain y g where d: "f_destroy F ?r (sys_factory s) = (y, g)" by force
    show ?thesis using rr False d destroy_keys [OF d k] by (auto simp: return_resource_def)
  qed
  then show ?thesis
    using DropGuard rr by (simp add: guard_drop_def system_unique_def system_keys_def)
next
  case (TakeGuard i)
  have i: "i < length (held s)" using assms(2) TakeGuard by simp
  have "mset (system_keys key (pool_step F s e)) = mset (system_keys key s)"
    using remove_nth_split [OF i] TakeGuard by (simp add: system_keys_def)
  then show ?thesis
    using assms(1) keys_ok_mset TakeGuard unfolding system_unique_def by fastforce
qed

end

sublocale resource_factory \<subseteq> unique: event_machine "pool_step F" pool_enabled "system_unique key live"
  by unfold_locales (rule pool_step_unique)

section \<open>Properties of the pool\<close>

lemma pool_new_balanced:
  "pool_new config = Ok p \<Longrightarrow> permits_balanced (unat (max_size config)) (pool_system_new p f)"
  by (auto simp: pool_new_def permits_balanced_def pool_system_new_def split: if_splits)

text \<open>
  C23. The pool never overcommits, and taking leaks: in every state reached from a new pool by
  acquiring, dropping guards and taking resources out of guards, the free permits, the guarded and
  the taken resources add up to \<open>max_size\<close>; and since a taken resource never gives its permit
  back, once \<open>max_size\<close> resources have been taken no acquisition succeeds any more.
\<close>

theorem pool_permits_conserved:
  assumes "pool_new config = Ok p" and "reach (pool_step F) pool_enabled (pool_system_new p f) s"
  shows "permits (sys_pool s) + length (held s) + length (taken s) = unat (max_size config) \<and>
         (length (taken s) = unat (max_size config) \<and> sem_ok sem \<longrightarrow>
          \<not> is_ok (fst (acquire_with_timeout F sem (sys_pool s) (sys_factory s))))"
proof -
  have bal: "permits_balanced (unat (max_size config)) s"
    using pool.reach_inv [OF assms(2)] pool_new_balanced [OF assms(1)] .
  moreover have "\<not> is_ok (fst (acquire_with_timeout F sem (sys_pool s) (sys_factory s)))"
    if "length (taken s) = unat (max_size config)" and "sem_ok sem"
  proof -
    obtain x p' f' where a: "acquire_with_timeout F sem (sys_pool s) (sys_factory s) = (x, p', f')"
      by (rule prod_cases3)
    have "permits (sys_pool s) = 0" using bal that(1) by (simp add: permits_balanced_def)
    then show ?thesis using acquire_permits(2) [OF a that(2)] a by auto
  qed
  ultimately show ?thesis by (auto simp: permits_balanced_def)
qed

theorem pool_permits_conserved_witness:
  "permits (sys_pool (pool_step
      \<lparr>f_create = (\<lambda>n. (Ok n, Suc n)), f_destroy = (\<lambda>_ n. (Ok (), n)), r_is_valid = (\<lambda>_. True),
       r_reset = Ok\<rparr>
      (pool_system_new \<lparr>available = [], permits = 10, pool_config = pool_config_default,
         total_created = 0\<rparr> (0 :: nat))
      (Acquire (\<lambda>n. if n = 0 then TimedOut else Granted)))) + 1 = 10"
proof -
  let ?F = "\<lparr>f_create = (\<lambda>n. (Ok n, Suc n)), f_destroy = (\<lambda>_ n. (Ok (), n)),
             r_is_valid = (\<lambda>_. True), r_reset = Ok\<rparr>"
  let ?p = "\<lparr>available = [], permits = 10, pool_config = pool_config_default, total_created = 0\<rparr>"
  let ?s = "pool_step ?F (pool_system_new ?p 0) (Acquire (\<lambda>n. if n = 0 then TimedOut else Granted))"
  have "pool_new pool_config_default = Ok ?p"
    by (simp add: pool_new_def pool_config_default_def max_permits_def)
  moreover have "reach (pool_step ?F) pool_enabled (pool_system_new ?p 0) ?s"
    by (rule reach_step [OF reach_refl]) (simp add: sem_ok_def)
  moreover have "length (held ?s) = 1" "length (taken ?s) = 0"
    by (simp_all add: pool_system_new_def acquire_with_timeout_def pop_or_create_def revalidate_def
        pool_config_default_def)
  ultimately show ?thesis
    using pool_permits_conserved [of pool_config_default ?p ?F 0 ?s]
    by (simp add: pool_config_default_def)
qed

end
