(* ===== verification/Ip_Pool.thy ===== *)
theory Ip_Pool
  imports Resource_Pool Vm_Types
begin

text \<open>
  IP address pools (\<open>ip_pool.rs\<close>): pool configurations and their validation, the address factory
  that scans a pool's range, and the pool state over a resource pool. An \<open>IpNet\<close> is seen through
  its membership test; a \<open>BTreeSet\<close> is a set, iterated in increasing order.
\<close>

section \<open>Addresses\<close>

datatype ip_addr = V4 u32 | V6 u128

text \<open>The derived order: IPv4 before IPv6, then numerically.\<close>

instantiation ip_addr :: linorder
begin

definition less_eq_ip_addr :: "ip_addr \<Rightarrow> ip_addr \<Rightarrow> bool" where
  "less_eq_ip_addr x y \<longleftrightarrow>
     (case (x, y) of (V4 a, V4 b) \<Rightarrow> a \<le> b | (V6 a, V6 b) \<Rightarrow> a \<le> b | (V4 _, V6 _) \<Rightarrow> True
                   | (V6 _, V4 _) \<Rightarrow> False)"

definition less_ip_addr :: "ip_addr \<Rightarrow> ip_addr \<Rightarrow> bool" where
  "less_ip_addr x y \<longleftrightarrow>
     (case (x, y) of (V4 a, V4 b) \<Rightarrow> a < b | (V6 a, V6 b) \<Rightarrow> a < b | (V4 _, V6 _) \<Rightarrow> True
                   | (V6 _, V4 _) \<Rightarrow> False)"

instance
  by standard (auto simp: less_eq_ip_addr_def less_ip_addr_def split: ip_addr.splits)

end

section \<open>Configuration\<close>

type_synonym ip_pool_id = u64

definition ip_pool_id_display :: "ip_pool_id \<Rightarrow> string" where
  "ip_pool_id_display i = ''pool-'' @ show_nat (unat i)"

record ip_address =
  addr_ip :: ip_addr
  addr_pool_id :: ip_pool_id
  addr_is_valid :: bool

record ip_pool_config =
  pool_id :: ip_pool_id
  pool_name :: string
  subnet :: "ip_addr \<Rightarrow> bool"
  vlan_id :: "u16 option"
  gateway :: ip_addr
  dns_servers :: "ip_addr list"
  allocation_start :: ip_addr
  allocation_end :: ip_addr
  topology_hint :: "string option"
  reserved_ips :: "ip_addr set"
  pool_enabled_flag :: bool
  pool_tags :: "string \<rightharpoonup> string"

definition ip_pool_validate :: "ip_pool_config \<Rightarrow> unit outcome" where
  "ip_pool_validate c =
     (if \<not> subnet c (gateway c) then Err (ConfigurationError ''ip_pool.gateway'')
      else if \<not> subnet c (allocation_start c)
      then Err (ConfigurationError ''ip_pool.allocation_start'')
      else if \<not> subnet c (allocation_end c)
      then Err (ConfigurationError ''ip_pool.allocation_end'')
      else if (case (allocation_start c, allocation_end c) of
                 (V4 s, V4 e) \<Rightarrow> s > e
               | (V6 s, V6 e) \<Rightarrow> s > e
               | _ \<Rightarrow> True)
      then Err (ConfigurationError ''ip_pool.allocation_range'')
      else if \<exists>ip \<in> reserved_ips c. \<not> subnet c ip
      then Err (ConfigurationError ''ip_pool.reserved_ips'')
      else
        case vlan_id c of
          None \<Rightarrow> Ok ()
        | Some vlan \<Rightarrow>
            if vlan = 0 \<or> vlan > 4094 then Err (ConfigurationError ''ip_pool.vlan_id'') else Ok ())"

text \<open>All subtractions and additions wrap at their width.\<close>

definition total_capacity :: "ip_pool_config \<Rightarrow> u64" where
  "total_capacity c =
     (case (allocation_start c, allocation_end c) of
        (V4 s, V4 e) \<Rightarrow> ucast (e - s + 1) - of_nat (card (reserved_ips c))
      | (V6 s, V6 e) \<Rightarrow> ucast (min (e - s + 1) (2 ^ 64 - 1)) - of_nat (card (reserved_ips c))
      | _ \<Rightarrow> 0)"

section \<open>The address factory\<close>

text \<open>The set of allocated addresses is shared with the pool state; its lock may be poisoned.\<close>

record ip_factory =
  fac_config :: ip_pool_config
  fac_allocated :: "ip_addr set"
  fac_poisoned :: bool

definition ip_free :: "ip_pool_config \<Rightarrow> ip_addr set \<Rightarrow> ip_addr \<Rightarrow> bool" where
  "ip_free c allocated ip \<longleftrightarrow>
     ip \<notin> allocated \<and> ip \<notin> reserved_ips c \<and> subnet c ip \<and> ip \<noteq> gateway c"

text \<open>The addresses scanned, in order: the whole range for IPv4, at most 10000 for IPv6.\<close>

definition scan_range :: "ip_pool_config \<Rightarrow> ip_addr list" where
  "scan_range c =
     (case (allocation_start c, allocation_end c) of
        (V4 s, V4 e) \<Rightarrow> map (\<lambda>i. V4 (of_nat i)) [unat s..<Suc (unat e)]
      | (V6 s, V6 e) \<Rightarrow> map (\<lambda>i. V6 (s + of_nat i)) [0..<unat (min 10000 (e - s + 1))]
      | _ \<Rightarrow> [])"

definition find_next_available_ip :: "ip_factory \<Rightarrow> ip_addr option outcome" where
  "find_next_available_ip f =
     (if fac_poisoned f then Err (LockPoisoned ''read allocated IPs'')
      else Ok (List.find (ip_free (fac_config f) (fac_allocated f)) (scan_range (fac_config f))))"

definition ip_factory_create :: "ip_factory \<Rightarrow> ip_address outcome \<times> ip_factory" where
  "ip_factory_create f =
     (case find_next_available_ip f of
        Ok None \<Rightarrow>
          (Err (ResourceExhausted
             (''IP addresses in pool '' @ ip_pool_id_display (pool_id (fac_config f)))), f)
      | Ok (Some ip) \<Rightarrow>
          if fac_poisoned f then (Err (LockPoisoned ''write lock for allocate IP address''), f)
          else (Ok \<lparr>addr_ip = ip, addr_pool_id = pool_id (fac_config f), addr_is_valid = True\<rparr>,
                f\<lparr>fac_allocated := insert ip (fac_allocated f)\<rparr>)
      | Err e \<Rightarrow> (Err e, f)
      | Panics \<Rightarrow> (Panics, f)
      | Blocks \<Rightarrow> (Blocks, f))"

definition ip_factory_destroy :: "ip_address \<Rightarrow> ip_factory \<Rightarrow> unit outcome \<times> ip_factory" where
  "ip_factory_destroy r f =
     (if fac_poisoned f then (Err (LockPoisoned ''write lock for deallocate IP address''), f)
      else (Ok (), f\<lparr>fac_allocated := fac_allocated f - {addr_ip r}\<rparr>))"

definition ip_address_reset :: "ip_address \<Rightarrow> ip_address outcome" where
  "ip_address_reset r = Ok (r\<lparr>addr_is_valid := True\<rparr>)"

definition ip_address_factory :: "(ip_address, ip_factory) factory" where
  "ip_address_factory =
     \<lparr>f_create = ip_factory_create, f_destroy = ip_factory_destroy, r_is_valid = addr_is_valid,
      r_reset = ip_address_reset\<rparr>"

section \<open>Pool state\<close>

record ip_allocation =
  al_ip :: ip_addr
  al_pool_id :: ip_pool_id
  al_vm_id :: vm_id
  al_mac_address :: string
  al_allocated_at :: i64
  al_expires_at :: "i64 option"

datatype ip_pool_command =
    CreatePool ip_pool_config
  | UpdatePool ip_pool_config
  | DeletePool ip_pool_id
  | SetPoolEnabled ip_pool_id bool
  | ReserveIps ip_pool_id "ip_addr set"
  | ReleaseReservedIps ip_pool_id "ip_addr set"

record ip_pool_state =
  st_config :: ip_pool_config
  st_allocated_ips :: "ip_addr set"
  st_total_allocated :: u64
  st_last_allocation :: "i64 option"

definition ip_pool_state_new :: "ip_pool_config \<Rightarrow> ip_pool_state" where
  "ip_pool_state_new c =
     \<lparr>st_config = c, st_allocated_ips = {}, st_total_allocated = 0, st_last_allocation = None\<rparr>"

definition is_available :: "ip_pool_state \<Rightarrow> ip_addr \<Rightarrow> bool" where
  "is_available s ip = ip_free (st_config s) (st_allocated_ips s) ip"

definition next_available_ip :: "ip_pool_state \<Rightarrow> ip_addr option" where
  "next_available_ip s = List.find (is_available s) (scan_range (st_config s))"

definition state_has_capacity :: "ip_pool_state \<Rightarrow> bool" where
  "state_has_capacity s \<longleftrightarrow> pool_enabled_flag (st_config s) \<and> next_available_ip s \<noteq> None"

definition state_utilization_percent :: "(real \<Rightarrow> real) \<Rightarrow> ip_pool_state \<Rightarrow> real" where
  "state_utilization_percent rnd s =
     (let total = total_capacity (st_config s) in
      if total = 0 then 100
      else rnd (rnd (rnd (of_nat (card (st_allocated_ips s))) / rnd (of_nat (unat total))) * 100))"

section \<open>Pool state over a resource pool\<close>

text \<open>
  \<open>EnhancedIpPoolState\<close>. The factory owns a copy of the configuration made at creation and the
  shared set of allocated addresses.
\<close>

record enhanced_ip_pool =
  pool_state :: ip_pool_state
  resource_pool :: "ip_address resource_pool option"
  pool_factory :: ip_factory

definition ip_resource_pool_config :: "ip_pool_config \<Rightarrow> pool_config" where
  "ip_resource_pool_config c =
     \<lparr>max_size = total_capacity c, min_size = 0, acquire_timeout = 30 * 1000000000,
      validate_on_acquire = True, reset_on_acquire = False\<rparr>"

definition from_existing_state :: "ip_pool_state \<Rightarrow> enhanced_ip_pool outcome" where
  "from_existing_state s =
     (case pool_new (ip_resource_pool_config (st_config s)) of
        Ok p \<Rightarrow>
          let f = \<lparr>fac_config = st_config s, fac_allocated = st_allocated_ips s,
                   fac_poisoned = False\<rparr>
          in (case initialize ip_address_factory p f of
                (Ok _, p, f) \<Rightarrow> Ok \<lparr>pool_state = s, resource_pool = Some p, pool_factory = f\<rparr>
              | (Err e, _) \<Rightarrow> Err e
              | (Panics, _) \<Rightarrow> Panics
              | (Blocks, _) \<Rightarrow> Blocks)
      | Err e \<Rightarrow> Err e
      | Panics \<Rightarrow> Panics
      | Blocks \<Rightarrow> Blocks)"

definition enhanced_new :: "ip_pool_config \<Rightarrow> enhanced_ip_pool outcome" where
  "enhanced_new c = from_existing_state (ip_pool_state_new c)"

definition enhanced_allocate_ip ::
  "(nat \<Rightarrow> sem_outcome) \<Rightarrow> u64 \<Rightarrow> enhanced_ip_pool \<Rightarrow> ip_address outcome \<times> enhanced_ip_pool" where
  "enhanced_allocate_ip sem now_secs e =
     (case resource_pool e of
        None \<Rightarrow> (Err (Internal ''Resource pool not initialized''), e)
      | Some p \<Rightarrow>
          (case acquire_with_timeout ip_address_factory sem p (pool_factory e) of
             (x, p, f) \<Rightarrow>
               let e = e\<lparr>resource_pool := Some p, pool_factory := f\<rparr> in
               case obind x (\<lambda>r. guard_take (Some r)) of
                 Ok r \<Rightarrow>
                   (Ok r, e\<lparr>pool_state := (pool_state e)
                     \<lparr>st_allocated_ips := insert (addr_ip r) (st_allocated_ips (pool_state e)),
                      st_total_allocated := st_total_allocated (pool_state e) + 1,
                      st_last_allocation := Some now_secs\<rparr>\<rparr>)
               | y \<Rightarrow> (y, e)))"

definition enhanced_release_ip ::
  "ip_addr \<Rightarrow> enhanced_ip_pool \<Rightarrow> unit outcome \<times> enhanced_ip_pool" where
  "enhanced_release_ip ip e =
     (let s = pool_state e;
          s = (if ip \<in> st_allocated_ips s
               then s\<lparr>st_allocated_ips := st_allocated_ips s - {ip},
                      st_total_allocated := saturating_sub (st_total_allocated s) 1\<rparr>
               else s);
          e = e\<lparr>pool_state := s\<rparr>
      in if fac_poisoned (pool_factory e)
         then (Err (LockPoisoned ''write lock for remove allocated IP from shared state''), e)
         else (Ok (), e\<lparr>pool_factory := (pool_factory e)
                \<lparr>fac_allocated := fac_allocated (pool_factory e) - {ip}\<rparr>\<rparr>))"

definition enhanced_has_capacity :: "enhanced_ip_pool \<Rightarrow> bool" where
  "enhanced_has_capacity e =
     (if \<not> pool_enabled_flag (st_config (pool_state e)) then False
      else
        case resource_pool e of
          Some p \<Rightarrow> ps_in_use (pool_stats_of p) < ps_max_size (pool_stats_of p)
        | None \<Rightarrow> state_has_capacity (pool_state e))"

definition enhanced_utilization_percent :: "(real \<Rightarrow> real) \<Rightarrow> enhanced_ip_pool \<Rightarrow> real" where
  "enhanced_utilization_percent rnd e =
     (case resource_pool e of
        Some p \<Rightarrow>
          let stats = pool_stats_of p in
          if ps_max_size stats = 0 then 100
          else rnd (rnd (rnd (of_nat (unat (ps_in_use stats))) /
                         rnd (of_nat (unat (ps_max_size stats)))) * 100)
      | None \<Rightarrow> state_utilization_percent rnd (pool_state e))"

definition enhanced_pool_stats :: "enhanced_ip_pool \<Rightarrow> pool_stats option" where
  "enhanced_pool_stats e = map_option pool_stats_of (resource_pool e)"

definition sync_state :: "enhanced_ip_pool \<Rightarrow> enhanced_ip_pool" where
  "sync_state e =
     (case resource_pool e of
        None \<Rightarrow> e
      | Some _ \<Rightarrow>
          if fac_poisoned (pool_factory e) then e
          else e\<lparr>pool_state := (pool_state e)
                 \<lparr>st_allocated_ips := fac_allocated (pool_factory e),
                  st_total_allocated := of_nat (card (fac_allocated (pool_factory e)))\<rparr>\<rparr>)"

section \<open>Requests and results\<close>

datatype ip_pool_selection_strategy =
  LeastUtilized | MostUtilized | RoundRobin | TopologyAware | Random

record ip_allocation_request =
  ar_vm_id :: vm_id
  ar_preferred_pool :: "ip_pool_id option"
  ar_required_tags :: "(string \<times> string) list"
  ar_topology_hint :: "string option"
  ar_selection_strategy :: ip_pool_selection_strategy
  ar_mac_address :: string

record network_config =
  nc_ip_address :: ip_addr
  nc_subnet :: "ip_addr \<Rightarrow> bool"
  nc_gateway :: ip_addr
  nc_dns_servers :: "ip_addr list"
  nc_vlan_id :: "u16 option"
  nc_mac_address :: string

record ip_allocation_result =
  res_allocation :: ip_allocation
  res_network_config :: network_config

section \<open>The scanned range\<close>

lemma le_ip_simps [simp]:
  "V4 a \<le> V4 b \<longleftrightarrow> a \<le> b" "V6 c \<le> V6 d \<longleftrightarrow> c \<le> d" "V4 a \<le> V6 d" "\<not> V6 c \<le> V4 b"
  "V4 a < V4 b \<longleftrightarrow> a < b" "V6 c < V6 d \<longleftrightarrow> c < d" "V4 a < V6 d" "\<not> V6 c < V4 b"
  by (simp_all add: less_eq_ip_addr_def less_ip_addr_def)

definition in_range :: "ip_pool_config \<Rightarrow> ip_addr \<Rightarrow> bool" where
  "in_range c ip \<longleftrightarrow> allocation_start c \<le> ip \<and> ip \<le> allocation_end c"

lemma validate_range:
  assumes "ip_pool_validate c = Ok ()"
  shows "(\<exists>s e. allocation_start c = V4 s \<and> allocation_end c = V4 e \<and> s \<le> e) \<or>
         (\<exists>s e. allocation_start c = V6 s \<and> allocation_end c = V6 e \<and> s \<le> e)"
  using assms
  by (auto simp: ip_pool_validate_def not_less split: if_splits ip_addr.splits)

lemma scan_range_v4:
  assumes "allocation_start c = V4 s" and "allocation_end c = V4 e"
  shows "set (scan_range c) = {ip. in_range c ip}" and "sorted_wrt (<) (scan_range c)"
proof -
  have fits: "unat (of_nat i :: u32) = i" if "i \<le> unat e" for i
    using that unat_bound [of e] by (simp add: unat_of_nat)
  have "ip \<in> set (scan_range c)" if ip: "in_range c ip" for ip
  proof -
    obtain x where x: "ip = V4 x" "s \<le> x" "x \<le> e"
      using ip assms by (cases ip) (auto simp: in_range_def)
    then have "unat x \<in> {unat s..unat e}" by (simp add: word_le_nat_alt)
    then show ?thesis
      using x(1) assms by (auto simp: scan_range_def image_iff intro!: bexI [of _ "unat x"]
          simp del: upt_Suc)
  qed
  moreover have "in_range c ip" if "ip \<in> set (scan_range c)" for ip
    using that assms fits
    by (auto simp: scan_range_def in_range_def word_le_nat_alt simp del: upt_Suc)
  ultimately show "set (scan_range c) = {ip. in_range c ip}" by auto
  have "sorted_wrt (\<lambda>i j. V4 (of_nat i) < V4 (of_nat j)) [unat s..<Suc (unat e)]"
    by (rule sorted_wrt_mono_rel [OF _ sorted_wrt_upt])
      (simp add: word_less_nat_alt fits less_Suc_eq_le del: upt_Suc)
  then show "sorted_wrt (<) (scan_range c)"
    using assms by (simp add: scan_range_def sorted_wrt_map del: upt_Suc)
qed

lemma scan_range_v6:
  assumes "allocation_start c = V6 s" and "allocation_end c = V6 e" and "s \<le> e"
  shows "set (scan_range c) \<subseteq> {ip. in_range c ip}" and "sorted_wrt (<) (scan_range c)"
proof -
  let ?n = "unat (min 10000 (e - s + 1))"
  have d: "unat (e - s) = unat e - unat s" using assms(3) by (simp add: unat_sub)
  have n: "?n \<le> unat e - unat s + 1"
  proof (cases "e - s + 1 = 0")
    case False
    then have "unat (e - s + 1) = Suc (unat (e - s))" by (simp add: unatSuc add.commute)
    moreover have "?n \<le> unat (e - s + 1)" by (simp add: min_def word_le_nat_alt)
    ultimately show ?thesis using d by simp
  qed simp
  have add: "unat (s + of_nat i) = unat s + i" if "i < ?n" for i
  proof -
    have i: "unat s + i \<le> unat e" using that n assms(3) by (simp add: word_le_nat_alt)
    then have "unat s + i < 2 ^ 128" using unat_bound [of e] by simp
    then show ?thesis by (simp add: unat_word_ariths unat_of_nat)
  qed
  show "set (scan_range c) \<subseteq> {ip. in_range c ip}"
    using assms add n
    by (auto simp: scan_range_def in_range_def word_le_nat_alt simp del: upt_Suc)
  show "sorted_wrt (<) (scan_range c)"
    using assms add
    by (auto simp: scan_range_def sorted_wrt_map word_less_nat_alt sorted_wrt_iff_nth_less)
qed

lemma scan_range_ok:
  assumes "ip_pool_validate c = Ok ()"
  shows "set (scan_range c) \<subseteq> {ip. in_range c ip}" and "sorted_wrt (<) (scan_range c)"
proof -
  have "set (scan_range c) \<subseteq> {ip. in_range c ip} \<and> sorted_wrt (<) (scan_range c)"
    using validate_range [OF assms]
    by (elim disjE exE conjE) (simp_all add: scan_range_v4 scan_range_v6)
  then show "set (scan_range c) \<subseteq> {ip. in_range c ip}" and "sorted_wrt (<) (scan_range c)"
    by simp_all
qed

lemma find_sorted:
  assumes "List.find P xs = Some x" and "sorted_wrt (<) (xs :: 'a::linorder list)"
  shows "x \<in> set xs \<and> P x \<and> (\<forall>y \<in> set xs. P y \<longrightarrow> x \<le> y)"
  using assms
  by (induction xs) (auto split: if_splits)

lemma find_free:
  "List.find (ip_free c allocated) (scan_range c) = Some ip \<Longrightarrow> ip_free c allocated ip"
  by (auto simp: find_Some_iff)

section \<open>The factory keeps its contract\<close>

interpretation ip_addresses: resource_factory ip_address_factory addr_ip fac_allocated
proof unfold_locales
  fix f r f' x d
  show "f_create ip_address_factory f = (Ok r, f') \<Longrightarrow>
      addr_ip r \<notin> fac_allocated f \<and> fac_allocated f' = insert (addr_ip r) (fac_allocated f)"
    by (auto simp: ip_address_factory_def ip_factory_create_def find_next_available_ip_def ip_free_def
        dest!: find_free split: if_splits option.splits)
  show "f_create ip_address_factory f = (x, f') \<Longrightarrow> \<not> is_ok x \<Longrightarrow> fac_allocated f' = fac_allocated f"
    by (auto simp: ip_address_factory_def ip_factory_create_def find_next_available_ip_def
        split: if_splits option.splits)
  show "f_destroy ip_address_factory r f = (d, f') \<Longrightarrow> fac_allocated f - {addr_ip r} \<subseteq> fac_allocated f'"
    by (auto simp: ip_address_factory_def ip_factory_destroy_def split: if_splits)
  fix r'
  show "r_reset ip_address_factory r = Ok r' \<Longrightarrow> addr_ip r' = addr_ip r"
    by (auto simp: ip_address_factory_def ip_address_reset_def)
qed

section \<open>Pools over the factory\<close>

text \<open>
  The invariant of a pool: its queue is empty, because addresses are always taken out of their
  guards, the two sets of allocated addresses agree, and every allocated address was free to give.
\<close>

definition allocatable :: "ip_pool_config \<Rightarrow> ip_addr set" where
  "allocatable c = {ip. in_range c ip \<and> ip_free c {} ip}"

definition pool_inv :: "enhanced_ip_pool \<Rightarrow> bool" where
  "pool_inv e \<longleftrightarrow>
     (case resource_pool e of
        None \<Rightarrow> False
      | Some p \<Rightarrow> available p = [] \<and> \<not> reset_on_acquire (pool_config p)) \<and>
     \<not> fac_poisoned (pool_factory e) \<and>
     ip_pool_validate (fac_config (pool_factory e)) = Ok () \<and>
     st_allocated_ips (pool_state e) = fac_allocated (pool_factory e) \<and>
     fac_allocated (pool_factory e) \<subseteq> allocatable (fac_config (pool_factory e))"

definition pool_charge :: "ip_addr \<Rightarrow> u64 \<Rightarrow> enhanced_ip_pool \<Rightarrow> enhanced_ip_pool" where
  "pool_charge ip now_secs e =
     e\<lparr>pool_state := (pool_state e)
         \<lparr>st_allocated_ips := insert ip (st_allocated_ips (pool_state e)),
          st_total_allocated := st_total_allocated (pool_state e) + 1,
          st_last_allocation := Some now_secs\<rparr>,
       resource_pool := map_option (\<lambda>p. p\<lparr>permits := permits p - 1,
                                           total_created := total_created p + 1\<rparr>) (resource_pool e),
       pool_factory := (pool_factory e)
         \<lparr>fac_allocated := insert ip (fac_allocated (pool_factory e))\<rparr>\<rparr>"

lemma create_cases:
  assumes "\<not> fac_poisoned f"
  shows "ip_factory_create f =
     (case List.find (ip_free (fac_config f) (fac_allocated f)) (scan_range (fac_config f)) of
        None \<Rightarrow> (Err (ResourceExhausted
                  (''IP addresses in pool '' @ ip_pool_id_display (pool_id (fac_config f)))), f)
      | Some ip \<Rightarrow> (Ok \<lparr>addr_ip = ip, addr_pool_id = pool_id (fac_config f), addr_is_valid = True\<rparr>,
                    f\<lparr>fac_allocated := insert ip (fac_allocated f)\<rparr>))"
  using assms
  by (simp add: ip_factory_create_def find_next_available_ip_def split: option.split)

text \<open>An allocation either hands out the first free address or leaves the pool as it was.\<close>

lemma enhanced_allocate_cases:
  assumes "pool_inv e" and "enhanced_allocate_ip sem now_secs e = (x, e')"
  shows "(\<exists>r. x = Ok r \<and>
            List.find (ip_free (fac_config (pool_factory e)) (fac_allocated (pool_factory e)))
              (scan_range (fac_config (pool_factory e))) = Some (addr_ip r) \<and>
            e' = pool_charge (addr_ip r) now_secs e)
         \<or> ((\<exists>err. x = Err err) \<and> e' = e)"
proof -
  obtain p where p: "resource_pool e = Some p" "available p = []"
    "\<not> reset_on_acquire (pool_config p)"
    using assms(1) by (auto simp: pool_inv_def split: option.splits)
  let ?f = "pool_factory e"
  have ok: "\<not> fac_poisoned ?f" using assms(1) by (simp add: pool_inv_def)
  show ?thesis
  proof (cases "sem (permits p)")
    case Granted
    show ?thesis
    proof (cases "List.find (ip_free (fac_config ?f) (fac_allocated ?f)) (scan_range (fac_config ?f))")
      case None
      then show ?thesis
        using assms(2) p Granted create_cases [OF ok]
        by (auto simp: enhanced_allocate_ip_def acquire_with_timeout_def pop_or_create_def
            ip_address_factory_def)
    next
      case (Some ip)
      then show ?thesis
        using assms(2) p Granted create_cases [OF ok]
        by (auto simp: enhanced_allocate_ip_def acquire_with_timeout_def pop_or_create_def
            ip_address_factory_def revalidate_def guard_take_def pool_charge_def)
    qed
  qed (use assms(2) p in \<open>auto simp: enhanced_allocate_ip_def acquire_with_timeout_def\<close>)
qed

lemma find_allocatable:
  assumes "ip_pool_validate c = Ok ()"
    and "List.find (ip_free c allocated) (scan_range c) = Some ip"
  shows "ip \<in> allocatable c" and "ip \<notin> allocated"
  using find_sorted [OF assms(2) scan_range_ok(2) [OF assms(1)]] scan_range_ok(1) [OF assms(1)]
  by (auto simp: allocatable_def ip_free_def)

lemma pool_inv_charge:
  assumes "pool_inv e" and "ip \<in> allocatable (fac_config (pool_factory e))"
  shows "pool_inv (pool_charge ip now_secs e)"
  using assms by (auto simp: pool_inv_def pool_charge_def split: option.splits)

lemma pool_inv_release:
  assumes "pool_inv e" and "enhanced_release_ip ip e = (x, e')"
  shows "x = Ok ()" and "pool_inv e'" and "fac_config (pool_factory e') = fac_config (pool_factory e)"
    and "fac_allocated (pool_factory e') = fac_allocated (pool_factory e) - {ip}"
    and "resource_pool e' = resource_pool e"
    and "st_config (pool_state e') = st_config (pool_state e)"
  using assms by (auto simp: pool_inv_def enhanced_release_ip_def Let_def split: option.splits if_splits)

lemma from_existing_state_Ok:
  "from_existing_state s = Ok e \<longleftrightarrow>
     unat (total_capacity (st_config s)) \<le> max_permits \<and>
     e = \<lparr>pool_state = s,
          resource_pool = Some \<lparr>available = [], permits = unat (total_capacity (st_config s)),
            pool_config = ip_resource_pool_config (st_config s), total_created = 0\<rparr>,
          pool_factory = \<lparr>fac_config = st_config s, fac_allocated = st_allocated_ips s,
                          fac_poisoned = False\<rparr>\<rparr>"
  by (auto simp: from_existing_state_def pool_new_def ip_resource_pool_config_def initialize_def)

lemma enhanced_new_inv:
  "ip_pool_validate c = Ok () \<Longrightarrow> enhanced_new c = Ok e \<Longrightarrow> pool_inv e"
  by (auto simp: enhanced_new_def from_existing_state_Ok pool_inv_def ip_pool_state_new_def
      ip_resource_pool_config_def)

lemma from_existing_inv:
  "ip_pool_validate (st_config s) = Ok () \<Longrightarrow> st_allocated_ips s \<subseteq> allocatable (st_config s) \<Longrightarrow>
     from_existing_state s = Ok e \<Longrightarrow> pool_inv e"
  by (auto simp: from_existing_state_Ok pool_inv_def ip_resource_pool_config_def)

section \<open>Allocating and releasing\<close>

datatype ip_event = AllocIp "nat \<Rightarrow> sem_outcome" u64 | ReleaseIp ip_addr

text \<open>The addresses handed out along a sequence of events, and the pool after it.\<close>

fun ip_run :: "enhanced_ip_pool \<Rightarrow> ip_event list \<Rightarrow> ip_addr list \<times> enhanced_ip_pool" where
  "ip_run e [] = ([], e)"
| "ip_run e (AllocIp sem now_secs # evs) =
     (case enhanced_allocate_ip sem now_secs e of
        (x, e) \<Rightarrow>
          (case ip_run e evs of
             (ips, e) \<Rightarrow> ((case x of Ok r \<Rightarrow> [addr_ip r] | _ \<Rightarrow> []) @ ips, e)))"
| "ip_run e (ReleaseIp ip # evs) = ip_run (snd (enhanced_release_ip ip e)) evs"

fun ip_event_ok :: "ip_event \<Rightarrow> bool" where
  "ip_event_ok (AllocIp sem now_secs) = sem_ok sem"
| "ip_event_ok (ReleaseIp ip) = True"

definition free_permits :: "enhanced_ip_pool \<Rightarrow> nat" where
  "free_permits e = (case resource_pool e of None \<Rightarrow> 0 | Some p \<Rightarrow> permits p)"

lemma allocate_permits:
  assumes "enhanced_allocate_ip sem now_secs e = (x, e')" and "sem_ok sem"
  shows "free_permits e = free_permits e' + (if is_ok x then 1 else 0)"
proof (cases "resource_pool e")
  case None
  then show ?thesis using assms by (auto simp: enhanced_allocate_ip_def free_permits_def)
next
  case (Some p)
  obtain y p' f where a: "acquire_with_timeout ip_address_factory sem p (pool_factory e) = (y, p', f)"
    by (rule prod_cases3)
  show ?thesis
    using acquire_permits [OF a assms(2)] assms(1) Some a
    by (cases y) (auto simp: enhanced_allocate_ip_def free_permits_def guard_take_def is_ok_iff)
qed

lemma release_permits: "free_permits (snd (enhanced_release_ip ip e)) = free_permits e"
  by (simp add: enhanced_release_ip_def free_permits_def Let_def)

lemma ip_run_permits:
  "list_all ip_event_ok evs \<Longrightarrow> ip_run e evs = (ips, e') \<Longrightarrow>
     length ips + free_permits e' = free_permits e"
proof (induction e evs arbitrary: ips e' rule: ip_run.induct)
  case (2 e sem now_secs evs)
  obtain x e1 where a: "enhanced_allocate_ip sem now_secs e = (x, e1)" by force
  obtain ips1 where r: "ip_run e1 evs = (ips1, e')" and ips: "ips = (case x of Ok r \<Rightarrow> [addr_ip r] | _ \<Rightarrow> []) @ ips1"
    using "2.prems"(2) a by (auto split: prod.splits)
  have "length ips1 + free_permits e' = free_permits e1"
    using "2.IH" [OF a [symmetric] _ r] "2.prems"(1) by simp
  moreover have "free_permits e = free_permits e1 + (if is_ok x then 1 else 0)"
    using allocate_permits [OF a] "2.prems"(1) by simp
  ultimately show ?case using ips by (cases x) (auto simp: is_ok_iff)
qed (auto simp: release_permits)

section \<open>Properties of IP pools\<close>

lemma scan_range_closed:
  assumes "ip_pool_validate c = Ok ()" and "x \<in> set (scan_range c)" and "in_range c y" and "y \<le> x"
  shows "y \<in> set (scan_range c)"
  using validate_range [OF assms(1)]
proof (elim disjE exE conjE)
  fix s e assume "allocation_start c = V4 s" "allocation_end c = V4 e"
  then show ?thesis using scan_range_v4(1) assms(3) by simp
next
  fix s e assume c: "allocation_start c = V6 s" "allocation_end c = V6 e" "s \<le> e"
  let ?n = "unat (min 10000 (e - s + 1))"
  obtain i where i: "i < ?n" "x = V6 (s + of_nat i)"
    using assms(2) c by (auto simp: scan_range_def)
  obtain b where b: "y = V6 b" "s \<le> b" "b \<le> s + of_nat i"
    using assms(3,4) c i by (cases y) (auto simp: in_range_def)
  have "unat (s + of_nat i) = (unat s + i) mod 2 ^ 128"
    by (simp add: unat_word_ariths unat_of_nat mod_simps)
  then have "unat (s + of_nat i) \<le> unat s + i" by (metis mod_less_eq_dividend)
  then have "unat b - unat s \<le> i" using b(3) by (simp add: word_le_nat_alt)
  moreover have "b = s + of_nat (unat b - unat s)"
    using b(2) by (simp add: word_le_nat_alt of_nat_diff)
  ultimately show ?thesis
    using c b(1) i(1) by (auto simp: scan_range_def image_iff intro!: bexI [of _ "unat b - unat s"])
qed

lemma find_None_v4:
  assumes "allocation_start c = V4 s" and "allocation_end c = V4 e"
    and "List.find (ip_free c allocated) (scan_range c) = None"
  shows "allocatable c \<subseteq> allocated"
  using assms(3) scan_range_v4(1) [OF assms(1,2)]
  by (auto simp: find_None_iff allocatable_def ip_free_def)

text \<open>
  C21. The factory hands out the smallest free address: for a validated configuration, an address it
  creates lies in the allocation range and the subnet, is neither the gateway nor reserved nor
  allocated, is smaller than every other such address, and is added to the allocated set; when it
  refuses nothing changes, and an IPv4 pool refuses only when every address it could give is
  allocated.
\<close>

theorem factory_gives_least_free_address:
  assumes "ip_pool_validate (fac_config f) = Ok ()" and "\<not> fac_poisoned f"
  shows "case ip_factory_create f of
           (Ok r, f') \<Rightarrow>
             addr_ip r \<in> allocatable (fac_config f) - fac_allocated f \<and>
             (\<forall>ip \<in> allocatable (fac_config f) - fac_allocated f. addr_ip r \<le> ip) \<and>
             f' = f\<lparr>fac_allocated := insert (addr_ip r) (fac_allocated f)\<rparr>
         | (_, f') \<Rightarrow>
             f' = f \<and>
             (\<forall>s. allocation_start (fac_config f) = V4 s \<longrightarrow>
                allocatable (fac_config f) \<subseteq> fac_allocated f)"
proof (cases "List.find (ip_free (fac_config f) (fac_allocated f)) (scan_range (fac_config f))")
  case None
  then show ?thesis
    using create_cases [OF assms(2)] validate_range [OF assms(1)] find_None_v4 by fastforce
next
  case (Some ip)
  have ip: "ip \<in> allocatable (fac_config f) - fac_allocated f"
    using find_allocatable [OF assms(1) Some] by simp
  have least: "ip \<le> y" if y: "y \<in> allocatable (fac_config f) - fac_allocated f" for y
  proof (rule ccontr)
    assume n: "\<not> ip \<le> y"
    have f: "ip \<in> set (scan_range (fac_config f))"
      "\<forall>y \<in> set (scan_range (fac_config f)). ip_free (fac_config f) (fac_allocated f) y \<longrightarrow> ip \<le> y"
      using find_sorted [OF Some scan_range_ok(2) [OF assms(1)]] by blast+
    have "y \<in> set (scan_range (fac_config f))"
      using y n by (intro scan_range_closed [OF assms(1) f(1)]) (auto simp: allocatable_def)
    with f(2) y n show False by (auto simp: allocatable_def ip_free_def)
  qed
  then show ?thesis using create_cases [OF assms(2)] Some ip by simp
qed

definition sample_pool :: ip_pool_config where
  "sample_pool =
     \<lparr>pool_id = 1, pool_name = ''sample'', subnet = (\<lambda>ip. V4 256 \<le> ip \<and> ip \<le> V4 511),
      vlan_id = None, gateway = V4 257, dns_servers = [], allocation_start = V4 256,
      allocation_end = V4 259, topology_hint = None, reserved_ips = {V4 256},
      pool_enabled_flag = True, pool_tags = Map.empty\<rparr>"

lemma sample_pool_valid: "ip_pool_validate sample_pool = Ok ()"
  by (simp add: ip_pool_validate_def sample_pool_def)

lemma sample_pool_scan: "scan_range sample_pool = [V4 256, V4 257, V4 258, V4 259]"
  by (simp add: scan_range_def sample_pool_def upt_rec)

lemma sample_pool_find: "List.find (ip_free sample_pool {}) (scan_range sample_pool) = Some (V4 258)"
  by (simp add: sample_pool_scan) (simp add: ip_free_def sample_pool_def)

lemma sample_pool_capacity: "total_capacity sample_pool = 3"
  by (simp add: total_capacity_def sample_pool_def)

lemma sample_pool_new:
  "enhanced_new sample_pool =
     Ok \<lparr>pool_state = ip_pool_state_new sample_pool,
         resource_pool = Some \<lparr>available = [], permits = 3,
           pool_config = ip_resource_pool_config sample_pool, total_created = 0\<rparr>,
         pool_factory = \<lparr>fac_config = sample_pool, fac_allocated = {}, fac_poisoned = False\<rparr>\<rparr>"
  by (simp add: enhanced_new_def from_existing_state_Ok ip_pool_state_new_def sample_pool_capacity
      max_permits_def)

theorem factory_gives_least_free_address_witness:
  "V4 258 \<in> allocatable sample_pool \<and> V4 259 \<in> allocatable sample_pool \<and> V4 258 \<le> V4 259"
proof -
  have "V4 259 \<in> allocatable sample_pool"
    by (simp add: allocatable_def in_range_def ip_free_def sample_pool_def)
  then show ?thesis
    using factory_gives_least_free_address
      [of "\<lparr>fac_config = sample_pool, fac_allocated = {}, fac_poisoned = False\<rparr>"]
    by (simp add: sample_pool_valid create_cases sample_pool_find)
qed

text \<open>
  C22. A pool over the address factory never gives one address to two holders: in every state reached
  from an empty pool by acquiring, dropping and taking, the addresses that are queued, guarded or
  taken are pairwise distinct, and all of them are marked allocated.
\<close>

theorem pooled_addresses_unique:
  assumes "available p = []"
    and "reach (pool_step ip_address_factory) pool_enabled (pool_system_new p f) s"
  shows "distinct (map addr_ip (available (sys_pool s) @ held s @ taken s)) \<and>
         addr_ip ` set (available (sys_pool s) @ held s @ taken s) \<subseteq> fac_allocated (sys_factory s)"
proof -
  have "system_unique addr_ip fac_allocated (pool_system_new p f)"
    using assms(1) by (simp add: system_unique_def system_keys_def keys_ok_def pool_system_new_def)
  then have "system_unique addr_ip fac_allocated s"
    using ip_addresses.unique.reach_inv [OF assms(2)] by blast
  then show ?thesis by (auto simp: system_unique_def system_keys_def keys_ok_def)
qed

theorem pooled_addresses_unique_witness:
  "let p = \<lparr>available = [], permits = 3, pool_config = ip_resource_pool_config sample_pool,
            total_created = 0\<rparr>;
       f = \<lparr>fac_config = sample_pool, fac_allocated = {}, fac_poisoned = False\<rparr>;
       s = pool_step ip_address_factory (pool_system_new p f)
             (Acquire (\<lambda>n. if n = 0 then TimedOut else Granted))
   in addr_ip ` set (held s) \<subseteq> fac_allocated (sys_factory s)"
proof -
  let ?p = "\<lparr>available = [], permits = 3, pool_config = ip_resource_pool_config sample_pool,
            total_created = 0\<rparr>"
  let ?f = "\<lparr>fac_config = sample_pool, fac_allocated = {}, fac_poisoned = False\<rparr>"
  let ?a = "Acquire (\<lambda>n. if n = 0 then TimedOut else Granted)"
  let ?s = "pool_step ip_address_factory (pool_system_new ?p ?f) ?a"
  have "reach (pool_step ip_address_factory) pool_enabled (pool_system_new ?p ?f) ?s"
    by (rule reach_step [OF reach_refl]) (simp add: sem_ok_def)
  then have "addr_ip ` set (available (sys_pool ?s) @ held ?s @ taken ?s)
      \<subseteq> fac_allocated (sys_factory ?s)"
    using pooled_addresses_unique [of ?p ?f ?s] by (simp del: pool_step.simps)
  then show ?thesis unfolding Let_def set_append image_Un by blast
qed

text \<open>
  A pool's permits are spent for good: releasing an address marks it free but does not return the
  permit that its allocation used up, so along any interleaving of allocations and releases a pool
  hands out at most \<open>total_capacity\<close> addresses between its creation and a restart.
\<close>

theorem lifetime_allocations_bounded:
  assumes "enhanced_new c = Ok e" and "list_all ip_event_ok evs"
  shows "length (fst (ip_run e evs)) \<le> unat (total_capacity c)"
proof -
  obtain ips e' where r: "ip_run e evs = (ips, e')" by force
  have "free_permits e = unat (total_capacity c)"
    using assms(1) by (simp add: enhanced_new_def from_existing_state_Ok ip_pool_state_new_def
        free_permits_def)
  with ip_run_permits [OF assms(2) r] r show ?thesis by simp
qed

theorem lifetime_allocations_bounded_witness:
  "\<exists>e. enhanced_new sample_pool = Ok e \<and>
     length (fst (ip_run e (concat (replicate 100
       [AllocIp (\<lambda>n. if n = 0 then TimedOut else Granted) 0, ReleaseIp (V4 258)])))) \<le> 3"
proof -
  obtain e where e: "enhanced_new sample_pool = Ok e" using sample_pool_new by blast
  have "list_all ip_event_ok (concat (replicate 100
      [AllocIp (\<lambda>n. if n = 0 then TimedOut else Granted) 0, ReleaseIp (V4 258)]))"
    by (auto simp: list_all_iff sem_ok_def)
  from lifetime_allocations_bounded [OF e this] e show ?thesis
    by (simp add: sample_pool_capacity)
qed

lemma v6_capacity_large:
  assumes "allocation_start c = V6 s" and "allocation_end c = V6 e" and "reserved_ips c = {}"
    and "2 ^ 61 \<le> unat (e - s)" and "unat (e - s) < 2 ^ 128 - 1"
  shows "max_permits < unat (total_capacity c)"
proof -
  have suc: "unat (e - s + 1) = unat (e - s) + 1"
    using assms(5) by (simp add: unat_word_ariths)
  have m: "unat (min (e - s + 1) (2 ^ 64 - 1)) = min (unat (e - s) + 1) (2 ^ 64 - 1)"
    using suc by (simp add: min_def word_le_nat_alt)
  have "unat (ucast (min (e - s + 1) (2 ^ 64 - 1)) :: u64) =
      unat (min (e - s + 1) (2 ^ 64 - 1)) mod 2 ^ 64"
    by (simp add: unsigned_ucast_eq take_bit_eq_mod)
  also have "\<dots> = min (unat (e - s) + 1) (2 ^ 64 - 1)" unfolding m by simp
  finally show ?thesis using assms by (simp add: total_capacity_def max_permits_def)
qed

lemma word_sub_wraps:
  fixes a b :: u64
  assumes "uint a < uint b" and "uint b < 2 ^ 33"
  shows "2 ^ 61 \<le> unat (a - b)"
proof -
  let ?x = "uint a - uint b"
  have b: "uint b < 8589934592" using assms(2) by simp
  have "2305843009213693952 \<le> ?x + 18446744073709551616"
    using b uint_ge_0 [of a] by linarith
  then have x: "2 ^ 61 \<le> ?x + 2 ^ 64" "?x + 2 ^ 64 < 2 ^ 64"
    using assms(1) by simp_all
  have "uint (a - b) = ?x mod 2 ^ 64" by (simp add: uint_word_ariths)
  also have "\<dots> = (?x + 2 ^ 64) mod 2 ^ 64" by (rule mod_add_self2 [symmetric])
  also have "\<dots> = ?x + 2 ^ 64" using x by (intro mod_pos_pos_trivial) simp_all
  finally have "2 ^ 61 \<le> uint (a - b)" using x(1) by (simp only:)
  then have "int (2 ^ 61) \<le> int (unat (a - b))" unfolding uint_nat by (simp only: of_nat_power of_nat_numeral)
  then show ?thesis by (simp only: of_nat_le_iff)
qed

lemma v4_capacity_wraps:
  assumes "allocation_start c = V4 s" and "allocation_end c = V4 e"
    and "unat (e - s) + 1 < 2 ^ 32" and "unat (e - s) + 1 < card (reserved_ips c)"
    and "card (reserved_ips c) < 2 ^ 33"
  shows "max_permits < unat (total_capacity c)"
proof -
  let ?a = "ucast (e - s + 1) :: u64" and ?b = "of_nat (card (reserved_ips c)) :: u64"
  have "unat (e - s + 1) = unat (e - s) + 1" using assms(3) by (simp add: unat_word_ariths)
  moreover have "unat ?a = unat (e - s + 1)"
    using unat_bound [of "e - s + 1"] by (simp add: unsigned_ucast_eq take_bit_eq_mod)
  ultimately have a: "uint ?a = int (unat (e - s) + 1)" by (simp only: uint_nat)
  have "unat ?b = card (reserved_ips c)" using assms(5) by (simp add: unat_of_nat)
  then have b: "uint ?b = int (card (reserved_ips c))" by (simp only: uint_nat)
  have "int (card (reserved_ips c)) < 2 ^ 33" using assms(5) by simp
  then have "2 ^ 61 \<le> unat (?a - ?b)"
    by (intro word_sub_wraps) (use a b assms(4) in linarith)+
  then show ?thesis using assms(1,2) by (simp add: total_capacity_def max_permits_def)
qed

text \<open>
  Creating some valid pools crashes the process: a validated IPv6 pool whose range has more than
  \<open>2 ^ 61\<close> addresses, such as a whole /64, and a validated IPv4 pool with more reserved addresses
  in its subnet than addresses in its allocation range, whose capacity wraps below zero, both ask
  for more semaphore permits than a semaphore may have, which panics.
\<close>

theorem oversized_pool_panics:
  assumes "ip_pool_validate c = Ok ()"
    and "(\<exists>s e. allocation_start c = V6 s \<and> allocation_end c = V6 e \<and> reserved_ips c = {} \<and>
            2 ^ 61 \<le> unat (e - s) \<and> unat (e - s) < 2 ^ 128 - 1)
       \<or> (\<exists>s e. allocation_start c = V4 s \<and> allocation_end c = V4 e \<and>
            unat (e - s) + 1 < 2 ^ 32 \<and> unat (e - s) + 1 < card (reserved_ips c) \<and>
            card (reserved_ips c) < 2 ^ 33)"
  shows "enhanced_new c = Panics"
proof -
  have "max_permits < unat (total_capacity c)"
    using assms(2) v6_capacity_large v4_capacity_wraps by blast
  then show ?thesis
    by (simp add: enhanced_new_def from_existing_state_def pool_new_def ip_resource_pool_config_def
        ip_pool_state_new_def)
qed

theorem oversized_pool_panics_witness:
  "enhanced_new (sample_pool\<lparr>subnet := (\<lambda>ip. V6 0 \<le> ip \<and> ip \<le> V6 (2 ^ 64 - 1)), gateway := V6 1,
     allocation_start := V6 0, allocation_end := V6 (2 ^ 64 - 1), reserved_ips := {}\<rparr>) = Panics"
  by (rule oversized_pool_panics) (simp_all add: ip_pool_validate_def sample_pool_def)

end
