(* ===== verification/Proposals.thy ===== *)
theory Proposals
  imports Ip_Pool Resource_Quotas
begin

text \<open>
  The proposals that go through the Raft log (\<open>raft/proposals.rs\<close>), their classification, the usage
  deltas of VM creation and deletion, and the batch builder. A UUID is its sixteen bytes and a
  \<open>DateTime<Utc>\<close> an integer.
\<close>

datatype resource_operation = ResourceCreate | ResourceUpdate | ResourceDelete

record resource_usage_delta =
  vm_count_delta :: i32
  vcpu_delta :: i32
  memory_mb_delta :: i64
  disk_gb_delta :: i64
  delta_operation :: resource_operation
  delta_timestamp :: time

definition from_vm_create :: "time \<Rightarrow> vm_config \<Rightarrow> resource_usage_delta" where
  "from_vm_create now c =
     \<lparr>vm_count_delta = 1, vcpu_delta = vc_vcpus c, memory_mb_delta = ucast (vc_memory c),
      disk_gb_delta = 0, delta_operation = ResourceCreate, delta_timestamp = now\<rparr>"

definition from_vm_delete :: "time \<Rightarrow> vm_config \<Rightarrow> resource_usage_delta" where
  "from_vm_delete now c =
     \<lparr>vm_count_delta = - 1, vcpu_delta = - vc_vcpus c, memory_mb_delta = - ucast (vc_memory c),
      disk_gb_delta = 0, delta_operation = ResourceDelete, delta_timestamp = now\<rparr>"

record resource_requirements =
  rr_cpu_cores :: u32
  rr_memory_mb :: u64
  rr_disk_gb :: u64
  rr_required_features :: "string list"

record task_spec =
  ts_command :: string
  ts_args :: "string list"
  ts_resources :: resource_requirements
  ts_timeout_secs :: u64

record task_result =
  tr_success :: bool
  tr_output :: string
  tr_error :: "string option"
  tr_execution_time_ms :: u64

record worker_capabilities =
  wc_cpu_cores :: u32
  wc_memory_mb :: u64
  wc_disk_gb :: u64
  wc_features :: "string list"

datatype worker_status = Online | Busy | Offline | WorkerFailed

text \<open>\<open>status as u8\<close> and its inverse.\<close>

fun worker_status_u8 :: "worker_status \<Rightarrow> u8" where
  "worker_status_u8 Online = 0"
| "worker_status_u8 Busy = 1"
| "worker_status_u8 Offline = 2"
| "worker_status_u8 WorkerFailed = 3"

definition worker_status_try_from :: "u8 \<Rightarrow> worker_status outcome" where
  "worker_status_try_from v =
     (if v = 0 then Ok Online
      else if v = 1 then Ok Busy
      else if v = 2 then Ok Offline
      else if v = 3 then Ok WorkerFailed
      else Err (Internal (''Invalid WorkerStatus value: '' @ show_nat (unat v))))"

datatype proposal_data =
    AssignTask string u64 task_spec
  | CompleteTask string task_result
  | ReassignTask string u64 u64
  | RegisterWorker u64 string worker_capabilities node_topology
  | UpdateWorkerStatus u64 worker_status
  | RemoveWorker u64
  | CreateVm vm_command
  | UpdateVmStatus string vm_status u64
  | MigrateVm string u64 u64
  | IpPoolCommand ip_pool_command
  | AllocateIp ip_allocation_request
  | ReleaseVmIps vm_id
  | SetTenantQuota tenant_quota
  | UpdateTenantUsage tenant_id resource_usage_delta "byte list"
  | RemoveTenantQuota tenant_id
  | Batch "proposal_data list"

fun proposal_type :: "proposal_data \<Rightarrow> string" where
  "proposal_type (AssignTask _ _ _) = ''assign_task''"
| "proposal_type (CompleteTask _ _) = ''complete_task''"
| "proposal_type (ReassignTask _ _ _) = ''reassign_task''"
| "proposal_type (RegisterWorker _ _ _ _) = ''register_worker''"
| "proposal_type (UpdateWorkerStatus _ _) = ''update_worker_status''"
| "proposal_type (RemoveWorker _) = ''remove_worker''"
| "proposal_type (CreateVm _) = ''vm_operation''"
| "proposal_type (UpdateVmStatus _ _ _) = ''update_vm_status''"
| "proposal_type (MigrateVm _ _ _) = ''migrate_vm''"
| "proposal_type (IpPoolCommand _) = ''ip_pool_command''"
| "proposal_type (AllocateIp _) = ''allocate_ip''"
| "proposal_type (ReleaseVmIps _) = ''release_vm_ips''"
| "proposal_type (SetTenantQuota _) = ''set_tenant_quota''"
| "proposal_type (UpdateTenantUsage _ _ _) = ''update_tenant_usage''"
| "proposal_type (RemoveTenantQuota _) = ''remove_tenant_quota''"
| "proposal_type (Batch _) = ''batch''"

fun modifies_resources :: "proposal_data \<Rightarrow> bool" where
  "modifies_resources (AssignTask _ _ _) = True"
| "modifies_resources (RegisterWorker _ _ _ _) = True"
| "modifies_resources (RemoveWorker _) = True"
| "modifies_resources (CreateVm _) = True"
| "modifies_resources (MigrateVm _ _ _) = True"
| "modifies_resources (AllocateIp _) = True"
| "modifies_resources (ReleaseVmIps _) = True"
| "modifies_resources (CompleteTask _ _) = False"
| "modifies_resources (ReassignTask _ _ _) = False"
| "modifies_resources (UpdateWorkerStatus _ _) = False"
| "modifies_resources (UpdateVmStatus _ _ _) = False"
| "modifies_resources (IpPoolCommand _) = False"
| "modifies_resources (SetTenantQuota _) = False"
| "modifies_resources (UpdateTenantUsage _ _ _) = False"
| "modifies_resources (RemoveTenantQuota _) = False"
| "modifies_resources (Batch ps) = (\<exists>p \<in> set ps. modifies_resources p)"

fun requires_admission_control :: "proposal_data \<Rightarrow> bool" where
  "requires_admission_control (AssignTask _ _ _) = True"
| "requires_admission_control (CreateVm (Create _ _)) = True"
| "requires_admission_control (MigrateVm _ _ _) = True"
| "requires_admission_control _ = False"

text \<open>\<open>BatchProposalBuilder\<close> holds the proposals added so far.\<close>

definition batch_new :: "proposal_data list" where
  "batch_new = []"

definition batch_add :: "proposal_data \<Rightarrow> proposal_data list \<Rightarrow> proposal_data list" where
  "batch_add p ps = ps @ [p]"

definition batch_build :: "proposal_data list \<Rightarrow> proposal_data" where
  "batch_build ps = Batch ps"

abbreviation is_batch :: "proposal_data \<Rightarrow> bool" where
  "is_batch p \<equiv> (case p of Batch _ \<Rightarrow> True | _ \<Rightarrow> False)"

section \<open>Lemmas\<close>

lemma worker_status_round_trip [simp]: "worker_status_try_from (worker_status_u8 s) = Ok s"
  by (cases s) (simp_all add: worker_status_try_from_def)

lemma batch_built: "batch_build (fold batch_add ps batch_new) = Batch ps"
proof -
  have "fold batch_add ps qs = qs @ ps" for qs by (induction ps arbitrary: qs) (auto simp: batch_add_def)
  then show ?thesis by (simp add: batch_build_def batch_new_def)
qed

text \<open>Creating and deleting a VM change the usage by opposite amounts.\<close>

lemma vm_deltas_cancel:
  "vcpu_delta (from_vm_delete t c) = - vcpu_delta (from_vm_create s c)"
  "memory_mb_delta (from_vm_delete t c) = - memory_mb_delta (from_vm_create s c)"
  "vm_count_delta (from_vm_delete t c) = - vm_count_delta (from_vm_create s c)"
  by (simp_all add: from_vm_create_def from_vm_delete_def)

end
