(* ===== verification/Ip_Pool_Manager.thy ===== *)
theory Ip_Pool_Manager
  imports Ip_Pool
begin

text \<open>
  The manager of all IP pools (\<open>ip_pool_manager.rs\<close>): the pools by id, the allocations by address and
  by VM, the commands that administer pools, the choice of a pool for a request, and allocation and
  release of addresses. What a call takes from its surroundings (the iteration order of the hash
  map, the random choice, the semaphore, the clock, \<open>f64\<close> rounding) is the record \<open>alloc_env\<close>.
\<close>

section \<open>State\<close>

record ip_pool_manager =
  pools :: "ip_pool_id \<rightharpoonup> enhanced_ip_pool"
  allocations :: "ip_addr \<rightharpoonup> ip_allocation"
  vm_allocations :: "vm_id \<rightharpoonup> ip_addr list"
  round_robin_counter :: usize

definition ip_pool_manager_new :: ip_pool_manager where
  "ip_pool_manager_new =
     \<lparr>pools = Map.empty, allocations = Map.empty, vm_allocations = Map.empty,
      round_robin_counter = 0\<rparr>"

record alloc_env =
  ae_order :: "ip_pool_id list"
  ae_choose :: "ip_pool_id list \<Rightarrow> ip_pool_id"
  ae_rnd :: "real \<Rightarrow> real"
  ae_sem :: "nat \<Rightarrow> sem_outcome"
  ae_now :: u64

section \<open>Selection helpers\<close>

text \<open>A float to integer cast truncates and saturates.\<close>

definition f64_as_u64 :: "real \<Rightarrow> u64" where
  "f64_as_u64 x = (if x \<le> 0 then 0 else if x \<ge> 2 ^ 64 then - 1 else of_int \<lfloor>x\<rfloor>)"

definition min_by_safe :: "('a \<Rightarrow> 'b::linorder) \<Rightarrow> 'a list \<Rightarrow> 'a outcome" where
  "min_by_safe f xs =
     (case min_by_key f xs of
        Some x \<Rightarrow> Ok x
      | None \<Rightarrow> Err (InvalidOperation ''minimum selection''))"

definition max_by_safe :: "('a \<Rightarrow> 'b::linorder) \<Rightarrow> 'a list \<Rightarrow> 'a outcome" where
  "max_by_safe f xs =
     (case max_by_key f xs of
        Some x \<Rightarrow> Ok x
      | None \<Rightarrow> Err (InvalidOperation ''maximum selection''))"

definition choose_random :: "('a list \<Rightarrow> 'a) \<Rightarrow> 'a list \<Rightarrow> 'a outcome" where
  "choose_random pick xs =
     (if xs = [] then Err (InvalidOperation ''random selection'') else Ok (pick xs))"

section \<open>Loading\<close>

definition mark_allocated :: "ip_allocation \<Rightarrow> ip_pool_state \<Rightarrow> ip_pool_state" where
  "mark_allocated a s =
     (if al_pool_id a = pool_id (st_config s)
      then s\<lparr>st_allocated_ips := insert (al_ip a) (st_allocated_ips s),
             st_total_allocated := st_total_allocated s + 1\<rparr>
      else s)"

fun load_pools ::
  "ip_allocation list \<Rightarrow> ip_pool_config list \<Rightarrow> ip_pool_manager \<Rightarrow> unit outcome \<times> ip_pool_manager" where
  "load_pools allocs [] m = (Ok (), m)"
| "load_pools allocs (c # cs) m =
     (case ip_pool_validate c of
        Ok _ \<Rightarrow>
          (case from_existing_state (fold mark_allocated allocs (ip_pool_state_new c)) of
             Ok e \<Rightarrow>
               load_pools allocs cs (m\<lparr>pools := (pools m)(pool_id (st_config (pool_state e)) \<mapsto> e)\<rparr>)
           | Err x \<Rightarrow> (Err x, m)
           | Panics \<Rightarrow> (Panics, m)
           | Blocks \<Rightarrow> (Blocks, m))
      | x \<Rightarrow> (x, m))"

definition record_allocation :: "ip_allocation \<Rightarrow> ip_pool_manager \<Rightarrow> ip_pool_manager" where
  "record_allocation a m =
     m\<lparr>allocations := (allocations m)(al_ip a \<mapsto> a),
       vm_allocations := (vm_allocations m)(al_vm_id a \<mapsto>
         (case vm_allocations m (al_vm_id a) of None \<Rightarrow> [] | Some ips \<Rightarrow> ips) @ [al_ip a])\<rparr>"

definition load_from_storage ::
  "ip_pool_config list \<Rightarrow> ip_allocation list \<Rightarrow> ip_pool_manager \<Rightarrow> unit outcome \<times> ip_pool_manager" where
  "load_from_storage cs allocs m =
     (case load_pools allocs cs m of
        (Ok _, m) \<Rightarrow> (Ok (), fold record_allocation allocs m)
      | (x, m) \<Rightarrow> (x, m))"

section \<open>Administration\<close>

definition pool_not_found :: "ip_pool_id \<Rightarrow> blixard_error" where
  "pool_not_found pid = NotFound (''IP pool '' @ ip_pool_id_display pid)"

definition create_pool :: "ip_pool_config \<Rightarrow> ip_pool_manager \<Rightarrow> unit outcome \<times> ip_pool_manager" where
  "create_pool c m =
     (case ip_pool_validate c of
        Ok _ \<Rightarrow>
          if pools m (pool_id c) \<noteq> None
          then (Err (AlreadyExists (''IP pool '' @ ip_pool_id_display (pool_id c))), m)
          else
            (case enhanced_new c of
               Ok e \<Rightarrow> (Ok (), m\<lparr>pools := (pools m)(pool_id c \<mapsto> e)\<rparr>)
             | Err x \<Rightarrow> (Err x, m)
             | Panics \<Rightarrow> (Panics, m)
             | Blocks \<Rightarrow> (Blocks, m))
      | x \<Rightarrow> (x, m))"

definition update_pool :: "ip_pool_config \<Rightarrow> ip_pool_manager \<Rightarrow> unit outcome \<times> ip_pool_manager" where
  "update_pool c m =
     (case ip_pool_validate c of
        Ok _ \<Rightarrow>
          (case pools m (pool_id c) of
             None \<Rightarrow> (Err (pool_not_found (pool_id c)), m)
           | Some e \<Rightarrow>
               (Ok (), m\<lparr>pools := (pools m)(pool_id c \<mapsto>
                  sync_state (e\<lparr>pool_state := (pool_state e)\<lparr>st_config := c\<rparr>\<rparr>))\<rparr>))
      | x \<Rightarrow> (x, m))"

definition delete_pool :: "ip_pool_id \<Rightarrow> ip_pool_manager \<Rightarrow> unit outcome \<times> ip_pool_manager" where
  "delete_pool pid m =
     (case pools m pid of
        None \<Rightarrow> (Err (pool_not_found pid), m)
      | Some e \<Rightarrow>
          if st_allocated_ips (pool_state e) \<noteq> {} then (Err (InvalidOperation ''delete pool''), m)
          else (Ok (), m\<lparr>pools := (pools m)(pid := None)\<rparr>))"

definition set_pool_enabled ::
  "ip_pool_id \<Rightarrow> bool \<Rightarrow> ip_pool_manager \<Rightarrow> unit outcome \<times> ip_pool_manager" where
  "set_pool_enabled pid enabled m =
     (case pools m pid of
        None \<Rightarrow> (Err (pool_not_found pid), m)
      | Some e \<Rightarrow>
          (Ok (), m\<lparr>pools := (pools m)(pid \<mapsto> e\<lparr>pool_state := (pool_state e)
             \<lparr>st_config := (st_config (pool_state e))\<lparr>pool_enabled_flag := enabled\<rparr>\<rparr>\<rparr>)\<rparr>))"

definition reserve_ips ::
  "ip_pool_id \<Rightarrow> ip_addr set \<Rightarrow> ip_pool_manager \<Rightarrow> unit outcome \<times> ip_pool_manager" where
  "reserve_ips pid ips m =
     (case pools m pid of
        None \<Rightarrow> (Err (pool_not_found pid), m)
      | Some e \<Rightarrow>
          let s = pool_state e in
          if \<exists>ip \<in> ips. \<not> subnet (st_config s) ip \<or> ip \<in> st_allocated_ips s
          then (Err (InvalidOperation ''reserve IP''), m)
          else (Ok (), m\<lparr>pools := (pools m)(pid \<mapsto> e\<lparr>pool_state := s\<lparr>st_config := (st_config s)
                 \<lparr>reserved_ips := reserved_ips (st_config s) \<union> ips\<rparr>\<rparr>\<rparr>)\<rparr>))"

definition release_reserved_ips ::
  "ip_pool_id \<Rightarrow> ip_addr set \<Rightarrow> ip_pool_manager \<Rightarrow> unit outcome \<times> ip_pool_manager" where
  "release_reserved_ips pid ips m =
     (case pools m pid of
        None \<Rightarrow> (Err (pool_not_found pid), m)
      | Some e \<Rightarrow>
          let s = pool_state e in
          (Ok (), m\<lparr>pools := (pools m)(pid \<mapsto> e\<lparr>pool_state := s\<lparr>st_config := (st_config s)
             \<lparr>reserved_ips := reserved_ips (st_config s) - ips\<rparr>\<rparr>\<rparr>)\<rparr>))"

fun process_command :: "ip_pool_command \<Rightarrow> ip_pool_manager \<Rightarrow> unit outcome \<times> ip_pool_manager" where
  "process_command (CreatePool c) m = create_pool c m"
| "process_command (UpdatePool c) m = update_pool c m"
| "process_command (DeletePool pid) m = delete_pool pid m"
| "process_command (SetPoolEnabled pid enabled) m = set_pool_enabled pid enabled m"
| "process_command (ReserveIps pid ips) m = reserve_ips pid ips m"
| "process_command (ReleaseReservedIps pid ips) m = release_reserved_ips pid ips m"

section \<open>Choosing a pool\<close>

definition pool_eligible :: "ip_allocation_request \<Rightarrow> enhanced_ip_pool \<Rightarrow> bool" where
  "pool_eligible request e \<longleftrightarrow>
     (let c = st_config (pool_state e) in
      pool_enabled_flag c \<and>
      list_all (\<lambda>(k, v). pool_tags c k = Some v) (ar_required_tags request) \<and>
      (case ar_topology_hint request of
         None \<Rightarrow> True
       | Some hint \<Rightarrow> (case topology_hint c of None \<Rightarrow> True | Some h \<Rightarrow> h = hint)) \<and>
      enhanced_has_capacity e)"

definition utilization_key :: "(real \<Rightarrow> real) \<Rightarrow> enhanced_ip_pool \<Rightarrow> u64" where
  "utilization_key rnd e = f64_as_u64 (rnd (enhanced_utilization_percent rnd e * 1000))"

definition eligible_pools ::
  "alloc_env \<Rightarrow> ip_allocation_request \<Rightarrow> (ip_pool_id \<rightharpoonup> enhanced_ip_pool) \<Rightarrow>
     (ip_pool_id \<times> enhanced_ip_pool) list" where
  "eligible_pools E request ps =
     List.map_filter
       (\<lambda>pid. case ps pid of
          None \<Rightarrow> None
        | Some e \<Rightarrow> if pool_eligible request e then Some (pid, e) else None)
       (ae_order E)"

definition select_pool ::
  "alloc_env \<Rightarrow> ip_allocation_request \<Rightarrow> ip_pool_manager \<Rightarrow> ip_pool_id outcome \<times> ip_pool_manager" where
  "select_pool E request m =
     (let eligible = eligible_pools E request (pools m);
          least = (case min_by_safe (\<lambda>(pid, e). utilization_key (ae_rnd E) e) eligible of
                     Ok x \<Rightarrow> Ok (fst x) | Err x \<Rightarrow> Err x | Panics \<Rightarrow> Panics | Blocks \<Rightarrow> Blocks)
      in if eligible = [] then (Err (ResourceExhausted ''IP pools matching requirements''), m)
         else
           case ar_selection_strategy request of
             LeastUtilized \<Rightarrow> (least, m)
           | MostUtilized \<Rightarrow>
               (case max_by_safe (\<lambda>(pid, e). utilization_key (ae_rnd E) e) eligible of
                  Ok x \<Rightarrow> Ok (fst x) | Err x \<Rightarrow> Err x | Panics \<Rightarrow> Panics | Blocks \<Rightarrow> Blocks, m)
           | RoundRobin \<Rightarrow>
               let counter = round_robin_counter m;
                   index = unat counter mod length eligible
               in (Ok (fst (eligible ! index)),
                   m\<lparr>round_robin_counter := of_nat (unat (counter + 1) mod length eligible)\<rparr>)
           | TopologyAware \<Rightarrow>
               (case ar_topology_hint request of
                  None \<Rightarrow> (least, m)
                | Some hint \<Rightarrow>
                    (case List.find (\<lambda>(pid, e). topology_hint (st_config (pool_state e)) = Some hint)
                            eligible of
                       Some x \<Rightarrow> (Ok (fst x), m)
                     | None \<Rightarrow> (least, m)))
           | Random \<Rightarrow> (choose_random (ae_choose E) (map fst eligible), m))"

section \<open>Allocation and release\<close>

text \<open>The first part of \<open>allocate_ip\<close>, under the read lock: which pool to use.\<close>

definition allocate_select ::
  "alloc_env \<Rightarrow> ip_allocation_request \<Rightarrow> ip_pool_manager \<Rightarrow> ip_pool_id outcome \<times> ip_pool_manager" where
  "allocate_select E request m =
     (case ar_preferred_pool request of
        Some preferred \<Rightarrow>
          (case pools m preferred of
             None \<Rightarrow> (Err (pool_not_found preferred), m)
           | Some e \<Rightarrow>
               if \<not> enhanced_has_capacity e
               then (Err (ResourceExhausted (''IP pool '' @ ip_pool_id_display preferred)), m)
               else (Ok preferred, m))
      | None \<Rightarrow> select_pool E request m)"

text \<open>The second part, under the write lock: take an address from the pool and record it.\<close>

definition allocate_from ::
  "alloc_env \<Rightarrow> ip_allocation_request \<Rightarrow> ip_pool_id \<Rightarrow> ip_pool_manager \<Rightarrow>
     ip_allocation_result outcome \<times> ip_pool_manager" where
  "allocate_from E request pid m =
     (case pools m pid of
        None \<Rightarrow> (Err (NotFound (''IP Pool with id: '' @ ip_pool_id_display pid)), m)
      | Some e \<Rightarrow>
          (case enhanced_allocate_ip (ae_sem E) (ae_now E) e of
             (x, e) \<Rightarrow>
               let m = m\<lparr>pools := (pools m)(pid \<mapsto> e)\<rparr> in
               case x of
                 Ok r \<Rightarrow>
                   let ip = addr_ip r;
                       a = \<lparr>al_ip = ip, al_pool_id = pid, al_vm_id = ar_vm_id request,
                            al_mac_address = ar_mac_address request, al_allocated_at = ae_now E,
                            al_expires_at = None\<rparr>;
                       c = st_config (pool_state e)
                   in (Ok \<lparr>res_allocation = a,
                           res_network_config =
                             \<lparr>nc_ip_address = ip, nc_subnet = subnet c, nc_gateway = gateway c,
                              nc_dns_servers = dns_servers c, nc_vlan_id = vlan_id c,
                              nc_mac_address = ar_mac_address request\<rparr>\<rparr>,
                       record_allocation a m)
               | Err err \<Rightarrow> (Err err, m)
               | Panics \<Rightarrow> (Panics, m)
               | Blocks \<Rightarrow> (Blocks, m)))"

definition allocate_ip ::
  "alloc_env \<Rightarrow> ip_allocation_request \<Rightarrow> ip_pool_manager \<Rightarrow>
     ip_allocation_result outcome \<times> ip_pool_manager" where
  "allocate_ip E request m =
     (case allocate_select E request m of
        (Ok pid, m) \<Rightarrow> allocate_from E request pid m
      | (Err err, m) \<Rightarrow> (Err err, m)
      | (Panics, m) \<Rightarrow> (Panics, m)
      | (Blocks, m) \<Rightarrow> (Blocks, m))"

fun release_loop :: "ip_addr list \<Rightarrow> ip_pool_manager \<Rightarrow> unit outcome \<times> ip_pool_manager" where
  "release_loop [] m = (Ok (), m)"
| "release_loop (ip # ips) m =
     (case allocations m ip of
        None \<Rightarrow> release_loop ips m
      | Some a \<Rightarrow>
          let m = m\<lparr>allocations := (allocations m)(ip := None)\<rparr> in
          case pools m (al_pool_id a) of
            None \<Rightarrow> release_loop ips m
          | Some e \<Rightarrow>
              (case enhanced_release_ip ip e of
                 (x, e) \<Rightarrow>
                   let m = m\<lparr>pools := (pools m)(al_pool_id a \<mapsto> e)\<rparr> in
                   case x of Ok _ \<Rightarrow> release_loop ips m | _ \<Rightarrow> (x, m)))"

definition release_vm_ips :: "vm_id \<Rightarrow> ip_pool_manager \<Rightarrow> unit outcome \<times> ip_pool_manager" where
  "release_vm_ips v m =
     (case vm_allocations m v of
        None \<Rightarrow> (Ok (), m)
      | Some ips \<Rightarrow> release_loop ips (m\<lparr>vm_allocations := (vm_allocations m)(v := None)\<rparr>))"

section \<open>Queries\<close>

definition get_pools :: "ip_pool_id list \<Rightarrow> ip_pool_manager \<Rightarrow> ip_pool_state list" where
  "get_pools order m = List.map_filter (\<lambda>pid. map_option pool_state (pools m pid)) order"

definition get_vm_allocations :: "vm_id \<Rightarrow> ip_pool_manager \<Rightarrow> ip_allocation list" where
  "get_vm_allocations v m =
     (case vm_allocations m v of
        None \<Rightarrow> []
      | Some ips \<Rightarrow> List.map_filter (allocations m) ips)"

record ip_pool_stats =
  ips_pool_id :: ip_pool_id
  ips_total_ips :: u64
  ips_allocated_ips :: u64
  ips_reserved_ips :: u64
  ips_available_ips :: u64
  ips_utilization_percent :: real
  ips_last_allocation :: "i64 option"

definition get_pool_stats :: "(real \<Rightarrow> real) \<Rightarrow> ip_pool_id \<Rightarrow> ip_pool_manager \<Rightarrow> ip_pool_stats outcome" where
  "get_pool_stats rnd pid m =
     (case pools m pid of
        None \<Rightarrow> Err (pool_not_found pid)
      | Some e \<Rightarrow>
          let c = st_config (pool_state e);
              allocated = of_nat (card (st_allocated_ips (pool_state e)))
          in Ok \<lparr>ips_pool_id = pid, ips_total_ips = total_capacity c,
                 ips_allocated_ips = allocated,
                 ips_reserved_ips = of_nat (card (reserved_ips c)),
                 ips_available_ips = total_capacity c - allocated,
                 ips_utilization_percent = enhanced_utilization_percent rnd e,
                 ips_last_allocation = st_last_allocation (pool_state e)\<rparr>)"

section \<open>The manager's invariant\<close>

definition pool_ips :: "ip_pool_manager \<Rightarrow> ip_pool_id \<Rightarrow> ip_addr set" where
  "pool_ips m pid = (case pools m pid of None \<Rightarrow> {} | Some e \<Rightarrow> fac_allocated (pool_factory e))"

definition vm_ips :: "ip_pool_manager \<Rightarrow> vm_id \<Rightarrow> ip_addr list" where
  "vm_ips m v = (case vm_allocations m v of None \<Rightarrow> [] | Some ips \<Rightarrow> ips)"

text \<open>
  The three views of who has which address agree: the allocation records, the pools' allocated sets
  and the lists of the VMs.
\<close>

definition books_ok ::
  "(ip_addr \<rightharpoonup> ip_allocation) \<Rightarrow> (ip_pool_id \<Rightarrow> ip_addr set) \<Rightarrow> (vm_id \<Rightarrow> ip_addr list) \<Rightarrow> bool" where
  "books_ok al P V \<longleftrightarrow>
     (\<forall>ip a. al ip = Some a \<longrightarrow>
        al_ip a = ip \<and> ip \<in> P (al_pool_id a) \<and> ip \<in> set (V (al_vm_id a))) \<and>
     (\<forall>v. distinct (V v)) \<and>
     (\<forall>v ip. ip \<in> set (V v) \<longrightarrow> (\<exists>a. al ip = Some a \<and> al_vm_id a = v)) \<and>
     (\<forall>pid ip. ip \<in> P pid \<longrightarrow> (\<exists>a. al ip = Some a \<and> al_pool_id a = pid))"

text \<open>Every pool is well formed, and no two pools can give the same address.\<close>

definition pools_ok :: "(ip_pool_id \<rightharpoonup> enhanced_ip_pool) \<Rightarrow> bool" where
  "pools_ok ps \<longleftrightarrow>
     (\<forall>pid e. ps pid = Some e \<longrightarrow> pool_inv e) \<and>
     (\<forall>pid e pid' e'. ps pid = Some e \<longrightarrow> ps pid' = Some e' \<longrightarrow> pid \<noteq> pid' \<longrightarrow>
        allocatable (fac_config (pool_factory e)) \<inter> allocatable (fac_config (pool_factory e')) = {})"

definition manager_inv :: "ip_pool_manager \<Rightarrow> bool" where
  "manager_inv m \<longleftrightarrow> pools_ok (pools m) \<and> books_ok (allocations m) (pool_ips m) (vm_ips m)"

lemma manager_inv_new: "manager_inv ip_pool_manager_new"
  by (simp add: manager_inv_def ip_pool_manager_new_def pools_ok_def books_ok_def pool_ips_def vm_ips_def)

lemma books_add:
  assumes "books_ok al P V" and "al (al_ip a) = None"
  shows "books_ok (al(al_ip a \<mapsto> a)) (P(al_pool_id a := insert (al_ip a) (P (al_pool_id a))))
           (V(al_vm_id a := V (al_vm_id a) @ [al_ip a]))"
  using assms unfolding books_ok_def by (auto; metis option.distinct(1))

lemma books_remove:
  assumes "books_ok al P V" and "al ip = Some a" and "V (al_vm_id a) = ip # ips"
  shows "books_ok (al(ip := None)) (P(al_pool_id a := P (al_pool_id a) - {ip}))
           (V(al_vm_id a := ips))"
proof -
  have b: "al_ip a' = ip' \<and> ip' \<in> P (al_pool_id a') \<and> ip' \<in> set (V (al_vm_id a'))"
    if "al ip' = Some a'" for ip' a' using assms(1) that by (simp add: books_ok_def)
  have d: "distinct (V v)" for v using assms(1) by (simp add: books_ok_def)
  have v: "\<exists>a. al ip' = Some a \<and> al_vm_id a = v" if "ip' \<in> set (V v)" for ip' v
    using assms(1) that by (simp add: books_ok_def)
  have p: "\<exists>a. al ip' = Some a \<and> al_pool_id a = pid" if "ip' \<in> P pid" for ip' pid
    using assms(1) that by (simp add: books_ok_def)
  have dv: "distinct (ip # ips)" using d [of "al_vm_id a"] assms(3) by simp
  show ?thesis
    unfolding books_ok_def
  proof (intro conjI allI impI)
    fix ip' a' assume "(al(ip := None)) ip' = Some a'"
    then have a': "al ip' = Some a'" "ip' \<noteq> ip" by (auto split: if_splits)
    from b [OF a'(1)] a'(2) show "al_ip a' = ip'"
      and "ip' \<in> (P(al_pool_id a := P (al_pool_id a) - {ip})) (al_pool_id a')"
      and "ip' \<in> set ((V(al_vm_id a := ips)) (al_vm_id a'))"
      using assms(3) by auto
  next
    fix v show "distinct ((V(al_vm_id a := ips)) v)" using d dv by simp
  next
    fix v' ip' assume i: "ip' \<in> set ((V(al_vm_id a := ips)) v')"
    then have "ip' \<in> set (V v')" using assms(3) by (auto split: if_splits)
    moreover have "ip' \<noteq> ip"
    proof (cases "v' = al_vm_id a")
      case True
      then show ?thesis using i dv by auto
    next
      case False
      then show ?thesis using v [of ip v'] calculation assms(2) by auto
    qed
    ultimately show "\<exists>a. (al(ip := None)) ip' = Some a \<and> al_vm_id a = v'" using v by simp
  next
    fix pid ip' assume i: "ip' \<in> (P(al_pool_id a := P (al_pool_id a) - {ip})) pid"
    then have "ip' \<in> P pid" by (auto split: if_splits)
    moreover have "ip' \<noteq> ip" using i p [of ip pid] assms(2) by (auto split: if_splits)
    ultimately show "\<exists>a. (al(ip := None)) ip' = Some a \<and> al_pool_id a = pid" using p by simp
  qed
qed

text \<open>Replacing a pool by one with the same factory configuration keeps the pools well formed.\<close>

lemma pools_ok_update:
  assumes "pools_ok ps" and "ps pid = Some e" and "pool_inv e'"
    and "fac_config (pool_factory e') = fac_config (pool_factory e)"
  shows "pools_ok (ps(pid \<mapsto> e'))"
  using assms unfolding pools_ok_def by (auto; metis)

lemma pool_inv_admin:
  "pool_inv e \<Longrightarrow> pool_inv (e\<lparr>pool_state := (pool_state e)\<lparr>st_config := c\<rparr>\<rparr>)"
  "pool_inv e \<Longrightarrow> pool_inv (sync_state (e\<lparr>pool_state := (pool_state e)\<lparr>st_config := c\<rparr>\<rparr>))"
  "pool_factory (sync_state (e\<lparr>pool_state := (pool_state e)\<lparr>st_config := c\<rparr>\<rparr>)) = pool_factory e"
  by (auto simp: pool_inv_def sync_state_def split: option.splits)

lemma manager_inv_admin:
  assumes "manager_inv m" and "pools m pid = Some e" and "pool_inv e'"
    and "pool_factory e' = pool_factory e"
  shows "manager_inv (m\<lparr>pools := (pools m)(pid \<mapsto> e')\<rparr>)"
proof -
  have "pool_ips (m\<lparr>pools := (pools m)(pid \<mapsto> e')\<rparr>) = pool_ips m"
    using assms(2,4) by (auto simp: pool_ips_def fun_eq_iff)
  moreover have "vm_ips (m\<lparr>pools := (pools m)(pid \<mapsto> e')\<rparr>) = vm_ips m"
    by (auto simp: vm_ips_def fun_eq_iff)
  ultimately show ?thesis
    using assms pools_ok_update [of "pools m" pid e e'] by (simp add: manager_inv_def)
qed

lemma create_pool_inv:
  assumes "manager_inv m"
    and "\<And>pid e. pools m pid = Some e \<Longrightarrow> allocatable c \<inter> allocatable (fac_config (pool_factory e)) = {}"
  shows "manager_inv (snd (create_pool c m))"
proof -
  consider (unchanged) "snd (create_pool c m) = m"
    | (created) e where "ip_pool_validate c = Ok ()" "pools m (pool_id c) = None"
        "enhanced_new c = Ok e" "snd (create_pool c m) = m\<lparr>pools := (pools m)(pool_id c \<mapsto> e)\<rparr>"
    unfolding create_pool_def
    by (cases "ip_pool_validate c"; cases "pools m (pool_id c)"; cases "enhanced_new c") auto
  then show ?thesis
  proof cases
    case created
    have e: "pool_inv e" using enhanced_new_inv [OF created(1,3)] .
    have f: "fac_config (pool_factory e) = c" "fac_allocated (pool_factory e) = {}"
      using created(3) by (auto simp: enhanced_new_def from_existing_state_Ok ip_pool_state_new_def)
    have "pools_ok ((pools m)(pool_id c \<mapsto> e))"
      using assms e f(1) created(2) by (fastforce simp: pools_ok_def manager_inv_def)
    moreover have "pool_ips (m\<lparr>pools := (pools m)(pool_id c \<mapsto> e)\<rparr>) = pool_ips m"
      using created(2) f(2) by (auto simp: pool_ips_def fun_eq_iff)
    moreover have "vm_ips (m\<lparr>pools := (pools m)(pool_id c \<mapsto> e)\<rparr>) = vm_ips m"
      by (auto simp: vm_ips_def fun_eq_iff)
    ultimately show ?thesis using assms(1) created(4) by (simp add: manager_inv_def)
  qed (use assms(1) in simp)
qed

lemma delete_pool_inv:
  assumes "manager_inv m"
  shows "manager_inv (snd (delete_pool pid m))"
proof -
  consider (unchanged) "snd (delete_pool pid m) = m"
    | (deleted) e where "pools m pid = Some e" "st_allocated_ips (pool_state e) = {}"
        "snd (delete_pool pid m) = m\<lparr>pools := (pools m)(pid := None)\<rparr>"
    unfolding delete_pool_def
    by (cases "pools m pid"; cases "st_allocated_ips (pool_state (the (pools m pid))) = {}") auto
  then show ?thesis
  proof cases
    case deleted
    have "pool_inv e" using assms deleted(1) by (auto simp: manager_inv_def pools_ok_def)
    then have "fac_allocated (pool_factory e) = {}" using deleted(2) by (simp add: pool_inv_def)
    then have "pool_ips (m\<lparr>pools := (pools m)(pid := None)\<rparr>) = pool_ips m"
      using deleted(1) by (auto simp: pool_ips_def fun_eq_iff)
    moreover have "vm_ips (m\<lparr>pools := (pools m)(pid := None)\<rparr>) = vm_ips m"
      by (auto simp: vm_ips_def fun_eq_iff)
    moreover have "pools_ok ((pools m)(pid := None))"
      using assms by (auto simp: manager_inv_def pools_ok_def split: if_splits)
    ultimately show ?thesis using assms deleted(3) by (simp add: manager_inv_def)
  qed (use assms in simp)
qed

fun command_enabled :: "ip_pool_manager \<Rightarrow> ip_pool_command \<Rightarrow> bool" where
  "command_enabled m (CreatePool c) \<longleftrightarrow>
     (\<forall>pid e. pools m pid = Some e \<longrightarrow>
        allocatable c \<inter> allocatable (fac_config (pool_factory e)) = {})"
| "command_enabled m _ \<longleftrightarrow> True"

lemma process_command_inv:
  assumes "manager_inv m" and "command_enabled m cmd"
  shows "manager_inv (snd (process_command cmd m))"
proof -
  have e: "pool_inv e" if "pools m pid = Some e" for pid e
    using assms(1) that by (auto simp: manager_inv_def pools_ok_def)
  note admin = manager_inv_admin [OF assms(1)] pool_inv_admin
  show ?thesis
  proof (cases cmd)
    case (CreatePool c)
    then show ?thesis using create_pool_inv [OF assms(1)] assms(2) by simp
  next
    case (UpdatePool c)
    then show ?thesis
      using assms(1) e admin by (auto simp: update_pool_def split: outcome.splits option.splits)
  next
    case (DeletePool pid)
    then show ?thesis using delete_pool_inv [OF assms(1)] by simp
  next
    case (SetPoolEnabled pid b)
    then show ?thesis
      using assms(1) e admin by (auto simp: set_pool_enabled_def split: option.splits)
  next
    case (ReserveIps pid ips)
    then show ?thesis
      using assms(1) e admin by (auto simp: reserve_ips_def Let_def split: option.splits)
  next
    case (ReleaseReservedIps pid ips)
    then show ?thesis
      using assms(1) e admin by (auto simp: release_reserved_ips_def Let_def split: option.splits)
  qed
qed

section \<open>Allocation and release keep the invariant\<close>

lemma pool_ips_pools: "pools m pid = Some e \<Longrightarrow> pool_ips m pid = fac_allocated (pool_factory e)"
  by (simp add: pool_ips_def)

lemma pools_ok_disjoint:
  "pools_ok ps \<Longrightarrow> ps pid = Some e \<Longrightarrow> ps pid' = Some e' \<Longrightarrow>
     ip \<in> allocatable (fac_config (pool_factory e)) \<Longrightarrow>
     ip \<in> allocatable (fac_config (pool_factory e')) \<Longrightarrow> pid = pid'"
  unfolding pools_ok_def by blast

text \<open>An address a pool can still give is recorded for nobody.\<close>

lemma free_address_unrecorded:
  assumes "manager_inv m" and "pools m pid = Some e"
    and "ip \<in> allocatable (fac_config (pool_factory e))" and "ip \<notin> fac_allocated (pool_factory e)"
  shows "allocations m ip = None"
proof (rule ccontr)
  assume "allocations m ip \<noteq> None"
  then obtain a where "allocations m ip = Some a" by auto
  then have p: "ip \<in> pool_ips m (al_pool_id a)"
    using assms(1) by (auto simp: manager_inv_def books_ok_def)
  then obtain e' where e': "pools m (al_pool_id a) = Some e'" "ip \<in> fac_allocated (pool_factory e')"
    by (auto simp: pool_ips_def split: option.splits)
  then have "ip \<in> allocatable (fac_config (pool_factory e'))"
    using assms(1) by (auto simp: manager_inv_def pools_ok_def pool_inv_def)
  then have "al_pool_id a = pid"
    using pools_ok_disjoint [OF _ e'(1) assms(2)] assms(1,3) by (simp add: manager_inv_def)
  with assms(2,4) e' show False by simp
qed

text \<open>Allocating from a pool either changes nothing or records one free address of the pool.\<close>

lemma allocate_from_cases:
  assumes "manager_inv m" and "allocate_from E request pid m = (x, m')"
  shows "(\<exists>res e. x = Ok res \<and> pools m pid = Some e \<and>
            al_ip (res_allocation res) \<in> allocatable (fac_config (pool_factory e)) \<and>
            al_pool_id (res_allocation res) = pid \<and>
            al_vm_id (res_allocation res) = ar_vm_id request \<and>
            allocations m (al_ip (res_allocation res)) = None \<and>
            m' = record_allocation (res_allocation res)
                   (m\<lparr>pools := (pools m)(pid \<mapsto> pool_charge (al_ip (res_allocation res)) (ae_now E) e)\<rparr>))
         \<or> ((\<exists>err. x = Err err) \<and> m' = m)"
proof (cases "pools m pid")
  case None
  then show ?thesis using assms(2) by (auto simp: allocate_from_def)
next
  case (Some e)
  have inv: "pool_inv e" using assms(1) Some by (auto simp: manager_inv_def pools_ok_def)
  obtain y e' where a: "enhanced_allocate_ip (ae_sem E) (ae_now E) e = (y, e')" by force
  from enhanced_allocate_cases [OF inv a] show ?thesis
  proof (elim disjE exE conjE)
    fix r assume y: "y = Ok r"
      and f: "List.find (ip_free (fac_config (pool_factory e)) (fac_allocated (pool_factory e)))
        (scan_range (fac_config (pool_factory e))) = Some (addr_ip r)"
      and e': "e' = pool_charge (addr_ip r) (ae_now E) e"
    have v: "ip_pool_validate (fac_config (pool_factory e)) = Ok ()"
      using inv by (simp add: pool_inv_def)
    note ip = find_allocatable [OF v f]
    have "allocations m (addr_ip r) = None"
      using free_address_unrecorded [OF assms(1) Some ip] .
    then show ?thesis
      using assms(2) Some a y e' ip by (simp add: allocate_from_def Let_def)
        (fastforce simp: record_allocation_def)
  next
    fix err assume "y = Err err" "e' = e"
    then show ?thesis
      using assms(2) Some a by (auto simp: allocate_from_def Let_def fun_upd_idem)
  qed
qed

lemma record_charge_inv:
  assumes "manager_inv m" and "pools m (al_pool_id a) = Some e"
    and "al_ip a \<in> allocatable (fac_config (pool_factory e))" and "allocations m (al_ip a) = None"
  shows "manager_inv (record_allocation a
           (m\<lparr>pools := (pools m)(al_pool_id a \<mapsto> pool_charge (al_ip a) now_secs e)\<rparr>))"
    (is "manager_inv ?m")
proof -
  have e: "pool_inv e" using assms(1,2) by (auto simp: manager_inv_def pools_ok_def)
  have "pools_ok ((pools m)(al_pool_id a \<mapsto> pool_charge (al_ip a) now_secs e))"
    using assms(1,2) pool_inv_charge [OF e assms(3)]
    by (intro pools_ok_update) (auto simp: manager_inv_def pool_charge_def)
  moreover have "pool_ips ?m =
      (pool_ips m)(al_pool_id a := insert (al_ip a) (pool_ips m (al_pool_id a)))"
    using assms(2) by (auto simp: pool_ips_def fun_eq_iff record_allocation_def pool_charge_def)
  moreover have "vm_ips ?m = (vm_ips m)(al_vm_id a := vm_ips m (al_vm_id a) @ [al_ip a])"
    by (auto simp: vm_ips_def fun_eq_iff record_allocation_def)
  moreover have "allocations ?m = (allocations m)(al_ip a \<mapsto> a)"
    by (simp add: record_allocation_def)
  ultimately show ?thesis
    using books_add [of "allocations m" "pool_ips m" "vm_ips m" a] assms(1,4)
    by (simp add: manager_inv_def record_allocation_def)
qed

lemma allocate_from_inv:
  assumes "manager_inv m" and "allocate_from E request pid m = (x, m')"
  shows "manager_inv m'"
  using allocate_from_cases [OF assms] assms(1) record_charge_inv by fastforce

lemma allocate_select_frame:
  assumes "allocate_select E request m = (x, m')"
  shows "pools m' = pools m" "allocations m' = allocations m" "vm_allocations m' = vm_allocations m"
  using assms
  by (auto simp: allocate_select_def select_pool_def Let_def
      split: option.splits if_splits ip_pool_selection_strategy.splits outcome.splits)

lemma manager_inv_frame:
  "pools m' = pools m \<Longrightarrow> allocations m' = allocations m \<Longrightarrow> vm_allocations m' = vm_allocations m \<Longrightarrow>
     manager_inv m' = manager_inv m"
  by (simp add: manager_inv_def pool_ips_def [abs_def] vm_ips_def [abs_def])

lemma allocate_ip_inv:
  assumes "manager_inv m"
  shows "manager_inv (snd (allocate_ip E request m))"
proof -
  obtain x m1 where s: "allocate_select E request m = (x, m1)" by force
  have "manager_inv m1" using manager_inv_frame allocate_select_frame [OF s] assms by blast
  then show ?thesis
    using allocate_from_inv [of m1 E request, OF _ surjective_pairing]
    by (cases x) (simp_all add: allocate_ip_def s)
qed

lemma release_loop_spec:
  assumes "pools_ok (pools m)" and "books_ok (allocations m) (pool_ips m) (V(v := ips))"
  shows "\<exists>m'. release_loop ips m = (Ok (), m') \<and> pools_ok (pools m') \<and>
           books_ok (allocations m') (pool_ips m') (V(v := [])) \<and>
           vm_allocations m' = vm_allocations m \<and>
           (\<forall>ip. allocations m' ip = (if ip \<in> set ips then None else allocations m ip))"
  using assms
proof (induction ips arbitrary: m)
  case (Cons ip ips)
  have "ip \<in> set ((V(v := ip # ips)) v)" by simp
  then obtain a where a: "allocations m ip = Some a" "al_vm_id a = v"
    using Cons.prems(2) unfolding books_ok_def by blast
  then have "ip \<in> pool_ips m (al_pool_id a)" using Cons.prems(2) by (simp add: books_ok_def)
  then obtain e where e: "pools m (al_pool_id a) = Some e"
    by (auto simp: pool_ips_def split: option.splits)
  have inv: "pool_inv e" using Cons.prems(1) e by (auto simp: pools_ok_def)
  obtain x e' where r: "enhanced_release_ip ip e = (x, e')" by force
  note re = pool_inv_release [OF inv r]
  let ?m = "m\<lparr>allocations := (allocations m)(ip := None),
              pools := (pools m)(al_pool_id a \<mapsto> e')\<rparr>"
  have p: "pools_ok (pools ?m)"
    using pools_ok_update [OF Cons.prems(1) e re(2,3)] by simp
  have "(V(v := ip # ips)) (al_vm_id a) = ip # ips" using a(2) by simp
  from books_remove [OF Cons.prems(2) a(1) this]
  have "books_ok ((allocations m)(ip := None))
      ((pool_ips m)(al_pool_id a := pool_ips m (al_pool_id a) - {ip})) (V(v := ips))"
    unfolding a(2) fun_upd_upd .
  moreover have "pool_ips ?m = (pool_ips m)(al_pool_id a := pool_ips m (al_pool_id a) - {ip})"
    using e re(4) by (auto simp: pool_ips_def fun_eq_iff)
  moreover have am: "allocations ?m = (allocations m)(ip := None)" by simp
  ultimately have b: "books_ok (allocations ?m) (pool_ips ?m) (V(v := ips))" by (simp only:)
  have vm: "vm_allocations ?m = vm_allocations m" by simp
  obtain m' where m': "release_loop ips ?m = (Ok (), m')" "pools_ok (pools m')"
    "books_ok (allocations m') (pool_ips m') (V(v := []))" "vm_allocations m' = vm_allocations m"
    "\<forall>ip'. allocations m' ip' = (if ip' \<in> set ips then None else ((allocations m)(ip := None)) ip')"
    using Cons.IH [OF p b] unfolding vm am by blast
  have "release_loop (ip # ips) m = release_loop ips ?m"
    using a e r re(1) by (simp add: Let_def)
  then have "release_loop (ip # ips) m = (Ok (), m')" using m'(1) by (simp only:)
  moreover have "\<forall>ip'. allocations m' ip' = (if ip' \<in> set (ip # ips) then None else allocations m ip')"
    using m'(5) by auto
  ultimately show ?case using m'(2,3,4) by blast
qed simp

lemma release_vm_ips_spec:
  assumes "manager_inv m"
  shows "\<exists>m'. release_vm_ips v m = (Ok (), m') \<and> manager_inv m' \<and> vm_allocations m' v = None \<and>
           (\<forall>v'. v' \<noteq> v \<longrightarrow> vm_allocations m' v' = vm_allocations m v') \<and>
           (\<forall>ip. allocations m' ip = (if ip \<in> set (vm_ips m v) then None else allocations m ip))"
proof (cases "vm_allocations m v")
  case None
  then show ?thesis using assms by (simp add: release_vm_ips_def vm_ips_def)
next
  case (Some ips)
  let ?m = "m\<lparr>vm_allocations := (vm_allocations m)(v := None)\<rparr>"
  have V: "vm_ips m = (vm_ips m)(v := ips)" using Some by (auto simp: vm_ips_def fun_eq_iff)
  have "pools_ok (pools ?m)" "books_ok (allocations ?m) (pool_ips ?m) ((vm_ips m)(v := ips))"
    using assms V by (simp_all add: manager_inv_def pool_ips_def [abs_def])
  from release_loop_spec [OF this] obtain m' where m': "release_loop ips ?m = (Ok (), m')"
    "pools_ok (pools m')" "books_ok (allocations m') (pool_ips m') ((vm_ips m)(v := []))"
    "vm_allocations m' = (vm_allocations m)(v := None)"
    "\<forall>ip. allocations m' ip = (if ip \<in> set ips then None else allocations m ip)"
    by auto
  have "vm_ips m' = (vm_ips m)(v := [])" using m'(4) by (auto simp: vm_ips_def fun_eq_iff)
  then have "manager_inv m'" using m'(2,3) by (simp add: manager_inv_def)
  then show ?thesis using m' Some by (auto simp: release_vm_ips_def vm_ips_def)
qed

section \<open>The manager as a machine\<close>

datatype manager_event =
    Command ip_pool_command
  | Allocate alloc_env ip_allocation_request
  | ReleaseVm vm_id

fun manager_step :: "ip_pool_manager \<Rightarrow> manager_event \<Rightarrow> ip_pool_manager" where
  "manager_step m (Command cmd) = snd (process_command cmd m)"
| "manager_step m (Allocate E request) = snd (allocate_ip E request m)"
| "manager_step m (ReleaseVm v) = snd (release_vm_ips v m)"

text \<open>New pools do not overlap the pools there are.\<close>

fun manager_enabled :: "ip_pool_manager \<Rightarrow> manager_event \<Rightarrow> bool" where
  "manager_enabled m (Command cmd) \<longleftrightarrow> command_enabled m cmd"
| "manager_enabled m _ \<longleftrightarrow> True"

lemma manager_step_inv:
  assumes "manager_inv m" and "manager_enabled m ev"
  shows "manager_inv (manager_step m ev)"
proof (cases ev)
  case (ReleaseVm v)
  then show ?thesis using release_vm_ips_spec [OF assms(1), of v] by auto
qed (use assms process_command_inv allocate_ip_inv in auto)

interpretation manager: event_machine manager_step manager_enabled manager_inv
  by unfold_locales (rule manager_step_inv)

lemma vm_ips_recorded:
  "manager_inv m \<Longrightarrow> ip \<in> set (vm_ips m v) \<Longrightarrow> \<exists>a. allocations m ip = Some a \<and> al_vm_id a = v"
  unfolding manager_inv_def books_ok_def by blast

lemma vm_ips_unique:
  "manager_inv m \<Longrightarrow> ip \<in> set (vm_ips m v) \<Longrightarrow> ip \<in> set (vm_ips m v') \<Longrightarrow> v = v'"
  using vm_ips_recorded [of m ip v] vm_ips_recorded [of m ip v'] by auto

lemma allocate_ip_dom:
  assumes "manager_inv m"
  shows "dom (pools (snd (allocate_ip E request m))) = dom (pools m)"
proof -
  obtain x m1 where s: "allocate_select E request m = (x, m1)" by force
  note fr = allocate_select_frame [OF s]
  have inv: "manager_inv m1" using manager_inv_frame fr assms by blast
  have "dom (pools (snd (allocate_from E request pid m1))) = dom (pools m1)" for pid
    using allocate_from_cases [OF inv surjective_pairing, of E request pid]
    by (auto simp: record_allocation_def split: if_splits)
  then show ?thesis using fr(1) by (cases x) (simp_all add: allocate_ip_def s)
qed

lemma allocate_ip_fresh:
  assumes "manager_inv m" and "allocate_ip E request m = (Ok res, m')"
  shows "allocations m (al_ip (res_allocation res)) = None"
    and "allocations m' (al_ip (res_allocation res)) = Some (res_allocation res)"
    and "al_ip (res_allocation res) \<in> set (vm_ips m' (ar_vm_id request))"
proof -
  obtain x m1 where s: "allocate_select E request m = (x, m1)" by force
  note fr = allocate_select_frame [OF s]
  have inv: "manager_inv m1" using manager_inv_frame fr assms(1) by blast
  obtain pid where "x = Ok pid" and a: "allocate_from E request pid m1 = (Ok res, m')"
    using assms(2) s by (cases x) (auto simp: allocate_ip_def)
  from allocate_from_cases [OF inv a] show "allocations m (al_ip (res_allocation res)) = None"
    and "allocations m' (al_ip (res_allocation res)) = Some (res_allocation res)"
    and "al_ip (res_allocation res) \<in> set (vm_ips m' (ar_vm_id request))"
    using fr(2) by (auto simp: record_allocation_def vm_ips_def)
qed

text \<open>What a pool counts as allocated is what is recorded for it, so releasing a VM frees its addresses there.\<close>

lemma pool_ips_recorded:
  assumes "manager_inv m"
  shows "ip \<in> pool_ips m pid \<longleftrightarrow> (\<exists>a. allocations m ip = Some a \<and> al_pool_id a = pid)"
  using assms unfolding manager_inv_def books_ok_def by blast

lemma release_loop_dom: "release_loop ips m = (Ok (), m') \<Longrightarrow> dom (pools m') = dom (pools m)"
proof (induction ips arbitrary: m)
  case (Cons ip ips)
  show ?case
  proof (cases "allocations m ip")
    case None
    then show ?thesis using Cons by simp
  next
    case (Some a)
    show ?thesis
    proof (cases "pools m (al_pool_id a)")
      case None
      with Some Cons.prems have "release_loop ips (m\<lparr>allocations := (allocations m)(ip := None)\<rparr>) = (Ok (), m')"
        by simp
      from Cons.IH [OF this] show ?thesis by simp
    next
      case e: (Some e)
      obtain x e' where r: "enhanced_release_ip ip e = (x, e')" by force
      have "release_loop ips (m\<lparr>allocations := (allocations m)(ip := None),
          pools := (pools m)(al_pool_id a \<mapsto> e')\<rparr>) = (Ok (), m')"
        using Some e r Cons.prems by (simp add: Let_def split: outcome.splits)
      from Cons.IH [OF this] e show ?thesis by (auto split: if_splits)
    qed
  qed
qed simp

lemma release_frees_pools:
  assumes inv: "manager_inv m" and r: "release_vm_ips v m = (Ok (), m')"
  shows "\<forall>pid e. pools m pid = Some e \<longrightarrow>
    (\<exists>e'. pools m' pid = Some e' \<and>
       fac_allocated (pool_factory e') = fac_allocated (pool_factory e) - set (vm_ips m v) \<and>
       st_allocated_ips (pool_state e') = st_allocated_ips (pool_state e) - set (vm_ips m v))"
proof (intro allI impI)
  fix pid e
  assume e: "pools m pid = Some e"
  have spec: "manager_inv m'" "\<forall>ip. allocations m' ip = (if ip \<in> set (vm_ips m v) then None else allocations m ip)"
    using release_vm_ips_spec [OF inv, of v] r by auto
  have "dom (pools m') = dom (pools m)"
    using r release_loop_dom by (fastforce simp: release_vm_ips_def split: option.splits)
  then obtain e' where e': "pools m' pid = Some e'" using e by blast
  have "pool_ips m' pid = pool_ips m pid - set (vm_ips m v)"
    using pool_ips_recorded [OF spec(1), of _ pid] pool_ips_recorded [OF inv, of _ pid] spec(2)
    by (auto split: if_splits)
  then have "fac_allocated (pool_factory e') = fac_allocated (pool_factory e) - set (vm_ips m v)"
    using e e' by (simp add: pool_ips_pools)
  moreover have "pool_inv e" "pool_inv e'"
    using inv spec(1) e e' by (auto simp: manager_inv_def pools_ok_def)
  ultimately show "\<exists>e'. pools m' pid = Some e' \<and>
       fac_allocated (pool_factory e') = fac_allocated (pool_factory e) - set (vm_ips m v) \<and>
       st_allocated_ips (pool_state e') = st_allocated_ips (pool_state e) - set (vm_ips m v)"
    using e' by (auto simp: pool_inv_def)
qed

section \<open>Properties of the manager\<close>

text \<open>
  C3. As long as pools with overlapping ranges are not created, an address belongs to one VM at a
  time: in every state reached from the empty manager by pool commands, allocations (with any
  strategy, hash order, random choice and semaphore behaviour) and releases, the lists of two VMs
  are disjoint, and a successful allocation returns an address that nobody had and records it for
  the requesting VM.
\<close>

theorem addresses_exclusive:
  assumes "reach manager_step manager_enabled ip_pool_manager_new m"
  shows "(v \<noteq> v' \<longrightarrow> set (vm_ips m v) \<inter> set (vm_ips m v') = {}) \<and>
         (\<forall>res m'. allocate_ip E request m = (Ok res, m') \<longrightarrow>
            allocations m (al_ip (res_allocation res)) = None \<and>
            al_ip (res_allocation res) \<notin> set (vm_ips m v) \<and>
            al_ip (res_allocation res) \<in> set (vm_ips m' (ar_vm_id request)))"
proof -
  have inv: "manager_inv m"
    using manager.reach_inv [OF assms manager_inv_new] .
  have "set (vm_ips m v) \<inter> set (vm_ips m v') = {}" if "v \<noteq> v'"
    using that vm_ips_unique [OF inv] by blast
  moreover have "al_ip (res_allocation res) \<notin> set (vm_ips m v)"
    if "allocate_ip E request m = (Ok res, m')" for res m'
    using allocate_ip_fresh(1) [OF inv that] vm_ips_recorded [OF inv] by force
  ultimately show ?thesis using allocate_ip_fresh [OF inv] by blast
qed

definition sample_env :: alloc_env where
  "sample_env =
     \<lparr>ae_order = [1], ae_choose = hd, ae_rnd = (\<lambda>x. x),
      ae_sem = (\<lambda>n. if n = 0 then TimedOut else Granted), ae_now = 100\<rparr>"

definition sample_request :: "vm_id \<Rightarrow> ip_allocation_request" where
  "sample_request v =
     \<lparr>ar_vm_id = v, ar_preferred_pool = Some 1, ar_required_tags = [], ar_topology_hint = None,
      ar_selection_strategy = LeastUtilized, ar_mac_address = ''02:00:00:00:00:01''\<rparr>"

definition sample_manager :: ip_pool_manager where
  "sample_manager = manager_step ip_pool_manager_new (Command (CreatePool sample_pool))"

lemma sample_manager_reach: "reach manager_step manager_enabled ip_pool_manager_new sample_manager"
  unfolding sample_manager_def
  by (rule reach_step [OF reach_refl]) (simp add: ip_pool_manager_new_def)

lemma sample_manager_pools:
  "pools sample_manager 1 = Some
     \<lparr>pool_state = ip_pool_state_new sample_pool,
      resource_pool = Some \<lparr>available = [], permits = 3,
        pool_config = ip_resource_pool_config sample_pool, total_created = 0\<rparr>,
      pool_factory = \<lparr>fac_config = sample_pool, fac_allocated = {}, fac_poisoned = False\<rparr>\<rparr>"
proof -
  have "pool_id sample_pool = 1" by (simp add: sample_pool_def)
  then show ?thesis
    by (simp add: sample_manager_def create_pool_def sample_pool_valid sample_pool_new
        ip_pool_manager_new_def)
qed

lemma sample_allocate:
  "\<exists>res m'. allocate_ip sample_env (sample_request v) sample_manager = (Ok res, m') \<and>
     al_ip (res_allocation res) = V4 258"
proof -
  have "ip_resource_pool_config sample_pool =
      \<lparr>max_size = 3, min_size = 0, acquire_timeout = 30 * 1000000000, validate_on_acquire = True,
       reset_on_acquire = False\<rparr>"
    by (simp add: ip_resource_pool_config_def sample_pool_capacity)
  moreover have "pool_enabled_flag sample_pool" by (simp add: sample_pool_def)
  moreover have "pool_id sample_pool = 1" by (simp add: sample_pool_def)
  ultimately show ?thesis
    by (simp add: allocate_ip_def allocate_select_def allocate_from_def sample_request_def
        sample_env_def sample_manager_pools enhanced_has_capacity_def pool_stats_of_def
        ip_pool_state_new_def enhanced_allocate_ip_def acquire_with_timeout_def pop_or_create_def
        ip_address_factory_def create_cases sample_pool_find revalidate_def guard_take_def Let_def)
qed

theorem addresses_exclusive_witness:
  "\<exists>res m'. allocate_ip sample_env (sample_request [1]) sample_manager = (Ok res, m') \<and>
     allocations sample_manager (al_ip (res_allocation res)) = None \<and>
     al_ip (res_allocation res) \<in> set (vm_ips m' (ar_vm_id (sample_request [1])))"
proof -
  obtain res m' where r: "allocate_ip sample_env (sample_request [1]) sample_manager = (Ok res, m')"
    using sample_allocate by blast
  then show ?thesis
    using addresses_exclusive [OF sample_manager_reach, of "[1]" "[2]" sample_env "sample_request [1]"]
    by blast
qed

text \<open>
  C20. Releasing a VM succeeds and frees exactly its addresses. As long as pools with overlapping ranges
  are not created, in every state reached from the empty manager \<open>release_vm_ips\<close> returns success, the VM
  has no allocations afterwards, every address it had is unrecorded, every pool counts as allocated
  what it counted before without these addresses (both in its state and in the set its factory
  searches), and the allocations of every other VM are as before.
\<close>

theorem release_frees_exactly:
  assumes "reach manager_step manager_enabled ip_pool_manager_new m"
  shows "fst (release_vm_ips v m) = Ok () \<and>
         get_vm_allocations v (snd (release_vm_ips v m)) = [] \<and>
         (\<forall>ip \<in> set (vm_ips m v). allocations (snd (release_vm_ips v m)) ip = None) \<and>
         (\<forall>pid e. pools m pid = Some e \<longrightarrow>
            (\<exists>e'. pools (snd (release_vm_ips v m)) pid = Some e' \<and>
               fac_allocated (pool_factory e') = fac_allocated (pool_factory e) - set (vm_ips m v) \<and>
               st_allocated_ips (pool_state e') = st_allocated_ips (pool_state e) - set (vm_ips m v))) \<and>
         (v' \<noteq> v \<longrightarrow>
            get_vm_allocations v' (snd (release_vm_ips v m)) = get_vm_allocations v' m)"
proof -
  have inv: "manager_inv m" using manager.reach_inv [OF assms manager_inv_new] .
  obtain m' where m': "release_vm_ips v m = (Ok (), m')" "vm_allocations m' v = None"
    "\<forall>v'. v' \<noteq> v \<longrightarrow> vm_allocations m' v' = vm_allocations m v'"
    "\<forall>ip. allocations m' ip = (if ip \<in> set (vm_ips m v) then None else allocations m ip)"
    using release_vm_ips_spec [OF inv] by blast
  have "get_vm_allocations v' m' = get_vm_allocations v' m" if "v' \<noteq> v"
  proof (cases "vm_allocations m v'")
    case (Some ips)
    have "allocations m' ip = allocations m ip" if "ip \<in> set ips" for ip
      using m'(4) that Some vm_ips_unique [OF inv, of ip v v'] \<open>v' \<noteq> v\<close> by (auto simp: vm_ips_def)
    then have "List.map_filter (allocations m') ips = List.map_filter (allocations m) ips"
      by (simp add: List.map_filter_def cong: map_cong filter_cong)
    then show ?thesis using Some m'(3) that by (simp add: get_vm_allocations_def)
  qed (use m'(3) that in \<open>simp add: get_vm_allocations_def\<close>)
  moreover note release_frees_pools [OF inv m'(1)]
  ultimately show ?thesis using m' by (simp add: get_vm_allocations_def)
qed

theorem release_frees_exactly_witness:
  "let m = manager_step sample_manager (Allocate sample_env (sample_request [1]));
       m' = snd (release_vm_ips [1] m)
   in V4 258 \<in> set (vm_ips m [1]) \<and> get_vm_allocations [1] m' = [] \<and>
      (\<exists>e'. pools m' 1 = Some e' \<and> V4 258 \<notin> fac_allocated (pool_factory e'))"
proof -
  let ?m = "manager_step sample_manager (Allocate sample_env (sample_request [1]))"
  have r: "reach manager_step manager_enabled ip_pool_manager_new ?m"
    by (rule reach_step [OF sample_manager_reach]) simp
  obtain res m1 where a: "allocate_ip sample_env (sample_request [1]) sample_manager = (Ok res, m1)"
    "al_ip (res_allocation res) = V4 258" using sample_allocate by blast
  have inv: "manager_inv sample_manager" using manager.reach_inv [OF sample_manager_reach manager_inv_new] .
  have vm: "V4 258 \<in> set (vm_ips ?m [1])"
    using allocate_ip_fresh(3) [OF inv a(1)] a by (simp add: sample_request_def)
  have "dom (pools ?m) = dom (pools sample_manager)" by (simp add: allocate_ip_dom [OF inv])
  then obtain e where e: "pools ?m 1 = Some e" using sample_manager_pools by blast
  obtain e' where "get_vm_allocations [1] (snd (release_vm_ips [1] ?m)) = []"
    "pools (snd (release_vm_ips [1] ?m)) 1 = Some e'"
    "fac_allocated (pool_factory e') = fac_allocated (pool_factory e) - set (vm_ips ?m [1])"
    using release_frees_exactly [OF r, of "[1]" "[2]"] e by blast
  then show ?thesis using vm by (simp add: Let_def)
qed

text \<open>
  Reservations do not reach the allocator: the factory scans the configuration it copied when the
  pool was created, so after reserving addresses the pool hands out exactly the address it would
  have handed out before, even when that address has just been reserved.
\<close>

theorem reservation_ignored:
  assumes "process_command (ReserveIps pid {ip}) m = (Ok (), m')"
    and "allocate_from E request pid m = (Ok res, m1)" and "al_ip (res_allocation res) = ip"
  shows "\<exists>m2. allocate_from E request pid m' = (Ok res, m2) \<and>
           (\<exists>e. pools m' pid = Some e \<and> ip \<in> reserved_ips (st_config (pool_state e)))"
proof -
  obtain e where e: "pools m pid = Some e" using assms(2)
    by (auto simp: allocate_from_def split: option.splits)
  let ?e = "e\<lparr>pool_state := (pool_state e)\<lparr>st_config := (st_config (pool_state e))
      \<lparr>reserved_ips := reserved_ips (st_config (pool_state e)) \<union> {ip}\<rparr>\<rparr>\<rparr>"
  have m': "m' = m\<lparr>pools := (pools m)(pid \<mapsto> ?e)\<rparr>"
    using assms(1) e by (auto simp: reserve_ips_def Let_def split: if_splits)
  show ?thesis
    using assms(2) e
    by (auto simp: m' allocate_from_def enhanced_allocate_ip_def Let_def
        split: option.splits prod.splits outcome.splits)
qed

theorem reservation_ignored_witness:
  "\<exists>res m2 e. allocate_from sample_env (sample_request [1]) 1
      (snd (process_command (ReserveIps 1 {V4 258}) sample_manager)) = (Ok res, m2) \<and>
     al_ip (res_allocation res) = V4 258 \<and>
     pools (snd (process_command (ReserveIps 1 {V4 258}) sample_manager)) 1 = Some e \<and>
     V4 258 \<in> reserved_ips (st_config (pool_state e))"
proof -
  have "allocate_select sample_env (sample_request [1]) sample_manager = (Ok 1, sample_manager)"
    using sample_allocate [of "[1]"]
    by (auto simp: allocate_ip_def allocate_select_def sample_request_def sample_manager_pools
        split: if_splits)
  then obtain res m1 where a: "allocate_from sample_env (sample_request [1]) 1 sample_manager = (Ok res, m1)"
    "al_ip (res_allocation res) = V4 258"
    using sample_allocate [of "[1]"] by (auto simp: allocate_ip_def)
  have r: "fst (process_command (ReserveIps 1 {V4 258}) sample_manager) = Ok ()"
    by (simp add: reserve_ips_def sample_manager_pools ip_pool_state_new_def)
      (simp add: sample_pool_def)
  have "process_command (ReserveIps 1 {V4 258}) sample_manager =
      (Ok (), snd (process_command (ReserveIps 1 {V4 258}) sample_manager))"
    using r by (metis prod.collapse)
  from reservation_ignored [OF this a] a(2) show ?thesis by blast
qed

end
