(* ===== verification/State_Machine.thy ===== *)
theory State_Machine
  imports Raft_Storage Proposals Ip_Pool_Manager
begin

text \<open>
  The replicated state machine (\<open>raft/state_machine.rs\<close>): \<open>apply_entry\<close> decodes the proposal of a
  committed log entry and applies it to the database in a write transaction, and to the IP pool
  manager and the quota manager held in memory. The store, the serializers and the printing of
  UUIDs are arguments; what the environment decides during an entry (the clock, the choices of the
  allocator, the tokio context) is an argument per applied proposal.
\<close>

section \<open>Environment\<close>

text \<open>
  The serializers (bincode) of the stored types, and the textual form of a UUID. The encoding of an
  enum starts with the index of its variant, so no proposal is encoded by the empty string.
\<close>

record codec =
  c_proposal :: "proposal_data serde"
  c_task_spec :: "task_spec serde"
  c_task_result :: "task_result serde"
  c_worker :: "(string \<times> worker_capabilities) serde"
  c_topology :: "node_topology serde"
  c_vm_state :: "vm_state serde"
  c_quota :: "tenant_quota serde"
  c_usage :: "tenant_usage serde"
  c_ip_allocation :: "ip_allocation serde"
  c_ips :: "ip_addr list serde"
  c_uuid :: "vm_id \<Rightarrow> string"

definition codec_ok :: "codec \<Rightarrow> bool" where
  "codec_ok C \<longleftrightarrow>
     serde_ok (c_proposal C) \<and> serde_ok (c_task_spec C) \<and> serde_ok (c_task_result C) \<and>
     serde_ok (c_worker C) \<and> serde_ok (c_topology C) \<and> serde_ok (c_vm_state C) \<and>
     serde_ok (c_quota C) \<and> serde_ok (c_usage C) \<and> serde_ok (c_ip_allocation C) \<and>
     serde_ok (c_ips C) \<and> (\<forall>p. enc (c_proposal C) p \<noteq> Some [])"

text \<open>
  \<open>Handle::try_current\<close> fails when no tokio runtime is entered; \<open>Handle::block_on\<close> panics when it is
  called from asynchronous code that the runtime is driving.
\<close>

datatype runtime = NoRuntime | Entered | InAsync

record sm_env =
  e_runtime :: runtime
  e_now :: time
  e_alloc :: alloc_env
  e_rnd32 :: "real \<Rightarrow> real"

text \<open>
  The state machine: the database, whether an admission controller is configured, the IP pool
  manager, and what the weak reference to the shared node state leads to (nothing when the node
  state is gone, no quota manager, or a quota manager, whose storage is the same database).
\<close>

record 'd state_machine =
  sm_database :: 'd
  sm_admission :: bool
  sm_ip_pools :: ip_pool_manager
  sm_shared :: "'d quota_manager option option"

definition state_machine_new :: "'d \<Rightarrow> 'd quota_manager option option \<Rightarrow> 'd state_machine" where
  "state_machine_new d shared =
     \<lparr>sm_database = d, sm_admission = False, sm_ip_pools = ip_pool_manager_new, sm_shared = shared\<rparr>"

definition configure_admission_controller :: "'d state_machine \<Rightarrow> 'd state_machine" where
  "configure_admission_controller sm = sm\<lparr>sm_admission := True\<rparr>"

text \<open>A handler that only works on its transaction.\<close>

definition on_db ::
  "('d \<Rightarrow> unit outcome \<times> 'd) \<Rightarrow> 'd state_machine \<Rightarrow> unit outcome \<times> 'd state_machine" where
  "on_db f sm = (case f (sm_database sm) of (r, d) \<Rightarrow> (r, sm\<lparr>sm_database := d\<rparr>))"

text \<open>
  The tail of the quota handlers: tell the quota manager, if there is one and a runtime to block on;
  its result is ignored.
\<close>

definition tell_quota_manager ::
  "runtime \<Rightarrow> ('d quota_manager \<Rightarrow> unit outcome \<times> 'd quota_manager) \<Rightarrow> 'd state_machine \<Rightarrow>
     unit outcome \<times> 'd state_machine" where
  "tell_quota_manager rt f sm =
     (case (sm_shared sm, rt) of
        (None, _) \<Rightarrow> (Ok (), sm)
      | (Some _, NoRuntime) \<Rightarrow> (Ok (), sm)
      | (Some _, InAsync) \<Rightarrow> (Panics, sm)
      | (Some None, Entered) \<Rightarrow> (Ok (), sm)
      | (Some (Some qm), Entered) \<Rightarrow>
          let qm = snd (f (qm\<lparr>storage := sm_database sm\<rparr>))
          in (Ok (), sm\<lparr>sm_database := storage qm, sm_shared := Some (Some qm)\<rparr>))"

section \<open>Tasks\<close>

definition apply_assign_task ::
  "('d, 't, 'r) redb \<Rightarrow> codec \<Rightarrow> 't \<Rightarrow> string \<Rightarrow> u64 \<Rightarrow> task_spec \<Rightarrow> 'd \<Rightarrow> unit outcome \<times> 'd" where
  "apply_assign_task R C t task_id node_id task =
     in_txn R ''commit assign task''
       (obind (tx_open R TASK_TABLE t) (\<lambda>t.
        obind (serialize_context ''task spec'' (enc (c_task_spec C) task)) (\<lambda>task_data.
        obind (tx_insert R TASK_TABLE (Str task_id) task_data t) (\<lambda>t.
        obind (tx_open R TASK_ASSIGNMENT_TABLE t)
          (tx_insert R TASK_ASSIGNMENT_TABLE (Str task_id) (u64_to_le_bytes node_id))))))"

definition apply_complete_task ::
  "('d, 't, 'r) redb \<Rightarrow> codec \<Rightarrow> 't \<Rightarrow> string \<Rightarrow> task_result \<Rightarrow> 'd \<Rightarrow> unit outcome \<times> 'd" where
  "apply_complete_task R C t task_id result =
     in_txn R ''commit complete task''
       (obind (tx_open R TASK_RESULT_TABLE t) (\<lambda>t.
        obind (serialize_context ''task result'' (enc (c_task_result C) result)) (\<lambda>result_data.
        obind (tx_insert R TASK_RESULT_TABLE (Str task_id) result_data t) (\<lambda>t.
        obind (tx_open R TASK_ASSIGNMENT_TABLE t)
          (tx_remove R TASK_ASSIGNMENT_TABLE (Str task_id))))))"

definition apply_reassign_task ::
  "('d, 't, 'r) redb \<Rightarrow> 't \<Rightarrow> string \<Rightarrow> u64 \<Rightarrow> 'd \<Rightarrow> unit outcome \<times> 'd" where
  "apply_reassign_task R t task_id to_node =
     in_txn R ''commit reassign task''
       (obind (tx_open R TASK_ASSIGNMENT_TABLE t)
          (tx_insert R TASK_ASSIGNMENT_TABLE (Str task_id) (u64_to_le_bytes to_node)))"

section \<open>Workers\<close>

definition apply_register_worker ::
  "('d, 't, 'r) redb \<Rightarrow> codec \<Rightarrow> 't \<Rightarrow> u64 \<Rightarrow> string \<Rightarrow> worker_capabilities \<Rightarrow> node_topology \<Rightarrow> 'd \<Rightarrow>
     unit outcome \<times> 'd" where
  "apply_register_worker R C t node_id address capabilities topology =
     in_txn R ''commit register worker''
       (obind (serialize_context ''worker info'' (enc (c_worker C) (address, capabilities))) (\<lambda>worker_data.
        obind (serialize_context ''node topology'' (enc (c_topology C) topology)) (\<lambda>topology_data.
        let key = Bytes (u64_to_le_bytes node_id) in
        obind (tx_open R WORKER_TABLE t) (\<lambda>t.
        obind (tx_insert R WORKER_TABLE key worker_data t) (\<lambda>t.
        obind (tx_open R WORKER_STATUS_TABLE t) (\<lambda>t.
        obind (tx_insert R WORKER_STATUS_TABLE key [worker_status_u8 Online] t) (\<lambda>t.
        obind (tx_open R NODE_TOPOLOGY_TABLE t)
          (tx_insert R NODE_TOPOLOGY_TABLE key topology_data))))))))"

definition apply_update_worker_status ::
  "('d, 't, 'r) redb \<Rightarrow> 't \<Rightarrow> u64 \<Rightarrow> worker_status \<Rightarrow> 'd \<Rightarrow> unit outcome \<times> 'd" where
  "apply_update_worker_status R t node_id status =
     in_txn R ''commit update worker status''
       (obind (tx_open R WORKER_STATUS_TABLE t)
          (tx_insert R WORKER_STATUS_TABLE (Bytes (u64_to_le_bytes node_id)) [worker_status_u8 status]))"

definition apply_remove_worker ::
  "('d, 't, 'r) redb \<Rightarrow> 't \<Rightarrow> u64 \<Rightarrow> 'd \<Rightarrow> unit outcome \<times> 'd" where
  "apply_remove_worker R t node_id =
     in_txn R ''commit remove worker''
       (let key = Bytes (u64_to_le_bytes node_id) in
        obind (tx_open R WORKER_TABLE t) (\<lambda>t.
        obind (tx_remove R WORKER_TABLE key t) (\<lambda>t.
        obind (tx_open R WORKER_STATUS_TABLE t) (\<lambda>t.
        obind (tx_remove R WORKER_STATUS_TABLE key t) (\<lambda>t.
        obind (tx_open R NODE_TOPOLOGY_TABLE t)
          (tx_remove R NODE_TOPOLOGY_TABLE key))))))"

section \<open>Virtual machines\<close>

text \<open>
  \<open>validate_vm_admission\<close>, called while the handler's write transaction is open. The policy row it
  reads is not used, and the controller is not consulted; the quota manager is asked for the
  tenant's quota. For a tenant without one it would save a default quota, which waits for the write
  transaction of this very handler to end.
\<close>

definition validate_vm_admission ::
  "('d, 't, 'r) redb \<Rightarrow> codec \<Rightarrow> sm_env \<Rightarrow> vm_config \<Rightarrow> u64 \<Rightarrow> 'd state_machine \<Rightarrow> unit outcome" where
  "validate_vm_admission R C E config node_id sm =
     obind (read_txn R (sm_database sm)) (\<lambda>_.
       if \<not> sm_admission sm then Ok ()
       else if e_runtime E = NoRuntime then Err (Internal ''No tokio runtime available'')
       else
         case sm_shared sm of
           None \<Rightarrow> Ok ()
         | Some shared \<Rightarrow>
             if e_runtime E = InAsync then Panics
             else
               case shared of
                 None \<Rightarrow> Ok ()
               | Some qm \<Rightarrow>
                   if \<not> quotas_poisoned qm \<and> quotas qm (vc_tenant_id config) = None then Blocks
                   else
                     let request = \<lparr>rq_tenant_id = vc_tenant_id config, rq_node_id = Some node_id,
                                    rq_vcpus = vc_vcpus config, rq_memory_mb = ucast (vc_memory config),
                                    rq_disk_gb = 0, rq_timestamp = e_now E\<rparr>
                     in case fst (check_resource_quota (e_rnd32 E) (redb_quota_storage R (c_quota C))
                               (e_now E) request qm) of
                          Inr _ \<Rightarrow> Ok ()
                        | Inl _ \<Rightarrow> Err InsufficientResources)"

text \<open>Read a VM's state, change it and write it back; nothing happens when there is no such VM.\<close>

definition update_vm_row ::
  "('d, 't, 'r) redb \<Rightarrow> codec \<Rightarrow> string \<Rightarrow> (vm_state \<Rightarrow> vm_state) \<Rightarrow> 't \<Rightarrow> 't outcome" where
  "update_vm_row R C name f t =
     obind (tx_open R VM_STATE_TABLE t) (\<lambda>t.
     obind (tx_get R VM_STATE_TABLE (Str name) t) (\<lambda>row.
       case row of
         None \<Rightarrow> Ok t
       | Some b \<Rightarrow>
           obind (deserialize_context ''vm state'' ''VmState'' (dec (c_vm_state C) b)) (\<lambda>vm.
           obind (serialize_context ''vm state'' (enc (c_vm_state C) (f vm))) (\<lambda>b'.
             tx_insert R VM_STATE_TABLE (Str name) b' t))))"

definition update_vm_status_internal ::
  "('d, 't, 'r) redb \<Rightarrow> codec \<Rightarrow> 't \<Rightarrow> string \<Rightarrow> vm_status \<Rightarrow> 'd \<Rightarrow> unit outcome \<times> 'd" where
  "update_vm_status_internal R C t name status =
     in_txn R ''commit update vm status'' (update_vm_row R C name (\<lambda>vm. vm\<lparr>vs_status := status\<rparr>) t)"

fun apply_vm_command ::
  "('d, 't, 'r) redb \<Rightarrow> codec \<Rightarrow> sm_env \<Rightarrow> 't \<Rightarrow> vm_command \<Rightarrow> 'd state_machine \<Rightarrow>
     unit outcome \<times> 'd state_machine" where
  "apply_vm_command R C E t (Create config node_id) sm =
     (case (if sm_admission sm then validate_vm_admission R C E config node_id sm else Ok ()) of
        Ok _ \<Rightarrow>
          let vm = \<lparr>vs_name = vc_name config, vs_config = config, vs_status = Creating,
                    vs_node_id = node_id, vs_created_at = e_now E, vs_updated_at = e_now E\<rparr>
          in on_db (in_txn R ''commit create vm''
               (obind (tx_open R VM_STATE_TABLE t) (\<lambda>t.
                obind (serialize_context ''vm state'' (enc (c_vm_state C) vm)) (\<lambda>b.
                  tx_insert R VM_STATE_TABLE (Str (vc_name config)) b t)))) sm
      | Err e \<Rightarrow> (Err e, sm)
      | Panics \<Rightarrow> (Panics, sm)
      | Blocks \<Rightarrow> (Blocks, sm))"
| "apply_vm_command R C E t (Start name) sm = on_db (update_vm_status_internal R C t name Starting) sm"
| "apply_vm_command R C E t (Stop name) sm = on_db (update_vm_status_internal R C t name Stopping) sm"
| "apply_vm_command R C E t (Delete name) sm =
     on_db (in_txn R ''commit delete vm''
       (obind (tx_open R VM_STATE_TABLE t) (tx_remove R VM_STATE_TABLE (Str name)))) sm"
| "apply_vm_command R C E t (Migrate task) sm =
     on_db (in_txn R ''commit migrate vm''
       (update_vm_row R C (mt_vm_name task)
          (\<lambda>vm. vm\<lparr>vs_node_id := mt_target_node_id task, vs_status := Stopping\<rparr>) t)) sm"
| "apply_vm_command R C E t (UpdateStatus name status) sm =
     on_db (in_txn R ''commit unhandled vm command'' (Ok t)) sm"

definition apply_update_vm_status ::
  "('d, 't, 'r) redb \<Rightarrow> codec \<Rightarrow> 't \<Rightarrow> string \<Rightarrow> vm_status \<Rightarrow> u64 \<Rightarrow> 'd \<Rightarrow> unit outcome \<times> 'd" where
  "apply_update_vm_status R C t name status node_id =
     in_txn R ''commit update vm status''
       (update_vm_row R C name (\<lambda>vm. vm\<lparr>vs_status := status, vs_node_id := node_id\<rparr>) t)"

section \<open>IP addresses\<close>

definition show_hex_digit :: "nat \<Rightarrow> char" where
  "show_hex_digit n = (if n < 10 then char_of (48 + n) else char_of (87 + n))"

fun show_hex :: "nat \<Rightarrow> string" where
  "show_hex n = (if n < 16 then [show_hex_digit n] else show_hex (n div 16) @ [show_hex_digit (n mod 16)])"

declare show_hex.simps [simp del]

fun join_with :: "string \<Rightarrow> string list \<Rightarrow> string" where
  "join_with sep [] = []"
| "join_with sep [x] = x"
| "join_with sep (x # xs) = x @ sep @ join_with sep xs"

text \<open>The \<open>Display\<close> of the standard library's addresses.\<close>

definition ipv4_display :: "u32 \<Rightarrow> string" where
  "ipv4_display w = join_with ''.'' (map (\<lambda>s. show_nat (unat (drop_bit s w) mod 256)) [24, 16, 8, 0])"

definition ipv6_display :: "u128 \<Rightarrow> string" where
  "ipv6_display w =
     (let segments = map (\<lambda>i. unat (drop_bit (112 - 16 * i) w) mod 65536) [0..<8];
          zeros = (\<lambda>i. length (takeWhile (\<lambda>s. s = 0) (drop i segments)));
          show = (\<lambda>ss. join_with '':'' (map show_hex ss))
      in if take 6 segments = [0, 0, 0, 0, 0, 65535] then ''::ffff:'' @ ipv4_display (ucast w)
         else
           case min_by_key (\<lambda>i. 8 - zeros i) [0..<8] of
             Some i \<Rightarrow> if 1 < zeros i
                       then show (take i segments) @ ''::'' @ show (drop (i + zeros i) segments)
                       else show segments
           | None \<Rightarrow> show segments)"

fun ip_display :: "ip_addr \<Rightarrow> string" where
  "ip_display (V4 w) = ipv4_display w"
| "ip_display (V6 w) = ipv6_display w"

definition apply_ip_pool_command ::
  "('d, 't, 'r) redb \<Rightarrow> sm_env \<Rightarrow> 't \<Rightarrow> ip_pool_command \<Rightarrow> 'd state_machine \<Rightarrow>
     unit outcome \<times> 'd state_machine" where
  "apply_ip_pool_command R E t command sm =
     (case e_runtime E of
        NoRuntime \<Rightarrow> (Err (Internal ''No tokio runtime available''), sm)
      | InAsync \<Rightarrow> (Panics, sm)
      | Entered \<Rightarrow>
          (case process_command command (sm_ip_pools sm) of
             (Ok _, m) \<Rightarrow> on_db (in_txn R ''commit ip pool command'' (Ok t)) (sm\<lparr>sm_ip_pools := m\<rparr>)
           | (r, m) \<Rightarrow> (r, sm\<lparr>sm_ip_pools := m\<rparr>)))"

text \<open>Record an allocation and add its address to the addresses of its VM.\<close>

definition stored_ips :: "codec \<Rightarrow> blob option \<Rightarrow> ip_addr list" where
  "stored_ips C row =
     (case row of None \<Rightarrow> [] | Some b \<Rightarrow> (case dec (c_ips C) b of Some ips \<Rightarrow> ips | None \<Rightarrow> []))"

definition store_allocation ::
  "('d, 't, 'r) redb \<Rightarrow> codec \<Rightarrow> ip_allocation \<Rightarrow> 't \<Rightarrow> 't outcome" where
  "store_allocation R C a t =
     obind (tx_open R IP_ALLOCATION_TABLE t) (\<lambda>t.
     obind (serialize_context ''IP allocation'' (enc (c_ip_allocation C) a)) (\<lambda>alloc_data.
     obind (tx_insert R IP_ALLOCATION_TABLE
       (Str (ip_pool_id_display (al_pool_id a) @ '':'' @ ip_display (al_ip a))) alloc_data t) (\<lambda>t.
     let key = Str (c_uuid C (al_vm_id a)) in
     obind (tx_open R VM_IP_MAPPING_TABLE t) (\<lambda>t.
     obind (tx_get R VM_IP_MAPPING_TABLE key t) (\<lambda>row.
     let ips = stored_ips C row;
         ips = (if al_ip a \<in> set ips then ips else ips @ [al_ip a]) in
     obind (serialize_context ''VM IPs'' (enc (c_ips C) ips)) (\<lambda>ip_data.
       tx_insert R VM_IP_MAPPING_TABLE key ip_data t))))))"

definition apply_allocate_ip ::
  "('d, 't, 'r) redb \<Rightarrow> codec \<Rightarrow> sm_env \<Rightarrow> 't \<Rightarrow> ip_allocation_request \<Rightarrow> 'd state_machine \<Rightarrow>
     unit outcome \<times> 'd state_machine" where
  "apply_allocate_ip R C E t request sm =
     (case e_runtime E of
        NoRuntime \<Rightarrow> (Err (Internal ''No tokio runtime available''), sm)
      | InAsync \<Rightarrow> (Panics, sm)
      | Entered \<Rightarrow>
          (case allocate_ip (e_alloc E) request (sm_ip_pools sm) of
             (r, m) \<Rightarrow>
               let sm = sm\<lparr>sm_ip_pools := m\<rparr> in
               case r of
                 Ok result \<Rightarrow>
                   on_db (in_txn R ''commit allocate ip'' (store_allocation R C (res_allocation result) t)) sm
               | Err _ \<Rightarrow> on_db (in_txn R ''commit allocate ip'' (Ok t)) sm
               | Panics \<Rightarrow> (Panics, sm)
               | Blocks \<Rightarrow> (Blocks, sm)))"

text \<open>One call of \<open>release_vm_ips\<close> for every address of the VM; a failure is only logged.\<close>

fun release_each :: "ip_addr list \<Rightarrow> vm_id \<Rightarrow> ip_pool_manager \<Rightarrow> unit outcome \<times> ip_pool_manager" where
  "release_each [] v m = (Ok (), m)"
| "release_each (ip # ips) v m =
     (case release_vm_ips v m of
        (Panics, m) \<Rightarrow> (Panics, m)
      | (Blocks, m) \<Rightarrow> (Blocks, m)
      | (_, m) \<Rightarrow> release_each ips v m)"

definition apply_release_vm_ips ::
  "('d, 't, 'r) redb \<Rightarrow> codec \<Rightarrow> sm_env \<Rightarrow> 't \<Rightarrow> vm_id \<Rightarrow> 'd state_machine \<Rightarrow>
     unit outcome \<times> 'd state_machine" where
  "apply_release_vm_ips R C E t v sm =
     (let key = Str (c_uuid C v) in
      case obind (tx_open R VM_IP_MAPPING_TABLE t) (\<lambda>t.
           obind (tx_get R VM_IP_MAPPING_TABLE key t) (\<lambda>row. Ok (t, stored_ips C row))) of
        Ok (t, ips) \<Rightarrow>
          if e_runtime E = NoRuntime then (Err (Internal ''No tokio runtime available''), sm)
          else if e_runtime E = InAsync \<and> ips \<noteq> [] then (Panics, sm)
          else
            (case release_each ips v (sm_ip_pools sm) of
               (Ok _, m) \<Rightarrow>
                 on_db (in_txn R ''commit release vm ips''
                   (obind (tx_open R VM_IP_MAPPING_TABLE t) (tx_remove R VM_IP_MAPPING_TABLE key)))
                   (sm\<lparr>sm_ip_pools := m\<rparr>)
             | (r, m) \<Rightarrow> (r, sm\<lparr>sm_ip_pools := m\<rparr>))
      | Err e \<Rightarrow> (Err e, sm)
      | Panics \<Rightarrow> (Panics, sm)
      | Blocks \<Rightarrow> (Blocks, sm))"

section \<open>Quotas\<close>

text \<open>\<open>commit\<close> and, on success, the quota manager.\<close>

definition commit_and_tell ::
  "('d, 't, 'r) redb \<Rightarrow> runtime \<Rightarrow> string \<Rightarrow> 't outcome \<Rightarrow>
     ('d quota_manager \<Rightarrow> unit outcome \<times> 'd quota_manager) \<Rightarrow> 'd state_machine \<Rightarrow>
     unit outcome \<times> 'd state_machine" where
  "commit_and_tell R rt operation work f sm =
     (case on_db (in_txn R operation work) sm of
        (Ok _, sm) \<Rightarrow> tell_quota_manager rt f sm
      | (r, sm) \<Rightarrow> (r, sm))"

definition apply_set_tenant_quota ::
  "('d, 't, 'r) redb \<Rightarrow> codec \<Rightarrow> sm_env \<Rightarrow> 't \<Rightarrow> tenant_quota \<Rightarrow> 'd state_machine \<Rightarrow>
     unit outcome \<times> 'd state_machine" where
  "apply_set_tenant_quota R C E t quota =
     commit_and_tell R (e_runtime E) ''commit set tenant quota''
       (obind (tx_open R TENANT_QUOTA_TABLE t) (\<lambda>t.
        obind (serialize_context ''tenant quota'' (enc (c_quota C) quota)) (\<lambda>quota_data.
          tx_insert R TENANT_QUOTA_TABLE (Str (q_tenant_id quota)) quota_data t)))
       (set_tenant_quota (redb_quota_storage R (c_quota C)) quota)"

definition current_usage ::
  "('d, 't, 'r) redb \<Rightarrow> codec \<Rightarrow> time \<Rightarrow> tenant_id \<Rightarrow> 't \<Rightarrow> tenant_usage" where
  "current_usage R C now tenant t =
     (case get_row R TENANT_USAGE_TABLE (Str tenant) t of
        Some (Some b) \<Rightarrow> (case dec (c_usage C) b of Some u \<Rightarrow> u | None \<Rightarrow> tenant_usage_new now tenant)
      | _ \<Rightarrow> tenant_usage_new now tenant)"

definition apply_delta :: "resource_usage_delta \<Rightarrow> time \<Rightarrow> tenant_usage \<Rightarrow> tenant_usage" where
  "apply_delta delta now u =
     u\<lparr>u_vm_usage :=
         (u_vm_usage u)\<lparr>active_vms := add_delta (active_vms (u_vm_usage u)) (vm_count_delta delta),
                        used_vcpus := add_delta (used_vcpus (u_vm_usage u)) (vcpu_delta delta),
                        used_memory_mb := add_delta (used_memory_mb (u_vm_usage u)) (memory_mb_delta delta),
                        used_disk_gb := add_delta (used_disk_gb (u_vm_usage u)) (disk_gb_delta delta)\<rparr>,
       u_updated_at := now\<rparr>"

definition apply_update_tenant_usage ::
  "('d, 't, 'r) redb \<Rightarrow> codec \<Rightarrow> sm_env \<Rightarrow> 't \<Rightarrow> tenant_id \<Rightarrow> resource_usage_delta \<Rightarrow> 'd state_machine \<Rightarrow>
     unit outcome \<times> 'd state_machine" where
  "apply_update_tenant_usage R C E t tenant delta =
     commit_and_tell R (e_runtime E) ''commit update tenant usage''
       (obind (tx_open R TENANT_USAGE_TABLE t) (\<lambda>t.
        let updated = apply_delta delta (e_now E) (current_usage R C (e_now E) tenant t) in
        obind (serialize_context ''tenant usage'' (enc (c_usage C) updated)) (\<lambda>usage_data.
          tx_insert R TENANT_USAGE_TABLE (Str tenant) usage_data t)))
       (update_resource_usage tenant (vcpu_delta delta) (memory_mb_delta delta) (disk_gb_delta delta)
          1 (e_now E))"

definition apply_remove_tenant_quota ::
  "('d, 't, 'r) redb \<Rightarrow> codec \<Rightarrow> sm_env \<Rightarrow> 't \<Rightarrow> tenant_id \<Rightarrow> 'd state_machine \<Rightarrow>
     unit outcome \<times> 'd state_machine" where
  "apply_remove_tenant_quota R C E t tenant =
     commit_and_tell R (e_runtime E) ''commit remove tenant quota''
       (obind (tx_open R TENANT_QUOTA_TABLE t) (\<lambda>t.
        obind (tx_remove R TENANT_QUOTA_TABLE (Str tenant) t) (\<lambda>t.
        obind (tx_open R TENANT_USAGE_TABLE t)
          (tx_remove R TENANT_USAGE_TABLE (Str tenant)))))
       (remove_tenant_quota (redb_quota_storage R (c_quota C)) tenant)"

section \<open>Entries\<close>

text \<open>The arms of the \<open>match\<close> for everything but batches, with the open write transaction.\<close>

fun apply_proposal ::
  "('d, 't, 'r) redb \<Rightarrow> codec \<Rightarrow> sm_env \<Rightarrow> 't \<Rightarrow> proposal_data \<Rightarrow> 'd state_machine \<Rightarrow>
     unit outcome \<times> 'd state_machine" where
  "apply_proposal R C E t (AssignTask task_id node_id task) sm =
     on_db (apply_assign_task R C t task_id node_id task) sm"
| "apply_proposal R C E t (CompleteTask task_id result) sm =
     on_db (apply_complete_task R C t task_id result) sm"
| "apply_proposal R C E t (ReassignTask task_id from_node to_node) sm =
     on_db (apply_reassign_task R t task_id to_node) sm"
| "apply_proposal R C E t (RegisterWorker node_id address capabilities topology) sm =
     on_db (apply_register_worker R C t node_id address capabilities topology) sm"
| "apply_proposal R C E t (UpdateWorkerStatus node_id status) sm =
     on_db (apply_update_worker_status R t node_id status) sm"
| "apply_proposal R C E t (RemoveWorker node_id) sm = on_db (apply_remove_worker R t node_id) sm"
| "apply_proposal R C E t (CreateVm command) sm = apply_vm_command R C E t command sm"
| "apply_proposal R C E t (UpdateVmStatus name status node_id) sm =
     on_db (apply_update_vm_status R C t name status node_id) sm"
| "apply_proposal R C E t (MigrateVm name from_node to_node) sm =
     apply_vm_command R C E t
       (Migrate \<lparr>mt_vm_name = name, mt_source_node_id = from_node, mt_target_node_id = to_node,
                 mt_live_migration = False, mt_force = False\<rparr>) sm"
| "apply_proposal R C E t (SetTenantQuota quota) sm = apply_set_tenant_quota R C E t quota sm"
| "apply_proposal R C E t (UpdateTenantUsage tenant delta operation_id) sm =
     apply_update_tenant_usage R C E t tenant delta sm"
| "apply_proposal R C E t (RemoveTenantQuota tenant) sm = apply_remove_tenant_quota R C E t tenant sm"
| "apply_proposal R C E t (IpPoolCommand command) sm = apply_ip_pool_command R E t command sm"
| "apply_proposal R C E t (AllocateIp request) sm = apply_allocate_ip R C E t request sm"
| "apply_proposal R C E t (ReleaseVmIps v) sm = apply_release_vm_ips R C E t v sm"
| "apply_proposal R C E t (Batch _) sm = (Ok (), sm)"

text \<open>
  The loop of a batch: \<open>apply\<close> applies one entry, \<open>i\<close> is the position in the batch. Nested batches
  are refused; every other proposal is encoded into an entry of its own.
\<close>

fun apply_batch ::
  "(nat \<Rightarrow> raft_entry \<Rightarrow> 'd state_machine \<Rightarrow> unit outcome \<times> 'd state_machine) \<Rightarrow> codec \<Rightarrow> raft_entry \<Rightarrow>
     nat \<Rightarrow> proposal_data list \<Rightarrow> 'd state_machine \<Rightarrow> unit outcome \<times> 'd state_machine" where
  "apply_batch apply C entry i [] sm = (Ok (), sm)"
| "apply_batch apply C entry i (p # ps) sm =
     (if is_batch p then (Err (Internal ''Nested batch proposals are not supported''), sm)
      else
        case serialize_context ''sub-proposal'' (enc (c_proposal C) p) of
          Ok bytes \<Rightarrow>
            (case apply i (entry\<lparr>entry_data := bytes\<rparr>) sm of
               (Ok _, sm) \<Rightarrow> apply_batch apply C entry (Suc i) ps sm
             | (r, sm) \<Rightarrow> (r, sm))
        | Err e \<Rightarrow> (Err e, sm)
        | Panics \<Rightarrow> (Panics, sm)
        | Blocks \<Rightarrow> (Blocks, sm))"

text \<open>
  \<open>apply_entry\<close>. The first argument bounds the depth of the recursion through batches; two levels
  are enough because a batch inside a batch is refused. \<open>E i\<close> is the environment of the \<open>i\<close>-th
  proposal of a batch, and \<open>E 0\<close> that of any other entry.
\<close>

fun apply_entry ::
  "nat \<Rightarrow> ('d, 't, 'r) redb \<Rightarrow> codec \<Rightarrow> (nat \<Rightarrow> sm_env) \<Rightarrow> raft_entry \<Rightarrow> 'd state_machine \<Rightarrow>
     unit outcome \<times> 'd state_machine" where
  "apply_entry 0 R C E entry sm = (Blocks, sm)"
| "apply_entry (Suc depth) R C E entry sm =
     (if entry_data entry = [] then (Ok (), sm)
      else
        case deserialize_context ''proposal'' ''ProposalData'' (dec (c_proposal C) (entry_data entry)) of
          Ok p \<Rightarrow>
            (case begin_write R (sm_database sm) of
               None \<Rightarrow> (Err (Storage ''begin write transaction''), sm)
             | Some t \<Rightarrow>
                 (case p of
                    Batch ps \<Rightarrow>
                      (case on_db (in_txn R ''commit batch transaction'' (Ok t)) sm of
                         (Ok _, sm) \<Rightarrow>
                           apply_batch (\<lambda>i. apply_entry depth R C (\<lambda>_. E i)) C entry 0 ps sm
                       | (r, sm) \<Rightarrow> (r, sm))
                  | _ \<Rightarrow> apply_proposal R C (E 0) t p sm))
        | Err e \<Rightarrow> (Err e, sm)
        | Panics \<Rightarrow> (Panics, sm)
        | Blocks \<Rightarrow> (Blocks, sm))"

end
