(* ===== verification/State_Machine_Spec.thy ===== *)
theory State_Machine_Spec
  imports State_Machine
begin

text \<open>
  What the state machine promises: the rows of the database stand for a cluster of virtual machines,
  tasks, workers, quotas and usage records, and a proposal changes the cluster in the way of
  \<open>spec_proposal\<close>. The handlers refine this specification: whenever an entry is applied successfully,
  the cluster changes as specified. The rows of the IP tables are part of the cluster, and so are the
  IP pools, which the state machine holds in memory and which decide what an allocation records.
\<close>

section \<open>The cluster\<close>

record cluster =
  cl_vms :: "string \<rightharpoonup> vm_state"
  cl_tasks :: "string \<rightharpoonup> task_spec"
  cl_assignments :: "string \<rightharpoonup> u64"
  cl_results :: "string \<rightharpoonup> task_result"
  cl_workers :: "u64 \<rightharpoonup> string \<times> worker_capabilities"
  cl_worker_status :: "u64 \<rightharpoonup> worker_status"
  cl_topology :: "u64 \<rightharpoonup> node_topology"
  cl_quotas :: "tenant_id \<rightharpoonup> tenant_quota"
  cl_usage :: "tenant_id \<rightharpoonup> tenant_usage"
  cl_ip_allocations :: "string \<rightharpoonup> ip_allocation"
  cl_vm_ips :: "string \<rightharpoonup> ip_addr list"
  cl_pools :: ip_pool_manager

text \<open>
  What a proposal depends on besides the cluster: how identifiers are printed, the clock, the choices
  of the IP allocator, and whether the row of a tenant's usage could be read (a failed read is taken
  for a missing row).
\<close>

record choices =
  ch_uuid :: "vm_id \<Rightarrow> string"
  ch_now :: time
  ch_alloc :: alloc_env
  ch_usage_lost :: bool

fun spec_vm_command :: "time \<Rightarrow> vm_command \<Rightarrow> cluster \<Rightarrow> cluster" where
  "spec_vm_command now (Create config node_id) c =
     c\<lparr>cl_vms := (cl_vms c)(vc_name config \<mapsto>
         \<lparr>vs_name = vc_name config, vs_config = config, vs_status = Creating, vs_node_id = node_id,
          vs_created_at = now, vs_updated_at = now\<rparr>)\<rparr>"
| "spec_vm_command now (Start name) c =
     c\<lparr>cl_vms := (cl_vms c)(name := map_option (\<lambda>vm. vm\<lparr>vs_status := Starting\<rparr>) (cl_vms c name))\<rparr>"
| "spec_vm_command now (Stop name) c =
     c\<lparr>cl_vms := (cl_vms c)(name := map_option (\<lambda>vm. vm\<lparr>vs_status := Stopping\<rparr>) (cl_vms c name))\<rparr>"
| "spec_vm_command now (Delete name) c = c\<lparr>cl_vms := (cl_vms c)(name := None)\<rparr>"
| "spec_vm_command now (Migrate task) c =
     c\<lparr>cl_vms := (cl_vms c)(mt_vm_name task :=
         map_option (\<lambda>vm. vm\<lparr>vs_node_id := mt_target_node_id task, vs_status := Stopping\<rparr>)
           (cl_vms c (mt_vm_name task)))\<rparr>"
| "spec_vm_command now (UpdateStatus name status) c = c"

text \<open>An allocation is recorded under its pool and address, and its address is added to those of its VM.\<close>

definition spec_allocation :: "choices \<Rightarrow> ip_allocation \<Rightarrow> cluster \<Rightarrow> cluster" where
  "spec_allocation ch a c =
     (let ips = (case cl_vm_ips c (ch_uuid ch (al_vm_id a)) of Some ips \<Rightarrow> ips | None \<Rightarrow> [])
      in c\<lparr>cl_ip_allocations := (cl_ip_allocations c)
              (ip_pool_id_display (al_pool_id a) @ '':'' @ ip_display (al_ip a) \<mapsto> a),
           cl_vm_ips := (cl_vm_ips c)(ch_uuid ch (al_vm_id a) \<mapsto>
              (if al_ip a \<in> set ips then ips else ips @ [al_ip a]))\<rparr>)"

text \<open>The usage that an update starts from.\<close>

definition spec_usage :: "choices \<Rightarrow> tenant_id \<Rightarrow> cluster \<Rightarrow> tenant_usage" where
  "spec_usage ch tenant c =
     (case (if ch_usage_lost ch then None else cl_usage c tenant) of
        Some u \<Rightarrow> u
      | None \<Rightarrow> tenant_usage_new (ch_now ch) tenant)"

fun spec_proposal :: "choices \<Rightarrow> proposal_data \<Rightarrow> cluster \<Rightarrow> cluster" where
  "spec_proposal ch (AssignTask task_id node_id task) c =
     c\<lparr>cl_tasks := (cl_tasks c)(task_id \<mapsto> task),
       cl_assignments := (cl_assignments c)(task_id \<mapsto> node_id)\<rparr>"
| "spec_proposal ch (CompleteTask task_id result) c =
     c\<lparr>cl_results := (cl_results c)(task_id \<mapsto> result),
       cl_assignments := (cl_assignments c)(task_id := None)\<rparr>"
| "spec_proposal ch (ReassignTask task_id from_node to_node) c =
     c\<lparr>cl_assignments := (cl_assignments c)(task_id \<mapsto> to_node)\<rparr>"
| "spec_proposal ch (RegisterWorker node_id address capabilities topology) c =
     c\<lparr>cl_workers := (cl_workers c)(node_id \<mapsto> (address, capabilities)),
       cl_worker_status := (cl_worker_status c)(node_id \<mapsto> Online),
       cl_topology := (cl_topology c)(node_id \<mapsto> topology)\<rparr>"
| "spec_proposal ch (UpdateWorkerStatus node_id status) c =
     c\<lparr>cl_worker_status := (cl_worker_status c)(node_id \<mapsto> status)\<rparr>"
| "spec_proposal ch (RemoveWorker node_id) c =
     c\<lparr>cl_workers := (cl_workers c)(node_id := None),
       cl_worker_status := (cl_worker_status c)(node_id := None),
       cl_topology := (cl_topology c)(node_id := None)\<rparr>"
| "spec_proposal ch (CreateVm command) c = spec_vm_command (ch_now ch) command c"
| "spec_proposal ch (UpdateVmStatus name status node_id) c =
     c\<lparr>cl_vms := (cl_vms c)(name :=
         map_option (\<lambda>vm. vm\<lparr>vs_status := status, vs_node_id := node_id\<rparr>) (cl_vms c name))\<rparr>"
| "spec_proposal ch (MigrateVm name from_node to_node) c =
     c\<lparr>cl_vms := (cl_vms c)(name :=
         map_option (\<lambda>vm. vm\<lparr>vs_node_id := to_node, vs_status := Stopping\<rparr>) (cl_vms c name))\<rparr>"
| "spec_proposal ch (SetTenantQuota quota) c =
     c\<lparr>cl_quotas := (cl_quotas c)(q_tenant_id quota \<mapsto> quota)\<rparr>"
| "spec_proposal ch (UpdateTenantUsage tenant delta operation_id) c =
     c\<lparr>cl_usage := (cl_usage c)(tenant \<mapsto> apply_delta delta (ch_now ch) (spec_usage ch tenant c))\<rparr>"
| "spec_proposal ch (RemoveTenantQuota tenant) c =
     c\<lparr>cl_quotas := (cl_quotas c)(tenant := None), cl_usage := (cl_usage c)(tenant := None)\<rparr>"
| "spec_proposal ch (IpPoolCommand command) c =
     c\<lparr>cl_pools := snd (process_command command (cl_pools c))\<rparr>"
| "spec_proposal ch (AllocateIp request) c =
     (case allocate_ip (ch_alloc ch) request (cl_pools c) of
        (Ok result, m) \<Rightarrow> spec_allocation ch (res_allocation result) (c\<lparr>cl_pools := m\<rparr>)
      | (_, m) \<Rightarrow> c\<lparr>cl_pools := m\<rparr>)"
| "spec_proposal ch (ReleaseVmIps v) c =
     c\<lparr>cl_vm_ips := (cl_vm_ips c)(ch_uuid ch v := None),
       cl_pools := snd (release_each (case cl_vm_ips c (ch_uuid ch v) of Some ips \<Rightarrow> ips | None \<Rightarrow> [])
         v (cl_pools c))\<rparr>"
| "spec_proposal ch (Batch ps) c = c"

text \<open>A batch applies its proposals in order; \<open>ch i\<close> are the choices when the \<open>i\<close>-th one is applied.\<close>

fun spec_batch :: "(nat \<Rightarrow> choices) \<Rightarrow> nat \<Rightarrow> proposal_data list \<Rightarrow> cluster \<Rightarrow> cluster" where
  "spec_batch ch i [] c = c"
| "spec_batch ch i (p # ps) c = spec_batch ch (Suc i) ps (spec_proposal (ch i) p c)"

definition spec_entry :: "(nat \<Rightarrow> choices) \<Rightarrow> proposal_data \<Rightarrow> cluster \<Rightarrow> cluster" where
  "spec_entry ch p c = (case p of Batch ps \<Rightarrow> spec_batch ch 0 ps c | _ \<Rightarrow> spec_proposal (ch 0) p c)"

section \<open>The rows of a cluster\<close>

definition str_rows :: "(blob \<Rightarrow> 'a option) \<Rightarrow> (db_key \<rightharpoonup> blob) \<Rightarrow> string \<rightharpoonup> 'a" where
  "str_rows f m k = Option.bind (m (Str k)) f"

definition node_rows :: "(blob \<Rightarrow> 'a option) \<Rightarrow> (db_key \<rightharpoonup> blob) \<Rightarrow> u64 \<rightharpoonup> 'a" where
  "node_rows f m n = Option.bind (m (Bytes (u64_to_le_bytes n))) f"

definition decode_status :: "blob \<Rightarrow> worker_status option" where
  "decode_status b = (case b of [x] \<Rightarrow> (case worker_status_try_from x of Ok s \<Rightarrow> Some s | _ \<Rightarrow> None) | _ \<Rightarrow> None)"

definition abs_cluster :: "codec \<Rightarrow> rows \<Rightarrow> ip_pool_manager \<Rightarrow> cluster" where
  "abs_cluster C v m =
     \<lparr>cl_vms = str_rows (dec (c_vm_state C)) (v VM_STATE_TABLE),
      cl_tasks = str_rows (dec (c_task_spec C)) (v TASK_TABLE),
      cl_assignments = str_rows (\<lambda>b. Some (u64_from_le_bytes b)) (v TASK_ASSIGNMENT_TABLE),
      cl_results = str_rows (dec (c_task_result C)) (v TASK_RESULT_TABLE),
      cl_workers = node_rows (dec (c_worker C)) (v WORKER_TABLE),
      cl_worker_status = node_rows decode_status (v WORKER_STATUS_TABLE),
      cl_topology = node_rows (dec (c_topology C)) (v NODE_TOPOLOGY_TABLE),
      cl_quotas = str_rows (dec (c_quota C)) (v TENANT_QUOTA_TABLE),
      cl_usage = str_rows (dec (c_usage C)) (v TENANT_USAGE_TABLE),
      cl_ip_allocations = str_rows (dec (c_ip_allocation C)) (v IP_ALLOCATION_TABLE),
      cl_vm_ips = str_rows (dec (c_ips C)) (v VM_IP_MAPPING_TABLE),
      cl_pools = m\<rparr>"

text \<open>The cluster of a state machine: the rows of its database and the IP pools it holds in memory.\<close>

abbreviation sm_cluster :: "codec \<Rightarrow> ('d \<Rightarrow> rows) \<Rightarrow> 'd state_machine \<Rightarrow> cluster" where
  "sm_cluster C view sm \<equiv> abs_cluster C (view (sm_database sm)) (sm_ip_pools sm)"

definition choices_of :: "codec \<Rightarrow> sm_env \<Rightarrow> bool \<Rightarrow> choices" where
  "choices_of C E lost = \<lparr>ch_uuid = c_uuid C, ch_now = e_now E, ch_alloc = e_alloc E, ch_usage_lost = lost\<rparr>"

lemma choices_of_simps [simp]:
  "ch_uuid (choices_of C E lost) = c_uuid C" "ch_now (choices_of C E lost) = e_now E"
  "ch_alloc (choices_of C E lost) = e_alloc E" "ch_usage_lost (choices_of C E lost) = lost"
  by (simp_all add: choices_of_def)

lemma str_rows_upd [simp]:
  "str_rows f (m(Str k \<mapsto> b)) = (str_rows f m)(k := f b)"
  "str_rows f (m(Str k := None)) = (str_rows f m)(k := None)"
  by (auto simp: str_rows_def fun_eq_iff)

lemma node_rows_upd [simp]:
  "node_rows f (m(Bytes (u64_to_le_bytes n) \<mapsto> b)) = (node_rows f m)(n := f b)"
  "node_rows f (m(Bytes (u64_to_le_bytes n) := None)) = (node_rows f m)(n := None)"
  by (auto simp: node_rows_def fun_eq_iff)

lemma decode_status_u8 [simp]: "decode_status [worker_status_u8 s] = Some s"
  by (simp add: decode_status_def)

lemma decode_status_0 [simp]: "decode_status [0] = Some Online"
  using decode_status_u8 [of Online] by simp

lemma codec_dec:
  assumes "codec_ok C"
  shows "enc (c_task_spec C) x1 = Some b \<Longrightarrow> dec (c_task_spec C) b = Some x1"
    and "enc (c_task_result C) x2 = Some b \<Longrightarrow> dec (c_task_result C) b = Some x2"
    and "enc (c_worker C) x3 = Some b \<Longrightarrow> dec (c_worker C) b = Some x3"
    and "enc (c_topology C) x4 = Some b \<Longrightarrow> dec (c_topology C) b = Some x4"
    and "enc (c_vm_state C) x5 = Some b \<Longrightarrow> dec (c_vm_state C) b = Some x5"
    and "enc (c_quota C) x6 = Some b \<Longrightarrow> dec (c_quota C) b = Some x6"
    and "enc (c_usage C) x7 = Some b \<Longrightarrow> dec (c_usage C) b = Some x7"
    and "enc (c_proposal C) x8 = Some b \<Longrightarrow> dec (c_proposal C) b = Some x8"
    and "enc (c_ip_allocation C) x9 = Some b \<Longrightarrow> dec (c_ip_allocation C) b = Some x9"
    and "enc (c_ips C) x10 = Some b \<Longrightarrow> dec (c_ips C) b = Some x10"
  using assms by (simp_all only: codec_ok_def serde_ok_def)

section \<open>Handlers on the database\<close>

text \<open>
  In each lemma the transaction \<open>t\<close> starts from the rows of the database, and the handler commits.
\<close>

lemma assign_task_refines:
  assumes r: "redb_ok R view tview rview" and c: "codec_ok C" and "tview t = view d"
    and "apply_assign_task R C t task_id node_id task d = (Ok (), d')"
  shows "abs_cluster C (view d') m =
           spec_proposal ch (AssignTask task_id node_id task) (abs_cluster C (view d) m)"
  using assms(3,4) unfolding apply_assign_task_def
  by (auto elim!: in_txn_Ok [OF r] dest!: redb_open [OF r] redb_insert [OF r] codec_dec [OF c]
      simp: abs_cluster_def)

lemma complete_task_refines:
  assumes r: "redb_ok R view tview rview" and c: "codec_ok C" and "tview t = view d"
    and "apply_complete_task R C t task_id result d = (Ok (), d')"
  shows "abs_cluster C (view d') m =
           spec_proposal ch (CompleteTask task_id result) (abs_cluster C (view d) m)"
  using assms(3,4) unfolding apply_complete_task_def
  by (auto elim!: in_txn_Ok [OF r]
      dest!: redb_open [OF r] redb_insert [OF r] redb_remove [OF r] codec_dec [OF c]
      simp: abs_cluster_def)

lemma reassign_task_refines:
  assumes r: "redb_ok R view tview rview" and "tview t = view d"
    and "apply_reassign_task R t task_id to_node d = (Ok (), d')"
  shows "abs_cluster C (view d') m =
           spec_proposal ch (ReassignTask task_id from_node to_node) (abs_cluster C (view d) m)"
  using assms(2,3) unfolding apply_reassign_task_def
  by (auto elim!: in_txn_Ok [OF r] dest!: redb_open [OF r] redb_insert [OF r] simp: abs_cluster_def)

lemma register_worker_refines:
  assumes r: "redb_ok R view tview rview" and c: "codec_ok C" and "tview t = view d"
    and "apply_register_worker R C t node_id address capabilities topology d = (Ok (), d')"
  shows "abs_cluster C (view d') m =
           spec_proposal ch (RegisterWorker node_id address capabilities topology) (abs_cluster C (view d) m)"
  using assms(3,4) unfolding apply_register_worker_def Let_def
  by (auto elim!: in_txn_Ok [OF r] dest!: redb_open [OF r] redb_insert [OF r] codec_dec [OF c]
      simp: abs_cluster_def)

lemma update_worker_status_refines:
  assumes r: "redb_ok R view tview rview" and "tview t = view d"
    and "apply_update_worker_status R t node_id status d = (Ok (), d')"
  shows "abs_cluster C (view d') m =
           spec_proposal ch (UpdateWorkerStatus node_id status) (abs_cluster C (view d) m)"
  using assms(2,3) unfolding apply_update_worker_status_def
  by (auto elim!: in_txn_Ok [OF r] dest!: redb_open [OF r] redb_insert [OF r] simp: abs_cluster_def)

lemma remove_worker_refines:
  assumes r: "redb_ok R view tview rview" and "tview t = view d"
    and "apply_remove_worker R t node_id d = (Ok (), d')"
  shows "abs_cluster C (view d') m = spec_proposal ch (RemoveWorker node_id) (abs_cluster C (view d) m)"
  using assms(2,3) unfolding apply_remove_worker_def Let_def
  by (auto elim!: in_txn_Ok [OF r] dest!: redb_open [OF r] redb_remove [OF r] simp: abs_cluster_def)

text \<open>Changing the state of a VM, if it exists.\<close>

lemma update_vm_row_refines:
  assumes r: "redb_ok R view tview rview" and c: "codec_ok C" and "tview t = view d"
    and "in_txn R operation (update_vm_row R C name f t) d = (Ok (), d')"
  shows "abs_cluster C (view d') m = (abs_cluster C (view d) m)\<lparr>cl_vms :=
           (cl_vms (abs_cluster C (view d) m))(name := map_option f (cl_vms (abs_cluster C (view d) m) name))\<rparr>"
proof -
  obtain t1 t2 row where t: "tx_open R VM_STATE_TABLE t = Ok t1" "tx_get R VM_STATE_TABLE (Str name) t1 = Ok row"
    "(case row of None \<Rightarrow> Ok t1 | Some b \<Rightarrow>
       obind (deserialize_context ''vm state'' ''VmState'' (dec (c_vm_state C) b)) (\<lambda>vm.
       obind (serialize_context ''vm state'' (enc (c_vm_state C) (f vm))) (\<lambda>b'.
         tx_insert R VM_STATE_TABLE (Str name) b' t1))) = Ok t2" "view d' = tview t2"
    using assms(4) by (auto simp: update_vm_row_def elim!: in_txn_Ok [OF r])
  have v: "tview t1 = view d" "row = view d VM_STATE_TABLE (Str name)"
    using redb_open [OF r t(1)] redb_get [OF r t(2)] assms(3) by simp_all
  show ?thesis
  proof (cases row)
    case None
    then have "view d' = view d" using t(3,4) v(1) by simp
    moreover have "cl_vms (abs_cluster C (view d) m) name = None"
      using None v(2) by (simp add: abs_cluster_def str_rows_def)
    ultimately show ?thesis by (simp add: abs_cluster_def fun_upd_idem)
  next
    case (Some b)
    then obtain vm b' where b: "dec (c_vm_state C) b = Some vm" "enc (c_vm_state C) (f vm) = Some b'"
      "tx_insert R VM_STATE_TABLE (Str name) b' t1 = Ok t2"
      using t(3) by auto
    have "cl_vms (abs_cluster C (view d) m) name = Some vm"
      using Some v(2) b(1) by (simp add: abs_cluster_def str_rows_def)
    then show ?thesis
      using redb_insert [OF r b(3)] codec_dec(5) [OF c b(2)] v(1) t(4) by (simp add: abs_cluster_def)
  qed
qed

lemma on_db_Ok: "on_db f sm = (Ok (), sm') \<longleftrightarrow> (\<exists>d. f (sm_database sm) = (Ok (), d) \<and> sm' = sm\<lparr>sm_database := d\<rparr>)"
  by (auto simp: on_db_def split: prod.splits)

lemma vm_command_refines:
  assumes r: "redb_ok R view tview rview" and c: "codec_ok C" and t: "tview t = view (sm_database sm)"
    and "apply_vm_command R C E t command sm = (Ok (), sm')"
  shows "sm_cluster C view sm' =
           spec_vm_command (e_now E) command (sm_cluster C view sm)"
proof (cases command)
  case (Create config node_id)
  then have "on_db (in_txn R ''commit create vm''
      (obind (tx_open R VM_STATE_TABLE t) (\<lambda>t.
       obind (serialize_context ''vm state'' (enc (c_vm_state C)
         \<lparr>vs_name = vc_name config, vs_config = config, vs_status = Creating, vs_node_id = node_id,
          vs_created_at = e_now E, vs_updated_at = e_now E\<rparr>)) (\<lambda>b.
         tx_insert R VM_STATE_TABLE (Str (vc_name config)) b t)))) sm = (Ok (), sm')"
    using assms(4) by (auto simp: Let_def split: outcome.splits if_splits)
  then show ?thesis
    using t Create
    by (auto simp: on_db_Ok abs_cluster_def elim!: in_txn_Ok [OF r]
        dest!: redb_open [OF r] redb_insert [OF r] codec_dec [OF c])
next
  case (Delete name)
  then show ?thesis
    using t assms(4)
    by (auto simp: on_db_Ok abs_cluster_def elim!: in_txn_Ok [OF r]
        dest!: redb_open [OF r] redb_remove [OF r])
next
  case (UpdateStatus name status)
  then show ?thesis using t assms(4) by (auto simp: on_db_Ok elim!: in_txn_Ok [OF r])
qed (use t assms(4) update_vm_row_refines [OF r c] in
      \<open>auto simp: on_db_Ok update_vm_status_internal_def\<close>)

section \<open>Handlers with effects in memory\<close>

lemma tell_quota_manager_Ok:
  assumes "tell_quota_manager rt f sm = (Ok (), sm')"
  shows "sm_ip_pools sm' = sm_ip_pools sm \<and> (sm_database sm' = sm_database sm \<or>
         (\<exists>qm. storage qm = sm_database sm \<and> sm_database sm' = storage (snd (f qm))))"
  using assms
  by (auto simp: tell_quota_manager_def Let_def split: option.splits runtime.splits)
    (metis quota_manager.select_convs(6) quota_manager.surjective quota_manager.update_convs(6))

text \<open>
  The manager repeats the change of the handler on the database: what the rows stand for stays.
\<close>

lemma commit_and_tell_refines:
  assumes r: "redb_ok R view tview rview"
    and "commit_and_tell R rt operation work f sm = (Ok (), sm')"
    and work: "\<And>t' d. work = Ok t' \<Longrightarrow> view d = tview t' \<Longrightarrow>
                 abs_cluster C (view d) (sm_ip_pools sm) = c'"
    and tell: "\<And>qm. abs_cluster C (view (storage qm)) (sm_ip_pools sm) = c' \<Longrightarrow>
                 abs_cluster C (view (storage (snd (f qm)))) (sm_ip_pools sm) = c'"
  shows "sm_cluster C view sm' = c'"
proof -
  obtain d where d: "in_txn R operation work (sm_database sm) = (Ok (), d)"
    "tell_quota_manager rt f (sm\<lparr>sm_database := d\<rparr>) = (Ok (), sm')"
    using assms(2)
    by (auto simp: commit_and_tell_def on_db_def split: outcome.splits prod.splits)
  obtain t' where "work = Ok t'" "view d = tview t'" using in_txn_Ok [OF r d(1)] by blast
  then have "abs_cluster C (view d) (sm_ip_pools sm) = c'" by (rule work)
  then show ?thesis using tell_quota_manager_Ok [OF d(2)] tell by fastforce
qed

lemma set_quota_again:
  assumes r: "redb_ok R view tview rview" and c: "codec_ok C"
    and "cl_quotas (abs_cluster C (view (storage qm)) m) (q_tenant_id quota) = Some quota"
  shows "abs_cluster C (view (storage (snd (set_tenant_quota (redb_quota_storage R (c_quota C)) quota qm)))) m =
         abs_cluster C (view (storage qm)) m"
proof (cases "quotas_poisoned qm")
  case False
  obtain x d where s: "redb_save_tenant_quota R (c_quota C) quota (storage qm) = (x, d)" by force
  have "abs_cluster C (view d) m = abs_cluster C (view (storage qm)) m"
  proof (cases "x = Ok ()")
    case True
    obtain b where "enc (c_quota C) quota = Some b" "view d = (view (storage qm))(TENANT_QUOTA_TABLE :=
        (view (storage qm) TENANT_QUOTA_TABLE)(Str (q_tenant_id quota) \<mapsto> b))"
      using s True unfolding redb_save_tenant_quota_def by (auto elim: put_encoded_txn_view [OF r])
    then show ?thesis
      using assms(3) codec_dec(6) [OF c] by (simp add: abs_cluster_def fun_upd_idem)
  next
    case False
    then show ?thesis using s write_txn_failed [OF r] unfolding redb_save_tenant_quota_def by metis
  qed
  then show ?thesis using False s by (simp add: set_tenant_quota_def redb_quota_storage_def Let_def)
qed (simp add: set_tenant_quota_def)

lemma remove_quota_again:
  assumes r: "redb_ok R view tview rview"
    and "cl_quotas (abs_cluster C (view (storage qm)) m) tenant = None"
  shows "abs_cluster C (view (storage (snd (remove_tenant_quota (redb_quota_storage R (c_quota C)) tenant qm)))) m =
         abs_cluster C (view (storage qm)) m"
proof (cases "quotas_poisoned qm \<or> usage_poisoned qm")
  case False
  obtain x d where s: "redb_delete_tenant_quota R tenant (storage qm) = (x, d)" by force
  have "abs_cluster C (view d) m = abs_cluster C (view (storage qm)) m"
  proof (cases "x = Ok ()")
    case True
    then have "view d = (view (storage qm))(TENANT_QUOTA_TABLE :=
        (view (storage qm) TENANT_QUOTA_TABLE)(Str tenant := None))"
      using s unfolding redb_delete_tenant_quota_def by (auto intro: remove_txn_view [OF r])
    then show ?thesis using assms(2) by (simp add: abs_cluster_def fun_upd_idem)
  next
    case False
    then show ?thesis using s write_txn_failed [OF r] unfolding redb_delete_tenant_quota_def by metis
  qed
  then show ?thesis using False s by (simp add: remove_tenant_quota_def redb_quota_storage_def Let_def)
qed (auto simp: remove_tenant_quota_def)

lemma update_usage_storage [simp]: "storage (snd (update_resource_usage t v m d n now qm)) = storage qm"
  by (simp add: update_resource_usage_def Let_def)

lemma set_quota_refines:
  assumes r: "redb_ok R view tview rview" and c: "codec_ok C" and t: "tview t = view (sm_database sm)"
    and "apply_set_tenant_quota R C E t quota sm = (Ok (), sm')"
  shows "sm_cluster C view sm' =
           spec_proposal ch (SetTenantQuota quota) (sm_cluster C view sm)"
proof (rule commit_and_tell_refines [OF r assms(4) [unfolded apply_set_tenant_quota_def]])
  show "abs_cluster C (view d) (sm_ip_pools sm) =
      spec_proposal ch (SetTenantQuota quota) (sm_cluster C view sm)"
    if "obind (tx_open R TENANT_QUOTA_TABLE t) (\<lambda>t.
        obind (serialize_context ''tenant quota'' (enc (c_quota C) quota)) (\<lambda>quota_data.
          tx_insert R TENANT_QUOTA_TABLE (Str (q_tenant_id quota)) quota_data t)) = Ok t'"
      and "view d = tview t'" for t' d
    using that t
    by (auto simp: abs_cluster_def dest!: redb_open [OF r] redb_insert [OF r] codec_dec [OF c])
qed (auto simp: set_quota_again [OF r c])

text \<open>The usage that is read: the recorded one, unless the read fails.\<close>

lemma current_usage_read:
  assumes r: "redb_ok R view tview rview"
  shows "current_usage R C now tenant t =
    (case (if get_row R TENANT_USAGE_TABLE (Str tenant) t = None then None
           else cl_usage (abs_cluster C (tview t) m) tenant) of
       Some u \<Rightarrow> u | None \<Rightarrow> tenant_usage_new now tenant)"
proof (cases "get_row R TENANT_USAGE_TABLE (Str tenant) t")
  case (Some row)
  then have "row = tview t TENANT_USAGE_TABLE (Str tenant)"
    using r unfolding redb_ok_def by blast
  then show ?thesis
    using Some by (cases row) (simp_all add: current_usage_def abs_cluster_def str_rows_def split: option.split)
qed (simp add: current_usage_def)

lemma update_usage_refines:
  assumes r: "redb_ok R view tview rview" and c: "codec_ok C"
    and t: "tview t = view (sm_database sm)"
    and "apply_update_tenant_usage R C E t tenant delta sm = (Ok (), sm')"
  shows "\<exists>lost. (gets_succeed R TENANT_USAGE_TABLE \<longrightarrow> \<not> lost) \<and> sm_cluster C view sm' =
           spec_proposal (choices_of C E lost) (UpdateTenantUsage tenant delta op) (sm_cluster C view sm)"
proof -
  define lost where "lost \<longleftrightarrow> (\<exists>t1. tx_open R TENANT_USAGE_TABLE t = Ok t1 \<and>
    get_row R TENANT_USAGE_TABLE (Str tenant) t1 = None)"
  let ?c' = "spec_proposal (choices_of C E lost) (UpdateTenantUsage tenant delta op) (sm_cluster C view sm)"
  have "sm_cluster C view sm' = ?c'"
  proof (rule commit_and_tell_refines [OF r assms(4) [unfolded apply_update_tenant_usage_def]])
    show "abs_cluster C (view d) (sm_ip_pools sm) = ?c'"
      if work: "obind (tx_open R TENANT_USAGE_TABLE t) (\<lambda>t.
          let updated = apply_delta delta (e_now E) (current_usage R C (e_now E) tenant t) in
          obind (serialize_context ''tenant usage'' (enc (c_usage C) updated)) (\<lambda>usage_data.
            tx_insert R TENANT_USAGE_TABLE (Str tenant) usage_data t)) = Ok t'"
        and "view d = tview t'" for t' d
    proof -
      obtain t1 b where t1: "tx_open R TENANT_USAGE_TABLE t = Ok t1"
        "enc (c_usage C) (apply_delta delta (e_now E) (current_usage R C (e_now E) tenant t1)) = Some b"
        "tx_insert R TENANT_USAGE_TABLE (Str tenant) b t1 = Ok t'"
        using work by (auto simp: Let_def)
      have v: "tview t1 = view (sm_database sm)" using redb_open [OF r t1(1)] t by simp
      have "lost \<longleftrightarrow> get_row R TENANT_USAGE_TABLE (Str tenant) t1 = None" using t1(1) by (simp add: lost_def)
      with current_usage_read [OF r, of C "e_now E" tenant t1 "sm_ip_pools sm"]
      have u: "current_usage R C (e_now E) tenant t1 = spec_usage (choices_of C E lost) tenant (sm_cluster C view sm)"
        unfolding v by (simp add: spec_usage_def cong: option.case_cong)
      show ?thesis
        using redb_insert [OF r t1(3)] codec_dec(7) [OF c t1(2)] that(2) unfolding u v
        by (simp add: abs_cluster_def)
    qed
  qed simp
  moreover have "\<not> lost" if "gets_succeed R TENANT_USAGE_TABLE"
    using that unfolding lost_def gets_succeed_def by blast
  ultimately show ?thesis by blast
qed

lemma remove_quota_refines:
  assumes r: "redb_ok R view tview rview" and t: "tview t = view (sm_database sm)"
    and "apply_remove_tenant_quota R C E t tenant sm = (Ok (), sm')"
  shows "sm_cluster C view sm' =
           spec_proposal ch (RemoveTenantQuota tenant) (sm_cluster C view sm)"
proof (rule commit_and_tell_refines [OF r assms(3) [unfolded apply_remove_tenant_quota_def]])
  show "abs_cluster C (view d) (sm_ip_pools sm) =
      spec_proposal ch (RemoveTenantQuota tenant) (sm_cluster C view sm)"
    if "obind (tx_open R TENANT_QUOTA_TABLE t) (\<lambda>t.
        obind (tx_remove R TENANT_QUOTA_TABLE (Str tenant) t) (\<lambda>t.
        obind (tx_open R TENANT_USAGE_TABLE t) (tx_remove R TENANT_USAGE_TABLE (Str tenant)))) = Ok t'"
      and "view d = tview t'" for t' d
    using that t by (auto simp: abs_cluster_def dest!: redb_open [OF r] redb_remove [OF r])
qed (auto simp: remove_quota_again [OF r])

text \<open>The IP handlers: what the pools answer is recorded, and commands change the pools only.\<close>

lemma stored_ips_rows:
  "stored_ips C (v VM_IP_MAPPING_TABLE (Str k)) =
     (case cl_vm_ips (abs_cluster C v m) k of Some ips \<Rightarrow> ips | None \<Rightarrow> [])"
  by (simp add: stored_ips_def abs_cluster_def str_rows_def split: option.split)

lemma store_allocation_refines:
  assumes r: "redb_ok R view tview rview" and c: "codec_ok C" and "store_allocation R C a t = Ok t'"
    and "ch_uuid ch = c_uuid C"
  shows "abs_cluster C (tview t') m = spec_allocation ch a (abs_cluster C (tview t) m)"
proof -
  let ?k = "c_uuid C (al_vm_id a)"
  obtain t1 b t2 t3 row b' where h: "tx_open R IP_ALLOCATION_TABLE t = Ok t1"
    "enc (c_ip_allocation C) a = Some b"
    "tx_insert R IP_ALLOCATION_TABLE
       (Str (ip_pool_id_display (al_pool_id a) @ '':'' @ ip_display (al_ip a))) b t1 = Ok t2"
    "tx_open R VM_IP_MAPPING_TABLE t2 = Ok t3" "tx_get R VM_IP_MAPPING_TABLE (Str ?k) t3 = Ok row"
    "enc (c_ips C) (if al_ip a \<in> set (stored_ips C row) then stored_ips C row
       else stored_ips C row @ [al_ip a]) = Some b'"
    "tx_insert R VM_IP_MAPPING_TABLE (Str ?k) b' t3 = Ok t'"
    using assms(3) unfolding store_allocation_def Let_def by auto
  have "row = tview t VM_IP_MAPPING_TABLE (Str ?k)"
    using redb_get [OF r h(5)] redb_open [OF r h(4)] redb_insert [OF r h(3)] redb_open [OF r h(1)] by simp
  then have ips: "stored_ips C row = (case cl_vm_ips (abs_cluster C (tview t) m) ?k of Some ips \<Rightarrow> ips | None \<Rightarrow> [])"
    by (simp add: stored_ips_rows)
  show ?thesis
    using redb_insert [OF r h(7)] redb_open [OF r h(4)] redb_insert [OF r h(3)] redb_open [OF r h(1)]
      codec_dec(9) [OF c h(2)] codec_dec(10) [OF c h(6)]
    unfolding spec_allocation_def Let_def assms(4) ips [symmetric] by (simp add: abs_cluster_def)
qed

lemma ip_pool_command_refines:
  assumes r: "redb_ok R view tview rview" and t: "tview t = view (sm_database sm)"
    and "apply_ip_pool_command R E t command sm = (Ok (), sm')"
  shows "sm_cluster C view sm' = spec_proposal ch (IpPoolCommand command) (sm_cluster C view sm)"
  using t assms(3)
  by (auto simp: apply_ip_pool_command_def on_db_Ok abs_cluster_def elim!: in_txn_Ok [OF r]
      split: runtime.splits prod.splits outcome.splits)

lemma allocate_ip_refines:
  assumes r: "redb_ok R view tview rview" and c: "codec_ok C" and t: "tview t = view (sm_database sm)"
    and "apply_allocate_ip R C E t request sm = (Ok (), sm')"
  shows "sm_cluster C view sm' =
    spec_proposal (choices_of C E lost) (AllocateIp request) (sm_cluster C view sm)"
proof -
  obtain x m where x: "allocate_ip (e_alloc E) request (sm_ip_pools sm) = (x, m)" by force
  have pools: "cl_pools (sm_cluster C view sm) = sm_ip_pools sm"
    "(sm_cluster C view sm)\<lparr>cl_pools := m\<rparr> = abs_cluster C (view (sm_database sm)) m"
    by (simp_all add: abs_cluster_def)
  show ?thesis
  proof (cases x)
    case (Ok result)
    then obtain t' where t': "store_allocation R C (res_allocation result) t = Ok t'"
      "view (sm_database sm') = tview t'" "sm_ip_pools sm' = m"
      using assms(4) x
      by (auto simp: apply_allocate_ip_def on_db_Ok Let_def elim!: in_txn_Ok [OF r] split: runtime.splits)
    from store_allocation_refines [OF r c t'(1), where m = m and ch = "choices_of C E lost"] show ?thesis
      unfolding t'(2,3) t by (simp add: pools x Ok)
  next
    case (Err e)
    then have "view (sm_database sm') = view (sm_database sm)" "sm_ip_pools sm' = m"
      using assms(4) x t
      by (auto simp: apply_allocate_ip_def on_db_Ok Let_def elim!: in_txn_Ok [OF r] split: runtime.splits)
    then show ?thesis by (simp add: pools x Err)
  qed (use assms(4) x in \<open>auto simp: apply_allocate_ip_def Let_def split: runtime.splits\<close>)
qed

lemma release_vm_ips_refines:
  assumes r: "redb_ok R view tview rview" and t: "tview t = view (sm_database sm)"
    and "apply_release_vm_ips R C E t v sm = (Ok (), sm')"
  shows "sm_cluster C view sm' =
    spec_proposal (choices_of C E lost) (ReleaseVmIps v) (sm_cluster C view sm)"
proof -
  let ?k = "Str (c_uuid C v)"
  let ?read = "obind (tx_open R VM_IP_MAPPING_TABLE t) (\<lambda>t.
    obind (tx_get R VM_IP_MAPPING_TABLE ?k t) (\<lambda>row. Ok (t, stored_ips C row)))"
  obtain t1 ips where ok: "?read = Ok (t1, ips)"
    using assms(3) by (cases ?read) (auto simp: apply_release_vm_ips_def Let_def)
  then obtain row where t1: "tx_open R VM_IP_MAPPING_TABLE t = Ok t1"
    "tx_get R VM_IP_MAPPING_TABLE ?k t1 = Ok row" "ips = stored_ips C row" by auto
  have v: "tview t1 = view (sm_database sm)" using redb_open [OF r t1(1)] t by simp
  have ips: "ips = (case cl_vm_ips (sm_cluster C view sm) (c_uuid C v) of Some ips \<Rightarrow> ips | None \<Rightarrow> [])"
    using redb_get [OF r t1(2)] t1(3) unfolding v by (simp add: stored_ips_rows)
  obtain x m where x: "release_each ips v (sm_ip_pools sm) = (x, m)" by force
  obtain t2 where "obind (tx_open R VM_IP_MAPPING_TABLE t1) (tx_remove R VM_IP_MAPPING_TABLE ?k) = Ok t2"
    "view (sm_database sm') = tview t2" "sm_ip_pools sm' = m"
    using assms(3) x unfolding apply_release_vm_ips_def Let_def ok
    by (auto simp: on_db_Ok elim!: in_txn_Ok [OF r] split: if_splits outcome.splits)
  then have "view (sm_database sm') = (view (sm_database sm))(VM_IP_MAPPING_TABLE :=
      (view (sm_database sm) VM_IP_MAPPING_TABLE)(?k := None))" "sm_ip_pools sm' = m"
    using v by (auto dest!: redb_open [OF r] redb_remove [OF r])
  then show ?thesis using x unfolding ips by (simp add: abs_cluster_def)
qed

section \<open>Entries\<close>

lemma proposal_refines:
  assumes r: "redb_ok R view tview rview" and c: "codec_ok C"
    and t: "tview t = view (sm_database sm)" and "apply_proposal R C E t p sm = (Ok (), sm')"
  shows "\<exists>lost. (gets_succeed R TENANT_USAGE_TABLE \<longrightarrow> \<not> lost) \<and>
           sm_cluster C view sm' = spec_proposal (choices_of C E lost) p (sm_cluster C view sm)"
proof (cases p)
  case (UpdateTenantUsage tenant delta operation_id)
  then show ?thesis using assms(4) update_usage_refines [OF r c t] by simp
next
  case (AssignTask task_id node_id task)
  then show ?thesis using assms(4) assign_task_refines [OF r c t] by (auto simp: on_db_Ok)
next
  case (CompleteTask task_id result)
  then show ?thesis using assms(4) complete_task_refines [OF r c t] by (auto simp: on_db_Ok)
next
  case (ReassignTask task_id from_node to_node)
  then show ?thesis using assms(4) reassign_task_refines [OF r t] by (auto simp: on_db_Ok)
next
  case (RegisterWorker node_id address capabilities topology)
  then show ?thesis using assms(4) register_worker_refines [OF r c t] by (auto simp: on_db_Ok)
next
  case (UpdateWorkerStatus node_id status)
  then show ?thesis using assms(4) update_worker_status_refines [OF r t] by (auto simp: on_db_Ok)
next
  case (RemoveWorker node_id)
  then show ?thesis using assms(4) remove_worker_refines [OF r t] by (auto simp: on_db_Ok)
next
  case (CreateVm command)
  then show ?thesis using assms(4) vm_command_refines [OF r c t] by (intro exI [of _ False]) simp
next
  case (UpdateVmStatus name status node_id)
  then show ?thesis
    using assms(4) update_vm_row_refines [OF r c t] by (auto simp: on_db_Ok apply_update_vm_status_def)
next
  case (MigrateVm name from_node to_node)
  then show ?thesis
    using assms(4) update_vm_row_refines [OF r c t] by (auto simp: on_db_Ok)
next
  case (SetTenantQuota quota)
  then show ?thesis using assms(4) set_quota_refines [OF r c t] by (intro exI [of _ False]) simp
next
  case (RemoveTenantQuota tenant)
  then show ?thesis using assms(4) remove_quota_refines [OF r t] by (intro exI [of _ False]) simp
next
  case (IpPoolCommand command)
  then show ?thesis using assms(4) ip_pool_command_refines [OF r t] by auto
next
  case (AllocateIp request)
  then show ?thesis using assms(4) allocate_ip_refines [OF r c t] by auto
next
  case (ReleaseVmIps v)
  then show ?thesis using assms(4) release_vm_ips_refines [OF r t] by auto
qed (use assms(4) in auto)

text \<open>A proposal that is refused leaves every row as it was.\<close>

lemma on_db_failed:
  assumes "redb_ok R view tview rview" and "on_db (in_txn R operation work) sm = (x, sm')" and "x \<noteq> Ok ()"
  shows "view (sm_database sm') = view (sm_database sm)"
  using assms(2,3) in_txn_failed [OF assms(1)] by (auto simp: on_db_def split: prod.splits)

lemma commit_and_tell_Err:
  assumes "redb_ok R view tview rview" and "commit_and_tell R rt operation work f sm = (Err e, sm')"
  shows "view (sm_database sm') = view (sm_database sm)"
proof -
  obtain x sm1 where x: "on_db (in_txn R operation work) sm = (x, sm1)" by force
  moreover have "fst (tell_quota_manager rt f sm1) \<noteq> Err e"
    by (auto simp: tell_quota_manager_def Let_def split: option.splits runtime.splits)
  ultimately have "x = Err e \<and> sm1 = sm'"
    using assms(2) by (cases x) (auto simp: commit_and_tell_def)
  then show ?thesis using on_db_failed [OF assms(1) x] by auto
qed

lemmas db_handlers = apply_assign_task_def apply_complete_task_def apply_reassign_task_def
  apply_register_worker_def apply_update_worker_status_def apply_remove_worker_def
  apply_update_vm_status_def update_vm_status_internal_def

lemma vm_command_Err:
  assumes r: "redb_ok R view tview rview" and "apply_vm_command R C E t command sm = (Err e, sm')"
  shows "view (sm_database sm') = view (sm_database sm)"
  using assms(2) by (cases command)
    (auto simp: db_handlers Let_def dest: on_db_failed [OF r] split: outcome.splits)

lemma proposal_Err:
  assumes r: "redb_ok R view tview rview" and "apply_proposal R C E t p sm = (Err e, sm')"
  shows "view (sm_database sm') = view (sm_database sm)"
proof (cases p)
  case (IpPoolCommand command)
  then show ?thesis
    using assms(2)
    by (auto simp: apply_ip_pool_command_def dest: on_db_failed [OF r]
        split: runtime.splits prod.splits outcome.splits)
next
  case (AllocateIp request)
  then show ?thesis
    using assms(2)
    by (auto simp: apply_allocate_ip_def Let_def dest: on_db_failed [OF r]
        split: runtime.splits prod.splits outcome.splits)
next
  case (ReleaseVmIps v)
  then show ?thesis
    using assms(2)
    by (auto simp: apply_release_vm_ips_def Let_def dest: on_db_failed [OF r]
        split: prod.splits outcome.splits if_splits)
qed (use assms(2) vm_command_Err [OF r] in
      \<open>auto simp: db_handlers apply_set_tenant_quota_def apply_update_tenant_usage_def
         apply_remove_tenant_quota_def dest: on_db_failed [OF r] commit_and_tell_Err [OF r]
         simp del: apply_vm_command.simps\<close>)

text \<open>An entry that holds a proposal other than a batch.\<close>

lemma entry_single:
  assumes "entry_data entry \<noteq> []" and "dec (c_proposal C) (entry_data entry) = Some p" and "\<not> is_batch p"
  shows "apply_entry (Suc depth) R C E entry sm =
     (case begin_write R (sm_database sm) of
        None \<Rightarrow> (Err (Storage ''begin write transaction''), sm)
      | Some t \<Rightarrow> apply_proposal R C (E 0) t p sm)"
  using assms
  by (auto simp: deserialize_context_def or_err_def split: option.splits proposal_data.splits)

lemma entry_single_refines:
  assumes r: "redb_ok R view tview rview" and c: "codec_ok C"
    and e: "entry_data entry \<noteq> []" "dec (c_proposal C) (entry_data entry) = Some p" "\<not> is_batch p"
    and "apply_entry (Suc depth) R C E entry sm = (Ok (), sm')"
  shows "\<exists>lost. (gets_succeed R TENANT_USAGE_TABLE \<longrightarrow> \<not> lost) \<and>
           sm_cluster C view sm' = spec_proposal (choices_of C (E 0) lost) p (sm_cluster C view sm)"
proof -
  obtain t where t: "begin_write R (sm_database sm) = Some t"
    "apply_proposal R C (E 0) t p sm = (Ok (), sm')"
    using assms(6) unfolding entry_single [OF e] by (auto split: option.splits)
  show ?thesis by (rule proposal_refines [OF r c redb_begin_write [OF r t(1)] t(2)])
qed

lemma entry_single_Err:
  assumes r: "redb_ok R view tview rview"
    and e: "entry_data entry \<noteq> []" "dec (c_proposal C) (entry_data entry) = Some p" "\<not> is_batch p"
    and "apply_entry (Suc depth) R C E entry sm = (Err err, sm')"
  shows "view (sm_database sm') = view (sm_database sm)"
  using assms(5) proposal_Err [OF r] unfolding entry_single [OF e] by (auto split: option.splits)

text \<open>
  The loop of a batch, on entries of its own: it stops at the first proposal that is not applied, and
  what has been applied before stays.
\<close>

lemma spec_batch_cong: "(\<And>j. i \<le> j \<Longrightarrow> ch j = ch' j) \<Longrightarrow> spec_batch ch i ps c = spec_batch ch' i ps c"
proof (induction ps arbitrary: i c)
  case (Cons p ps)
  show ?case using Cons.IH [of "Suc i"] Cons.prems by simp
qed simp

lemma spec_batch_next:
  "spec_batch (\<lambda>j. ch j (lost j)) (Suc i) ps (spec_proposal (ch i l) p c) =
   spec_batch (\<lambda>j. ch j ((lost(i := l)) j)) i (p # ps) c"
  using spec_batch_cong [of "Suc i" "\<lambda>j. ch j (lost j)" "\<lambda>j. ch j ((lost(i := l)) j)"] by simp

lemma batch_refines:
  assumes c: "codec_ok C"
    and step: "\<And>i e p sm sm'. entry_data e \<noteq> [] \<Longrightarrow> dec (c_proposal C) (entry_data e) = Some p \<Longrightarrow>
        \<not> is_batch p \<Longrightarrow> apply i e sm = (Ok (), sm') \<Longrightarrow>
        \<exists>l. (reads \<longrightarrow> \<not> l) \<and> A sm' = spec_proposal (ch i l) p (A sm)"
    and "apply_batch apply C entry i ps sm = (Ok (), sm')"
  shows "\<exists>lost. (\<forall>j. reads \<longrightarrow> \<not> lost j) \<and> A sm' = spec_batch (\<lambda>j. ch j (lost j)) i ps (A sm)"
  using assms(3)
proof (induction ps arbitrary: i sm)
  case (Cons p ps)
  then obtain b sm1 where b: "\<not> is_batch p" "enc (c_proposal C) p = Some b"
    "apply i (entry\<lparr>entry_data := b\<rparr>) sm = (Ok (), sm1)"
    "apply_batch apply C entry (Suc i) ps sm1 = (Ok (), sm')"
    by (auto simp: serialize_context_def or_err_def split: if_splits option.splits prod.splits outcome.splits)
  have "b \<noteq> []" using c b(2) by (auto simp: codec_ok_def)
  then obtain l where l: "reads \<longrightarrow> \<not> l" "A sm1 = spec_proposal (ch i l) p (A sm)"
    using step [OF _ _ b(1,3)] codec_dec(8) [OF c b(2)] by auto
  from Cons.IH [OF b(4)] obtain lost where lost: "\<forall>j. reads \<longrightarrow> \<not> lost j"
    "A sm' = spec_batch (\<lambda>j. ch j (lost j)) (Suc i) ps (A sm1)" by blast
  show ?case
    using l lost by (intro exI [of _ "lost(i := l)"]) (simp only: spec_batch_next [symmetric], simp)
qed (auto intro: exI [of _ "\<lambda>_. False"])

lemma batch_prefix:
  assumes c: "codec_ok C"
    and step: "\<And>i e p sm sm'. entry_data e \<noteq> [] \<Longrightarrow> dec (c_proposal C) (entry_data e) = Some p \<Longrightarrow>
        \<not> is_batch p \<Longrightarrow> apply i e sm = (Ok (), sm') \<Longrightarrow> A sm' = spec_proposal (ch i) p (A sm)"
    and fail: "\<And>i e p sm sm'. entry_data e \<noteq> [] \<Longrightarrow> dec (c_proposal C) (entry_data e) = Some p \<Longrightarrow>
        \<not> is_batch p \<Longrightarrow> apply i e sm = (Err err, sm') \<Longrightarrow> F (A sm') = F (A sm)"
    and "apply_batch apply C entry i ps sm = (Err err, sm')"
  shows "\<exists>n < length ps. F (A sm') = F (spec_batch ch i (take n ps) (A sm))"
  using assms(4)
proof (induction ps arbitrary: i sm)
  case (Cons p ps)
  show ?case
  proof (cases "\<exists>b sm1. \<not> is_batch p \<and> enc (c_proposal C) p = Some b \<and>
      apply i (entry\<lparr>entry_data := b\<rparr>) sm = (Ok (), sm1)")
    case True
    then obtain b sm1 where b: "\<not> is_batch p" "enc (c_proposal C) p = Some b"
      "apply i (entry\<lparr>entry_data := b\<rparr>) sm = (Ok (), sm1)" by blast
    have "b \<noteq> []" using c b(2) by (auto simp: codec_ok_def)
    then have A: "A sm1 = spec_proposal (ch i) p (A sm)"
      using step [OF _ _ b(1,3)] codec_dec(8) [OF c b(2)] by simp
    have "apply_batch apply C entry (Suc i) ps sm1 = (Err err, sm')"
      using Cons.prems b by (simp add: serialize_context_def or_err_def)
    then obtain n where "n < length ps" "F (A sm') = F (spec_batch ch (Suc i) (take n ps) (A sm1))"
      using Cons.IH by blast
    then show ?thesis using A by (intro exI [of _ "Suc n"]) simp
  next
    case False
    have "F (A sm') = F (A sm)"
    proof (cases "is_batch p \<or> enc (c_proposal C) p = None")
      case True
      then show ?thesis using Cons.prems
        by (auto simp: serialize_context_def or_err_def split: if_splits option.splits)
    next
      case nb: False
      then obtain b where b: "\<not> is_batch p" "enc (c_proposal C) p = Some b" by blast
      moreover have "b \<noteq> []" using c b(2) by (auto simp: codec_ok_def)
      moreover have "apply i (entry\<lparr>entry_data := b\<rparr>) sm = (Err err, sm')"
        using Cons.prems b False
        by (auto simp: serialize_context_def or_err_def split: prod.splits outcome.splits)
      ultimately show ?thesis using fail [of "entry\<lparr>entry_data := b\<rparr>"] codec_dec(8) [OF c b(2)] by simp
    qed
    then show ?thesis by (intro exI [of _ 0]) simp
  qed
qed simp

text \<open>An entry that holds a batch: an empty transaction is committed, then the loop runs.\<close>

lemma entry_batch_step:
  assumes "entry_data entry \<noteq> []" and "dec (c_proposal C) (entry_data entry) = Some (Batch ps)"
  shows "apply_entry (Suc depth) R C E entry sm =
     (case begin_write R (sm_database sm) of
        None \<Rightarrow> (Err (Storage ''begin write transaction''), sm)
      | Some t \<Rightarrow>
          (case on_db (in_txn R ''commit batch transaction'' (Ok t)) sm of
             (Ok _, sm) \<Rightarrow> apply_batch (\<lambda>i. apply_entry depth R C (\<lambda>_. E i)) C entry 0 ps sm
           | (r, sm) \<Rightarrow> (r, sm)))"
  using assms by (simp add: deserialize_context_def or_err_def split: option.split)

lemma entry_batch:
  assumes r: "redb_ok R view tview rview"
    and e: "entry_data entry \<noteq> []" "dec (c_proposal C) (entry_data entry) = Some (Batch ps)"
    and "apply_entry (Suc depth) R C E entry sm = (x, sm')"
  shows "(\<exists>sm1. sm_cluster C view sm1 = sm_cluster C view sm \<and>
            apply_batch (\<lambda>i. apply_entry depth R C (\<lambda>_. E i)) C entry 0 ps sm1 = (x, sm')) \<or>
         (x \<noteq> Ok () \<and> sm_cluster C view sm' = sm_cluster C view sm)"
proof (cases "begin_write R (sm_database sm)")
  case None
  then show ?thesis using assms(4) unfolding entry_batch_step [OF e] by auto
next
  case (Some t)
  obtain y d where d: "in_txn R ''commit batch transaction'' (Ok t) (sm_database sm) = (y, d)" by force
  define sm1 where "sm1 = sm\<lparr>sm_database := d\<rparr>"
  have y: "on_db (in_txn R ''commit batch transaction'' (Ok t)) sm = (y, sm1)"
    using d by (simp add: on_db_def sm1_def)
  have "view (sm_database sm1) = view (sm_database sm)" "sm_ip_pools sm1 = sm_ip_pools sm"
    using in_txn_cases [OF r d] redb_begin_write [OF r Some] by (auto simp: sm1_def)
  then have "sm_cluster C view sm1 = sm_cluster C view sm" by (simp only:)
  then show ?thesis
    using assms(4) unfolding entry_batch_step [OF e] Some option.case y by (cases y) auto
qed

lemma batch_entry_refines:
  assumes r: "redb_ok R view tview rview" and c: "codec_ok C"
    and e: "entry_data entry \<noteq> []" "dec (c_proposal C) (entry_data entry) = Some (Batch ps)"
    and "apply_entry (Suc (Suc depth)) R C E entry sm = (Ok (), sm')"
  shows "\<exists>lost. (\<forall>i. gets_succeed R TENANT_USAGE_TABLE \<longrightarrow> \<not> lost i) \<and> sm_cluster C view sm' =
           spec_batch (\<lambda>i. choices_of C (E i) (lost i)) 0 ps (sm_cluster C view sm)"
proof -
  obtain sm1 where sm1: "sm_cluster C view sm1 = sm_cluster C view sm"
    "apply_batch (\<lambda>i. apply_entry (Suc depth) R C (\<lambda>_. E i)) C entry 0 ps sm1 = (Ok (), sm')"
    using entry_batch [OF r e assms(5)] by auto
  show ?thesis
    unfolding sm1(1) [symmetric]
    by (rule batch_refines [OF c _ sm1(2), where A = "sm_cluster C view"]) (rule entry_single_refines [OF r c])
qed

text \<open>Two levels of recursion are enough.\<close>

lemma entry_depth_single:
  assumes "\<And>ps. dec (c_proposal C) (entry_data entry) \<noteq> Some (Batch ps)"
  shows "apply_entry (Suc n) R C E entry sm = apply_entry (Suc m) R C E entry sm"
  using assms
  by (auto simp: deserialize_context_def or_err_def split: option.splits proposal_data.splits)

lemma batch_depth:
  assumes "codec_ok C"
  shows "apply_batch (\<lambda>i. apply_entry (Suc n) R C (\<lambda>_. E i)) C entry i ps sm =
         apply_batch (\<lambda>i. apply_entry (Suc m) R C (\<lambda>_. E i)) C entry i ps sm"
proof (induction ps arbitrary: i sm)
  case (Cons p ps)
  have "apply_entry (Suc n) R C (\<lambda>_. E i) (entry\<lparr>entry_data := b\<rparr>) sm =
      apply_entry (Suc m) R C (\<lambda>_. E i) (entry\<lparr>entry_data := b\<rparr>) sm"
    if "\<not> is_batch p" "enc (c_proposal C) p = Some b" for b
    using that codec_dec(8) [OF assms that(2)] by (intro entry_depth_single) auto
  then show ?case
    using Cons.IH
    by (auto simp: serialize_context_def or_err_def simp del: apply_entry.simps
        split: option.splits prod.splits outcome.splits)
qed simp

section \<open>Replicas\<close>

text \<open>
  Every handler that records a time reads its own clock, and the IP pools are held in memory, so two
  replicas can only agree up to the recorded times and the pools. The IP rows also depend on the
  choices of the allocator of each replica.
\<close>

definition erase_vm :: "vm_state \<Rightarrow> vm_state" where
  "erase_vm vm = vm\<lparr>vs_created_at := 0, vs_updated_at := 0\<rparr>"

definition erase_usage :: "tenant_usage \<Rightarrow> tenant_usage" where
  "erase_usage u = u\<lparr>u_updated_at := 0\<rparr>"

definition erase_local :: "cluster \<Rightarrow> cluster" where
  "erase_local c =
     c\<lparr>cl_vms := map_option erase_vm \<circ> cl_vms c, cl_usage := map_option erase_usage \<circ> cl_usage c,
       cl_pools := ip_pool_manager_new\<rparr>"

definition erase_ips :: "cluster \<Rightarrow> cluster" where
  "erase_ips c = c\<lparr>cl_ip_allocations := Map.empty, cl_vm_ips := Map.empty\<rparr>"

text \<open>Agreement up to what is local, on the IP rows too or on all others.\<close>

definition agree :: "bool \<Rightarrow> cluster \<Rightarrow> cluster \<Rightarrow> bool" where
  "agree ips c c' \<longleftrightarrow>
     (if ips then erase_local c = erase_local c' else erase_ips (erase_local c) = erase_ips (erase_local c'))"

lemma agree_iff:
  "agree ips c c' \<longleftrightarrow>
     (\<forall>n. map_option erase_vm (cl_vms c n) = map_option erase_vm (cl_vms c' n)) \<and>
     (\<forall>t. map_option erase_usage (cl_usage c t) = map_option erase_usage (cl_usage c' t)) \<and>
     cl_tasks c = cl_tasks c' \<and> cl_assignments c = cl_assignments c' \<and> cl_results c = cl_results c' \<and>
     cl_workers c = cl_workers c' \<and> cl_worker_status c = cl_worker_status c' \<and>
     cl_topology c = cl_topology c' \<and> cl_quotas c = cl_quotas c' \<and>
     (ips \<longrightarrow> cl_ip_allocations c = cl_ip_allocations c' \<and> cl_vm_ips c = cl_vm_ips c')"
  by (cases c; cases c') (auto simp: agree_def erase_local_def erase_ips_def fun_eq_iff)

lemma agree_refl [simp]: "agree ips c c"
  by (simp add: agree_def)

lemma agree_trans: "agree ips c c' \<Longrightarrow> agree ips c' c'' \<Longrightarrow> agree ips c c''"
  by (simp add: agree_def split: if_splits)

lemma agree_sym: "agree ips c c' \<Longrightarrow> agree ips c' c"
  by (simp add: agree_def split: if_splits)

fun usage_update :: "proposal_data \<Rightarrow> bool" where
  "usage_update (UpdateTenantUsage _ _ _) = True"
| "usage_update _ = False"

fun allocates_ip :: "proposal_data \<Rightarrow> bool" where
  "allocates_ip (AllocateIp _) = True"
| "allocates_ip _ = False"

text \<open>The proposals that an entry applies, in order.\<close>

definition entry_proposals :: "codec \<Rightarrow> raft_entry \<Rightarrow> proposal_data list" where
  "entry_proposals C entry =
     (if entry_data entry = [] then []
      else case dec (c_proposal C) (entry_data entry) of
             None \<Rightarrow> []
           | Some (Batch ps) \<Rightarrow> ps
           | Some p \<Rightarrow> [p])"

lemma erase_vm_update:
  assumes "map_option erase_vm x = map_option erase_vm y" and "\<And>vm. erase_vm (f vm) = f (erase_vm vm)"
  shows "map_option erase_vm (map_option f x) = map_option erase_vm (map_option f y)"
  using assms by (cases x; cases y) simp_all

lemma erase_usage_delta:
  assumes "agree ips c c'" and "ch_usage_lost ch = ch_usage_lost ch'"
  shows "erase_usage (apply_delta delta (ch_now ch) (spec_usage ch tenant c)) =
         erase_usage (apply_delta delta (ch_now ch') (spec_usage ch' tenant c'))"
proof -
  have same: "u_tenant_id u = u_tenant_id u' \<and> u_vm_usage u = u_vm_usage u' \<and> u_api_usage u = u_api_usage u' \<and>
      u_storage_usage u = u_storage_usage u'" if "erase_usage u = erase_usage u'" for u u'
    using that by (cases u; cases u') (simp add: erase_usage_def)
  have delta: "erase_usage (apply_delta delta now u) = erase_usage (apply_delta delta now' u')"
    if "erase_usage u = erase_usage u'" for u u' now now'
    using same [OF that] by (cases u; cases u') (simp add: erase_usage_def apply_delta_def)
  have new: "erase_usage (tenant_usage_new now tenant) = erase_usage (tenant_usage_new now' tenant)" for now now'
    by (simp add: erase_usage_def tenant_usage_new_def)
  have "map_option erase_usage (cl_usage c tenant) = map_option erase_usage (cl_usage c' tenant)"
    using assms(1) by (simp add: agree_iff)
  then have "erase_usage (spec_usage ch tenant c) = erase_usage (spec_usage ch' tenant c')"
    using new assms(2) unfolding spec_usage_def
    by (cases "ch_usage_lost ch'"; cases "cl_usage c tenant"; cases "cl_usage c' tenant"; simp)
  then show ?thesis by (rule delta)
qed

lemma spec_vm_command_agree:
  assumes "agree ips c c'"
  shows "agree ips (spec_vm_command now command c) (spec_vm_command now' command c')"
  using assms
  by (cases command; auto simp: agree_iff intro!: erase_vm_update; simp add: erase_vm_def)

text \<open>
  Two choices lead to the same rows when identifiers are printed the same way and usage rows are lost
  on both sides or on none.
\<close>

definition alike :: "choices \<Rightarrow> choices \<Rightarrow> proposal_data \<Rightarrow> bool" where
  "alike ch ch' p \<longleftrightarrow> ch_uuid ch = ch_uuid ch' \<and>
     (usage_update p \<longrightarrow> ch_usage_lost ch = ch_usage_lost ch')"

lemma allocate_agree:
  assumes "agree False c c'"
  shows "agree False (spec_proposal ch (AllocateIp request) c) (spec_proposal ch' (AllocateIp request) c')"
proof -
  have pools: "agree False (c\<lparr>cl_pools := m\<rparr>) c" for m c by (simp add: agree_iff)
  have alloc: "agree False (spec_allocation ch a c) c" for ch a c
    by (simp add: agree_iff spec_allocation_def Let_def)
  have "agree False (spec_proposal ch (AllocateIp request) c) c" for ch c
    using pools agree_trans [OF alloc pools] by (simp split: prod.split outcome.split)
  then show ?thesis using assms agree_trans agree_sym by metis
qed

lemma spec_proposal_agree:
  assumes "agree ips c c'" and "ips \<longrightarrow> \<not> allocates_ip p" and "alike ch ch' p"
  shows "agree ips (spec_proposal ch p c) (spec_proposal ch' p c')"
proof (cases p)
  case (CreateVm command)
  then show ?thesis using spec_vm_command_agree [OF assms(1)] by simp
next
  case (UpdateTenantUsage tenant delta operation_id)
  then have l: "ch_usage_lost ch = ch_usage_lost ch'" using assms(3) by (simp add: alike_def)
  show ?thesis
    using assms(1) erase_usage_delta [OF assms(1) l] by (simp add: UpdateTenantUsage agree_iff)
next
  case (UpdateVmStatus name status node_id)
  then show ?thesis
    using assms(1) by (auto simp: agree_iff intro!: erase_vm_update) (simp_all add: erase_vm_def)
next
  case (MigrateVm name from_node to_node)
  then show ?thesis
    using assms(1) by (auto simp: agree_iff intro!: erase_vm_update) (simp_all add: erase_vm_def)
next
  case (AllocateIp request)
  then show ?thesis using allocate_agree assms(1,2) by (cases ips) (simp_all del: spec_proposal.simps)
qed (use assms in \<open>auto simp: agree_iff alike_def\<close>)

lemma spec_batch_agree:
  assumes "agree ips c c'" and "ips \<longrightarrow> list_all (\<lambda>p. \<not> allocates_ip p) ps"
    and "\<And>i p. p \<in> set ps \<Longrightarrow> alike (ch i) (ch' i) p"
  shows "agree ips (spec_batch ch i ps c) (spec_batch ch' i ps c')"
  using assms
proof (induction ps arbitrary: i c c')
  case (Cons p ps)
  have "agree ips (spec_proposal (ch i) p c) (spec_proposal (ch' i) p c')"
    using Cons.prems by (intro spec_proposal_agree) auto
  then show ?case using Cons.IH Cons.prems(2,3) by simp
qed simp

text \<open>A replica that applies the entries of a log one after the other, each of them successfully.\<close>

inductive log_applied ::
  "('d, 't, 'r) redb \<Rightarrow> codec \<Rightarrow> ((nat \<Rightarrow> sm_env) \<times> raft_entry) list \<Rightarrow> 'd state_machine \<Rightarrow> 'd state_machine \<Rightarrow> bool"
  for R C where
  log_done: "log_applied R C [] sm sm"
| log_next: "apply_entry 2 R C E entry sm = (Ok (), sm1) \<Longrightarrow> log_applied R C es sm1 sm2 \<Longrightarrow>
     log_applied R C ((E, entry) # es) sm sm2"

inductive_cases log_applied_ConsE: "log_applied R C (x # es) sm sm'"
inductive_cases log_applied_NilE: "log_applied R C [] sm sm'"

text \<open>An entry applies its proposals in order.\<close>

definition spec_log_entry :: "codec \<Rightarrow> (nat \<Rightarrow> choices) \<Rightarrow> raft_entry \<Rightarrow> cluster \<Rightarrow> cluster" where
  "spec_log_entry C ch entry = spec_batch ch 0 (entry_proposals C entry)"

lemma spec_log_entry_decoded:
  assumes "entry_data entry \<noteq> []" and "dec (c_proposal C) (entry_data entry) = Some p"
  shows "spec_log_entry C ch entry = spec_entry ch p"
  using assms
  by (auto simp: spec_log_entry_def entry_proposals_def spec_entry_def fun_eq_iff simp del: spec_proposal.simps
      split: proposal_data.split)

lemma spec_log_entry_agree:
  assumes "agree ips c c'" and "ips \<longrightarrow> list_all (\<lambda>p. \<not> allocates_ip p) (entry_proposals C entry)"
    and "\<And>i p. p \<in> set (entry_proposals C entry) \<Longrightarrow> alike (ch i) (ch' i) p"
  shows "agree ips (spec_log_entry C ch entry c) (spec_log_entry C ch' entry c')"
  unfolding spec_log_entry_def by (rule spec_batch_agree [OF assms])

lemma applied_entry_spec:
  assumes "redb_ok R view tview rview" and "codec_ok C"
    and "apply_entry 2 R C E entry sm = (Ok (), sm')"
  shows "\<exists>lost. (\<forall>i. gets_succeed R TENANT_USAGE_TABLE \<longrightarrow> \<not> lost i) \<and>
    sm_cluster C view sm' = spec_log_entry C (\<lambda>i. choices_of C (E i) (lost i)) entry (sm_cluster C view sm)"
proof -
  have two: "apply_entry (Suc (Suc 0)) R C E entry sm = (Ok (), sm')"
    using assms(3) by (simp add: eval_nat_numeral del: apply_entry.simps)
  consider "entry_data entry = []" | "entry_data entry \<noteq> []" "dec (c_proposal C) (entry_data entry) = None"
    | p where "entry_data entry \<noteq> []" "dec (c_proposal C) (entry_data entry) = Some p" by fastforce
  then show ?thesis
  proof cases
    case 1
    then have "sm' = sm" using two by simp
    then show ?thesis
      using 1 by (intro exI [of _ "\<lambda>_. False"]) (simp add: spec_log_entry_def entry_proposals_def)
  next
    case 2
    then show ?thesis using two by (simp add: deserialize_context_def or_err_def)
  next
    case (3 p)
    show ?thesis
    proof (cases "is_batch p")
      case True
      then obtain ps where p: "p = Batch ps" by (auto split: proposal_data.splits)
      have "spec_log_entry C ch entry = spec_batch ch 0 ps" for ch
        unfolding spec_log_entry_decoded [OF 3] by (simp add: p spec_entry_def fun_eq_iff)
      with batch_entry_refines [OF assms(1,2) 3(1) _ two, of ps] 3(2) p show ?thesis by simp
    next
      case False
      then have "spec_log_entry C ch entry = spec_proposal (ch 0) p" for ch
        unfolding spec_log_entry_decoded [OF 3]
        by (simp add: spec_entry_def fun_eq_iff split: proposal_data.splits del: spec_proposal.simps)
      moreover obtain l where "gets_succeed R TENANT_USAGE_TABLE \<longrightarrow> \<not> l"
        "sm_cluster C view sm' = spec_proposal (choices_of C (E 0) l) p (sm_cluster C view sm)"
        using entry_single_refines [OF assms(1,2) 3 False two] by blast
      ultimately show ?thesis by (intro exI [of _ "\<lambda>_. l"]) (simp del: spec_proposal.simps)
    qed
  qed
qed

end
