(* ===== verification/Replication.thy ===== *)
theory Replication
  imports State_Machine_Spec Raft_Recovery
begin

text \<open>
  The guarantees of the replicated state machine: applied entries refine the specification, refused
  entries change nothing, batches stop at the first failure, replicas that apply the same log agree
  up to recorded times, and the entries that stop a node.
\<close>

section \<open>Entries that return\<close>

definition returned :: "'a outcome \<Rightarrow> bool" where
  "returned r \<longleftrightarrow> r \<noteq> Panics \<and> r \<noteq> Blocks"

fun ip_proposal :: "proposal_data \<Rightarrow> bool" where
  "ip_proposal (IpPoolCommand _) = True"
| "ip_proposal (AllocateIp _) = True"
| "ip_proposal (ReleaseVmIps _) = True"
| "ip_proposal _ = False"

fun quota_proposal :: "proposal_data \<Rightarrow> bool" where
  "quota_proposal (SetTenantQuota _) = True"
| "quota_proposal (UpdateTenantUsage _ _ _) = True"
| "quota_proposal (RemoveTenantQuota _) = True"
| "quota_proposal _ = False"

text \<open>The proposals whose handlers call \<open>Handle::block_on\<close>.\<close>

definition calls_block_on :: "proposal_data \<Rightarrow> bool" where
  "calls_block_on p \<longleftrightarrow> ip_proposal p \<or> quota_proposal p"

lemma returned_iff: "returned r \<longleftrightarrow> (\<exists>x. r = Ok x) \<or> (\<exists>e. r = Err e)"
  by (cases r) (simp_all add: returned_def)

lemma returned_simps [simp]: "returned (Ok x)" "returned (Err e)" "\<not> returned Panics" "\<not> returned Blocks"
  by (simp_all add: returned_def)

lemma returned_or_err [simp]: "returned (or_err e x)"
  by (simp add: or_err_def split: option.split)

lemma returned_tx [simp]:
  "returned (tx_open R T t)" "returned (tx_insert R T k v t)" "returned (tx_remove R T k t)"
  "returned (tx_get R T k t)" "returned (serialize_context s x)" "returned (deserialize_context s s' y)"
  by (simp_all add: tx_open_def tx_insert_def tx_remove_def tx_get_def serialize_context_def
      deserialize_context_def)

lemma returned_obind [intro!]: "returned x \<Longrightarrow> (\<And>y. returned (f y)) \<Longrightarrow> returned (obind x f)"
  by (cases x) simp_all

lemma returned_update_vm_row [simp]: "returned (update_vm_row R C name f t)"
  unfolding update_vm_row_def by (auto split: option.split)

lemma on_db_admission [simp]: "sm_admission (snd (on_db f sm)) = sm_admission sm"
  by (simp add: on_db_def split: prod.split)

lemma returned_on_db: "returned work \<Longrightarrow> returned (fst (on_db (in_txn R operation work) sm))"
  by (cases work) (auto simp: on_db_def in_txn_def split: prod.split)

lemma vm_command_returned:
  assumes "\<not> sm_admission sm"
  shows "returned (fst (apply_vm_command R C E t command sm)) \<and>
         sm_admission (snd (apply_vm_command R C E t command sm)) = sm_admission sm"
  using assms
  by (cases command) (auto simp: Let_def update_vm_status_internal_def intro!: returned_on_db)

lemma proposal_returned:
  assumes "\<not> calls_block_on p" and "\<not> sm_admission sm"
  shows "returned (fst (apply_proposal R C E t p sm)) \<and> \<not> sm_admission (snd (apply_proposal R C E t p sm))"
  using assms vm_command_returned [OF assms(2), where R = R]
  by (cases p)
    (auto simp: calls_block_on_def apply_assign_task_def apply_complete_task_def apply_reassign_task_def
      apply_register_worker_def apply_update_worker_status_def apply_remove_worker_def
      apply_update_vm_status_def Let_def simp del: apply_vm_command.simps intro!: returned_on_db)

lemma single_entry_returned:
  assumes "\<And>p. dec (c_proposal C) (entry_data entry) = Some p \<Longrightarrow> \<not> calls_block_on p \<and> \<not> is_batch p"
    and "\<not> sm_admission sm"
  shows "returned (fst (apply_entry (Suc depth) R C E entry sm)) \<and>
         \<not> sm_admission (snd (apply_entry (Suc depth) R C E entry sm))"
proof (cases "entry_data entry = [] \<or> dec (c_proposal C) (entry_data entry) = None")
  case True
  then show ?thesis using assms(2) by (auto simp: deserialize_context_def or_err_def)
next
  case False
  then obtain p where p: "entry_data entry \<noteq> []" "dec (c_proposal C) (entry_data entry) = Some p" by blast
  then have np: "\<not> calls_block_on p" "\<not> is_batch p" using assms(1) by blast+
  show ?thesis
    unfolding entry_single [OF p np(2)]
    using proposal_returned [where E = "E 0" and sm = sm and R = R, OF np(1) assms(2)] assms(2)
    by (simp split: option.split)
qed

lemma batch_returned:
  assumes "codec_ok C" and "list_all (\<lambda>p. \<not> calls_block_on p) ps"
    and "\<not> sm_admission sm"
  shows "returned (fst (apply_batch (\<lambda>i. apply_entry (Suc 0) R C (\<lambda>_. E i)) C entry i ps sm))"
  using assms(2,3)
proof (induction ps arbitrary: i sm)
  case (Cons p ps)
  show ?case
  proof (cases "enc (c_proposal C) p")
    case None
    then show ?thesis by (simp add: serialize_context_def or_err_def)
  next
    case (Some b)
    let ?s = "apply_entry (Suc 0) R C (\<lambda>_. E i) (entry\<lparr>entry_data := b\<rparr>) sm"
    show ?thesis
    proof (cases "is_batch p")
      case False
      have "returned (fst ?s) \<and> \<not> sm_admission (snd ?s)"
        using Cons.prems codec_dec(8) [OF assms(1) Some] False
        by (intro single_entry_returned) auto
      then show ?thesis
        using Cons.IH Cons.prems(1) False Some
        by (cases ?s; cases "fst ?s")
          (auto simp: serialize_context_def or_err_def simp del: apply_entry.simps)
    qed simp
  qed
qed simp

lemma batch_entry_returned:
  assumes "codec_ok C" and "list_all (\<lambda>p. \<not> calls_block_on p) ps"
    and "\<not> sm_admission sm" and "dec (c_proposal C) (entry_data entry) = Some (Batch ps)"
  shows "returned (fst (apply_entry (Suc (Suc 0)) R C E entry sm))"
proof (cases "entry_data entry = [] \<or> begin_write R (sm_database sm) = None")
  case True
  then show ?thesis using assms(4) by (auto simp: deserialize_context_def or_err_def)
next
  case False
  then obtain t where t: "entry_data entry \<noteq> []" "begin_write R (sm_database sm) = Some t" by blast
  let ?s = "on_db (in_txn R ''commit batch transaction'' (Ok t)) sm"
  have s: "returned (fst ?s)" "\<not> sm_admission (snd ?s)"
    using returned_on_db [of "Ok t" R _ sm] assms(3) by simp_all
  have "apply_entry (Suc (Suc 0)) R C E entry sm =
      (case ?s of (Ok _, sm) \<Rightarrow> apply_batch (\<lambda>i. apply_entry (Suc 0) R C (\<lambda>_. E i)) C entry 0 ps sm
       | (r, sm) \<Rightarrow> (r, sm))"
    using t by (simp add: assms(4) deserialize_context_def or_err_def)
  then show ?thesis
    using s batch_returned [OF assms(1,2) s(2)]
    by (cases ?s; cases "fst ?s") (auto simp del: apply_entry.simps)
qed

lemma quota_proposal_InAsync:
  assumes "quota_proposal p" and "sm_shared sm \<noteq> None" and "e_runtime E = InAsync"
    and "apply_proposal R C (E\<lparr>e_runtime := NoRuntime\<rparr>) t p sm = (Ok (), sm')"
  shows "apply_proposal R C E t p sm = (Panics, sm')"
proof -
  have tell: "commit_and_tell R InAsync operation work f sm = (Panics, sm')"
    if "commit_and_tell R NoRuntime operation work f sm = (Ok (), sm')" for operation work f
    using that assms(2) unfolding commit_and_tell_def tell_quota_manager_def on_db_def
    by (auto split: prod.splits outcome.splits option.splits)
  show ?thesis
    using assms(1,3,4)
    by (cases p) (auto simp: apply_set_tenant_quota_def apply_update_tenant_usage_def
        apply_remove_tenant_quota_def intro: tell)
qed

definition forget_pools :: "cluster \<Rightarrow> cluster" where
  "forget_pools c = c\<lparr>cl_pools := ip_pool_manager_new\<rparr>"

text \<open>Two replicas that apply the same log.\<close>

lemma replicas_agree_on:
  assumes "redb_ok R1 view1 tview1 rview1" and "redb_ok R2 view2 tview2 rview2" and "codec_ok C"
    and "gets_succeed R1 TENANT_USAGE_TABLE" and "gets_succeed R2 TENANT_USAGE_TABLE"
    and "log_applied R1 C log1 sm1 sm1'" and "log_applied R2 C log2 sm2 sm2'"
    and "map snd log1 = map snd log2"
    and "ips \<longrightarrow> list_all (\<lambda>entry. list_all (\<lambda>p. \<not> allocates_ip p) (entry_proposals C entry)) (map snd log1)"
    and "agree ips (sm_cluster C view1 sm1) (sm_cluster C view2 sm2)"
  shows "agree ips (sm_cluster C view1 sm1') (sm_cluster C view2 sm2')"
  using assms(6-10)
proof (induction arbitrary: log2 sm2 rule: log_applied.induct)
  case (log_done sm)
  then show ?case by (auto elim: log_applied_NilE)
next
  case (log_next E entry sm smA es smB)
  then obtain E' es' where l2: "log2 = (E', entry) # es'" "map snd es = map snd es'" by (cases log2) auto
  obtain smC where c: "apply_entry 2 R2 C E' entry sm2 = (Ok (), smC)" "log_applied R2 C es' smC sm2'"
    using log_next.prems(1) unfolding l2(1) by (elim log_applied_ConsE) auto
  from applied_entry_spec [OF assms(1,3) log_next.hyps(1)] assms(4) obtain lost where
    A: "\<And>i. \<not> lost i" "sm_cluster C view1 smA = spec_log_entry C (\<lambda>i. choices_of C (E i) (lost i)) entry
      (sm_cluster C view1 sm)" by blast
  from applied_entry_spec [OF assms(2,3) c(1)] assms(5) obtain lost' where
    C: "\<And>i. \<not> lost' i" "sm_cluster C view2 smC = spec_log_entry C (\<lambda>i. choices_of C (E' i) (lost' i)) entry
      (sm_cluster C view2 sm2)" by blast
  have "agree ips (sm_cluster C view1 smA) (sm_cluster C view2 smC)"
    unfolding A(2) C(2) using log_next.prems(3,4) A(1) C(1)
    by (intro spec_log_entry_agree) (simp_all add: alike_def)
  then show ?case using log_next.IH [OF c(2) l2(2)] log_next.prems(3) by simp
qed

section \<open>Properties\<close>

text \<open>
  C1. Refinement: whenever \<open>apply_entry\<close> applies an entry successfully, the cluster (the rows of the
  nine cluster tables and of the two IP tables, and the IP pools in memory) changes exactly as the
  specification of the entry's proposal says, a batch in order, with the clock and the allocator of
  this replica. The store and the serializer are assumed to keep their documented contracts. A usage
  update whose read of the usage row fails starts from an empty usage, because the code takes the
  failed read for a missing row: \<open>lost\<close> marks these updates, and there are none if reads succeed.
\<close>

theorem apply_entry_refines:
  assumes "redb_ok R view tview rview" and "codec_ok C"
    and "entry_data entry \<noteq> []" and "dec (c_proposal C) (entry_data entry) = Some p"
    and "apply_entry 2 R C E entry sm = (Ok (), sm')"
  shows "\<exists>lost. (\<forall>i. gets_succeed R TENANT_USAGE_TABLE \<longrightarrow> \<not> lost i) \<and>
           sm_cluster C view sm' =
             spec_entry (\<lambda>i. choices_of C (E i) (lost i)) p (sm_cluster C view sm)"
  using applied_entry_spec [OF assms(1,2,5)] unfolding spec_log_entry_decoded [OF assms(3,4)] .

text \<open>
  C15. An entry that is refused with an error leaves every row of the database as it was, unless it
  holds a batch.
\<close>

theorem failed_entry_changes_nothing:
  assumes "redb_ok R view tview rview"
    and "\<And>ps. dec (c_proposal C) (entry_data entry) \<noteq> Some (Batch ps)"
    and "apply_entry 2 R C E entry sm = (Err e, sm')"
  shows "view (sm_database sm') = view (sm_database sm)"
proof (cases "entry_data entry = [] \<or> dec (c_proposal C) (entry_data entry) = None")
  case True
  then have "sm' = sm"
    using assms(3) by (elim disjE) (simp_all add: eval_nat_numeral deserialize_context_def or_err_def split: if_splits)
  then show ?thesis by simp
next
  case False
  then obtain p where "entry_data entry \<noteq> []" "dec (c_proposal C) (entry_data entry) = Some p" by blast
  moreover have "\<not> is_batch p" using assms(2) calculation(2) by (auto split: proposal_data.splits)
  ultimately show ?thesis
    using entry_single_Err [OF assms(1), where depth = "Suc 0"] assms(3)
    by (simp add: eval_nat_numeral del: apply_entry.simps)
qed

text \<open>
  C16. Batches are not atomic, and stop at the first failure: when a batch entry is refused with an
  error, a proper prefix of its proposals has been applied to the rows (nothing, when the batch is
  empty). Reads of usage rows are assumed not to fail, and the IP pools in memory are left out: the
  proposal that failed may have changed them.
\<close>

theorem failed_batch_applies_prefix:
  assumes "redb_ok R view tview rview" and "codec_ok C" and "gets_succeed R TENANT_USAGE_TABLE"
    and "entry_data entry \<noteq> []" and "dec (c_proposal C) (entry_data entry) = Some (Batch ps)"
    and "apply_entry 2 R C E entry sm = (Err e, sm')"
  shows "\<exists>n. (n = 0 \<or> n < length ps) \<and>
           forget_pools (sm_cluster C view sm') =
             forget_pools (spec_batch (\<lambda>i. choices_of C (E i) False) 0 (take n ps) (sm_cluster C view sm))"
proof -
  let ?A = "sm_cluster C view"
  have two: "apply_entry (Suc (Suc 0)) R C E entry sm = (Err e, sm')"
    using assms(6) by (simp add: eval_nat_numeral del: apply_entry.simps)
  have ok: "?A y = spec_proposal (choices_of C (E i) False) p (?A x)"
    if "entry_data ea \<noteq> []" "dec (c_proposal C) (entry_data ea) = Some p"
    "\<not> is_batch p" "apply_entry (Suc 0) R C (\<lambda>_. E i) ea x = (Ok (), y)" for i ea p x y
    using entry_single_refines [OF assms(1,2) that] assms(3) by (auto simp del: spec_proposal.simps)
  have err: "forget_pools (?A y) = forget_pools (?A x)"
    if "entry_data ea \<noteq> []" "dec (c_proposal C) (entry_data ea) = Some p"
    "\<not> is_batch p" "apply_entry (Suc 0) R C (\<lambda>_. E i) ea x = (Err e, y)" for i ea p x y
    using entry_single_Err [OF assms(1) that] by (simp add: forget_pools_def abs_cluster_def)
  from entry_batch [OF assms(1,4,5) two] show ?thesis
  proof (elim disjE exE conjE)
    fix sm1
    assume sm1: "?A sm1 = ?A sm"
      "apply_batch (\<lambda>i. apply_entry (Suc 0) R C (\<lambda>_. E i)) C entry 0 ps sm1 = (Err e, sm')"
    have "\<exists>n < length ps. forget_pools (?A sm') =
        forget_pools (spec_batch (\<lambda>i. choices_of C (E i) False) 0 (take n ps) (?A sm1))"
      by (rule batch_prefix [where A = ?A and F = forget_pools, OF assms(2) ok err sm1(2)])
    then show ?thesis unfolding sm1(1) by blast
  next
    assume "?A sm' = ?A sm"
    then show ?thesis by (intro exI [of _ 0]) simp
  qed
qed

text \<open>
  C17. The recursion of \<open>apply_entry\<close> through batches ends: a depth of two gives the result of every
  larger depth, because a batch inside a batch is refused.
\<close>

theorem apply_entry_depth:
  assumes "codec_ok C"
  shows "apply_entry (n + 2) R C E entry sm = apply_entry 2 R C E entry sm"
proof (cases "\<exists>ps. dec (c_proposal C) (entry_data entry) = Some (Batch ps)")
  case True
  then obtain ps where ps: "dec (c_proposal C) (entry_data entry) = Some (Batch ps)" by blast
  have two: "n + 2 = Suc (Suc n)" "2 = Suc (Suc 0)" by simp_all
  show ?thesis
  proof (cases "entry_data entry = []")
    case False
    have "apply_batch (\<lambda>i. apply_entry (Suc n) R C (\<lambda>_. E i)) C entry 0 ps sm =
        apply_batch (\<lambda>i. apply_entry (Suc 0) R C (\<lambda>_. E i)) C entry 0 ps sm" for sm
      by (rule batch_depth [OF assms])
    then show ?thesis
      unfolding two(2) add_Suc_right add_0_right entry_batch_step [OF False ps] by (simp only:)
  qed (simp add: two)
next
  case False
  have two: "n + 2 = Suc (Suc n)" "2 = Suc (Suc 0)" by simp_all
  show ?thesis unfolding two(1) unfolding two(2) by (rule entry_depth_single) (use False in blast)
qed

text \<open>
  C2. Replicas agree: two replicas, each with a store, a clock and an allocator of its own, that start
  in agreement and successfully apply the same entries in the same order end in agreement on the rows
  of virtual machines, tasks, workers, topology, quotas and usage, up to recorded times. The IP rows
  agree as well if they did at the start and no entry allocates an address; an allocation records what
  the allocator of the replica chooses. Reads of usage rows are assumed not to fail: a failed read is
  taken for an empty usage, and the replicas would differ from there on.
\<close>

theorem replicas_agree:
  assumes "redb_ok R1 view1 tview1 rview1" and "redb_ok R2 view2 tview2 rview2" and "codec_ok C"
    and "gets_succeed R1 TENANT_USAGE_TABLE" and "gets_succeed R2 TENANT_USAGE_TABLE"
    and "log_applied R1 C log1 sm1 sm1'" and "log_applied R2 C log2 sm2 sm2'"
    and "map snd log1 = map snd log2"
    and "erase_ips (erase_local (sm_cluster C view1 sm1)) = erase_ips (erase_local (sm_cluster C view2 sm2))"
  shows "erase_ips (erase_local (sm_cluster C view1 sm1')) = erase_ips (erase_local (sm_cluster C view2 sm2')) \<and>
    (erase_local (sm_cluster C view1 sm1) = erase_local (sm_cluster C view2 sm2) \<and>
     list_all (\<lambda>entry. list_all (\<lambda>p. \<not> allocates_ip p) (entry_proposals C entry)) (map snd log1) \<longrightarrow>
       erase_local (sm_cluster C view1 sm1') = erase_local (sm_cluster C view2 sm2'))"
  using replicas_agree_on [OF assms(1-8), of False] replicas_agree_on [OF assms(1-8), of True] assms(9)
  by (simp add: agree_def)

text \<open>
  Entries that stop a node. While the runtime drives the state machine, an IP pool command or an
  IP allocation panics before anything is written; and a quota proposal that would be applied panics
  right after its changes have been committed, unless the node state has been dropped.
\<close>

theorem blocking_entry_panics:
  assumes "entry_data entry \<noteq> []" and "dec (c_proposal C) (entry_data entry) = Some p"
    and "begin_write R (sm_database sm) \<noteq> None" and "e_runtime (E 0) = InAsync"
  shows "(p = IpPoolCommand command \<or> p = AllocateIp request \<longrightarrow>
            apply_entry 2 R C E entry sm = (Panics, sm)) \<and>
         (quota_proposal p \<and> sm_shared sm \<noteq> None \<and>
          apply_entry 2 R C (\<lambda>i. (E i)\<lparr>e_runtime := NoRuntime\<rparr>) entry sm = (Ok (), sm') \<longrightarrow>
            apply_entry 2 R C E entry sm = (Panics, sm'))"
proof (intro conjI impI)
  obtain t where t: "begin_write R (sm_database sm) = Some t" using assms(3) by blast
  have step: "apply_entry 2 R C E' entry sm = apply_proposal R C (E' 0) t p sm" if "\<not> is_batch p" for E'
    using t by (simp add: eval_nat_numeral entry_single [OF assms(1,2) that] del: apply_entry.simps)
  show "apply_entry 2 R C E entry sm = (Panics, sm)" if "p = IpPoolCommand command \<or> p = AllocateIp request"
    using that assms(4) by (auto simp: step apply_ip_pool_command_def apply_allocate_ip_def)
  assume q: "quota_proposal p \<and> sm_shared sm \<noteq> None \<and>
      apply_entry 2 R C (\<lambda>i. (E i)\<lparr>e_runtime := NoRuntime\<rparr>) entry sm = (Ok (), sm')"
  then have "\<not> is_batch p" by (cases p) simp_all
  then show "apply_entry 2 R C E entry sm = (Panics, sm')"
    using q step quota_proposal_InAsync [OF _ _ assms(4), where R = R] by simp
qed


text \<open>
  Creating a VM for a tenant without a quota never returns when admission control is configured:
  the default quota is saved in a write transaction that waits for the one of the handler itself.
\<close>

theorem admission_deadlocks:
  assumes "entry_data entry \<noteq> []"
    and "dec (c_proposal C) (entry_data entry) = Some (CreateVm (Create config node_id))"
    and "begin_write R (sm_database sm) \<noteq> None" and "begin_read R (sm_database sm) \<noteq> None"
    and "sm_admission sm" and "e_runtime (E 0) = Entered" and "sm_shared sm = Some (Some qm)"
    and "\<not> quotas_poisoned qm" and "quotas qm (vc_tenant_id config) = None"
  shows "apply_entry 2 R C E entry sm = (Blocks, sm)"
proof -
  obtain t r where t: "begin_write R (sm_database sm) = Some t" "begin_read R (sm_database sm) = Some r"
    using assms(3,4) by blast
  have two: "2 = Suc (Suc 0)" by simp
  show ?thesis
    unfolding two using t assms(5-9)
    by (simp add: entry_single [OF assms(1,2)] del: apply_entry.simps add: validate_vm_admission_def read_txn_def or_err_def)
qed

section \<open>Witnesses\<close>

text \<open>A serializer that writes a proposal as its position in a list, and one that always fails.\<close>

definition table_serde :: "'a list \<Rightarrow> 'a serde" where
  "table_serde xs =
     \<lparr>enc = (\<lambda>x. map_option (\<lambda>i. [of_nat i]) (find (\<lambda>i. xs ! i = x) [0..<length xs])),
      dec = (\<lambda>b. case b of [w] \<Rightarrow> (if unat w < length xs then Some (xs ! unat w) else None) | _ \<Rightarrow> None)\<rparr>"

definition no_serde :: "'a serde" where
  "no_serde = \<lparr>enc = (\<lambda>x. None), dec = (\<lambda>b. None)\<rparr>"

lemma unat_of_nat_u8: "i < 256 \<Longrightarrow> unat (of_nat i :: byte) = i"
  by (simp add: unat_of_nat take_bit_eq_mod)

lemma table_serde_ok: "length xs \<le> 256 \<Longrightarrow> serde_ok (table_serde xs)"
  by (auto simp: serde_ok_def table_serde_def find_Some_iff unat_of_nat_u8)

lemma no_serde_ok [simp]: "serde_ok no_serde"
  by (simp add: serde_ok_def no_serde_def)

definition sample_worker :: proposal_data where
  "sample_worker =
     RegisterWorker 4 [] \<lparr>wc_cpu_cores = 8, wc_memory_mb = 1024, wc_disk_gb = 10, wc_features = []\<rparr>
       node_topology_default"

definition sample_proposals :: "proposal_data list" where
  "sample_proposals =
     [UpdateWorkerStatus 3 Busy, UpdateWorkerStatus 3 Offline,
      Batch [UpdateWorkerStatus 3 Busy, UpdateWorkerStatus 3 Offline], sample_worker,
      Batch [UpdateWorkerStatus 3 Busy, sample_worker],
      IpPoolCommand (SetPoolEnabled 1 False), RemoveTenantQuota ''acme'',
      CreateVm (Create vm_config_default 1)]"

definition sample_codec :: codec where
  "sample_codec =
     \<lparr>c_proposal = table_serde sample_proposals, c_task_spec = no_serde, c_task_result = no_serde,
      c_worker = no_serde, c_topology = no_serde, c_vm_state = no_serde, c_quota = no_serde,
      c_usage = no_serde, c_ip_allocation = no_serde, c_ips = no_serde, c_uuid = (\<lambda>_. [])\<rparr>"

lemma sample_codec_ok: "codec_ok sample_codec"
  by (simp add: codec_ok_def sample_codec_def table_serde_ok sample_proposals_def)
    (simp add: table_serde_def)

definition sample_sm_env :: "runtime \<Rightarrow> nat \<Rightarrow> sm_env" where
  "sample_sm_env rt i = \<lparr>e_runtime = rt, e_now = int i, e_alloc = sample_env, e_rnd32 = (\<lambda>x. x)\<rparr>"

definition sample_state_machine :: "mem_db state_machine" where
  "sample_state_machine = state_machine_new empty_db (Some (Some sample_quota_manager))"

definition sample_apply ::
  "runtime \<Rightarrow> byte \<Rightarrow> mem_db state_machine \<Rightarrow> unit outcome \<times> mem_db state_machine" where
  "sample_apply rt b = apply_entry 2 mem_redb sample_codec (sample_sm_env rt) ((sample_entry 1)\<lparr>entry_data := [b]\<rparr>)"

lemma sample_dec:
  "dec (c_proposal sample_codec) [0] = Some (UpdateWorkerStatus 3 Busy)"
  "dec (c_proposal sample_codec) [1] = Some (UpdateWorkerStatus 3 Offline)"
  "dec (c_proposal sample_codec) [2] =
     Some (Batch [UpdateWorkerStatus 3 Busy, UpdateWorkerStatus 3 Offline])"
  "dec (c_proposal sample_codec) [3] = Some sample_worker"
  "dec (c_proposal sample_codec) [4] = Some (Batch [UpdateWorkerStatus 3 Busy, sample_worker])"
  "dec (c_proposal sample_codec) [5] = Some (IpPoolCommand (SetPoolEnabled 1 False))"
  "dec (c_proposal sample_codec) [6] = Some (RemoveTenantQuota ''acme'')"
  "dec (c_proposal sample_codec) [7] = Some (CreateVm (Create vm_config_default 1))"
  by (simp_all add: sample_codec_def table_serde_def sample_proposals_def)

lemma mem_begin_write [simp]: "begin_write mem_redb d = Some d"
  by (simp add: mem_redb_def)

lemma mem_in_txn_Err [simp]: "in_txn mem_redb operation (Err e) d = (Err e, d)"
  by (simp add: in_txn_def)

lemma sample_enc:
  "enc (c_proposal sample_codec) (UpdateWorkerStatus 3 Busy) = Some [0]"
  "enc (c_proposal sample_codec) (UpdateWorkerStatus 3 Offline) = Some [1]"
  "enc (c_proposal sample_codec) sample_worker = Some [3]"
  by (simp_all add: sample_codec_def table_serde_def sample_proposals_def upt_rec sample_worker_def)

lemma apply_entry_two: "apply_entry 2 = apply_entry (Suc (Suc 0))"
  by (simp only: numeral_2_eq_2)

lemmas sample_run = sample_apply_def apply_entry_two sample_dec sample_enc deserialize_context_def
  serialize_context_def or_err_def on_db_def apply_update_worker_status_def

lemma sample_worker_status:
  "sample_apply rt 0 sm = (Ok (), sm\<lparr>sm_database := (sm_database sm)(WORKER_STATUS_TABLE :=
       (Bytes (u64_to_le_bytes 3), [worker_status_u8 Busy]) # sm_database sm WORKER_STATUS_TABLE)\<rparr>)"
  "sample_apply rt 1 sm = (Ok (), sm\<lparr>sm_database := (sm_database sm)(WORKER_STATUS_TABLE :=
       (Bytes (u64_to_le_bytes 3), [worker_status_u8 Offline]) # sm_database sm WORKER_STATUS_TABLE)\<rparr>)"
  by (simp_all add: sample_run)

lemma sample_batch: "sample_apply rt 2 sm = sample_apply rt 1 (snd (sample_apply rt 0 sm))"
  by (simp add: sample_run)

lemma sample_no_worker: "enc (c_worker sample_codec) w = None"
  by (simp add: sample_codec_def no_serde_def)

lemma sample_worker_refused:
  "sample_apply rt 3 sm = (Err (Serialization ''serialize worker info''), sm)"
  by (simp add: sample_run sample_enc(3) [unfolded sample_worker_def] sample_worker_def
      apply_register_worker_def sample_no_worker)

lemma sample_batch_refused: "sample_apply rt 4 sm = sample_apply rt 3 (snd (sample_apply rt 0 sm))"
  by (simp add: sample_run sample_enc(3) [unfolded sample_worker_def] sample_worker_def
      apply_register_worker_def sample_no_worker)

theorem apply_entry_refines_witness:
  "let sm' = snd (sample_apply NoRuntime 2 sample_state_machine) in
   cl_worker_status (sm_cluster sample_codec mem_view sm') 3 = Some Offline"
proof -
  obtain sm' where sm': "sample_apply NoRuntime 2 sample_state_machine = (Ok (), sm')"
    by (simp add: sample_batch sample_worker_status)
  from apply_entry_refines [OF mem_redb_ok sample_codec_ok _ _ sm' [unfolded sample_apply_def]]
  obtain lost where "sm_cluster sample_codec mem_view sm' =
      spec_entry (\<lambda>i. choices_of sample_codec (sample_sm_env NoRuntime i) (lost i))
        (Batch [UpdateWorkerStatus 3 Busy, UpdateWorkerStatus 3 Offline])
        (sm_cluster sample_codec mem_view sample_state_machine)"
    by (auto simp: sample_dec)
  then show ?thesis by (simp add: sm' spec_entry_def)
qed

theorem failed_entry_changes_nothing_witness:
  "let (r, sm') = sample_apply NoRuntime 3 sample_state_machine in
   r = Err (Serialization ''serialize worker info'') \<and>
   mem_view (sm_database sm') = mem_view (sm_database sample_state_machine)"
  using failed_entry_changes_nothing [OF mem_redb_ok _ sample_worker_refused [unfolded sample_apply_def]]
  by (simp add: sample_dec sample_worker_def sample_worker_refused)

theorem failed_batch_applies_prefix_witness:
  "let sm' = snd (sample_apply NoRuntime 4 sample_state_machine);
       c = sm_cluster sample_codec mem_view
   in cl_worker_status (c sm') 3 = Some Busy \<and>
      (\<exists>n. (n = 0 \<or> n < 2) \<and> forget_pools (c sm') =
         forget_pools (spec_batch (\<lambda>i. choices_of sample_codec (sample_sm_env NoRuntime i) False) 0
           (take n [UpdateWorkerStatus 3 Busy, sample_worker]) (c sample_state_machine)))"
proof -
  let ?sm = sample_state_machine
  let ?r = "sample_apply NoRuntime 4 ?sm"
  have r: "?r = (Err (Serialization ''serialize worker info''), snd ?r)"
    by (simp add: sample_batch_refused sample_worker_refused)
  have "\<exists>n. (n = 0 \<or> n < 2) \<and> forget_pools (sm_cluster sample_codec mem_view (snd ?r)) =
      forget_pools (spec_batch (\<lambda>i. choices_of sample_codec (sample_sm_env NoRuntime i) False) 0
        (take n [UpdateWorkerStatus 3 Busy, sample_worker]) (sm_cluster sample_codec mem_view ?sm))"
    using failed_batch_applies_prefix [OF mem_redb_ok sample_codec_ok mem_redb_total(3) _ _
        r [unfolded sample_apply_def]]
    by (simp add: sample_dec sample_apply_def numeral_2_eq_2 [symmetric])
  moreover have "cl_worker_status (sm_cluster sample_codec mem_view (snd ?r)) 3 = Some Busy"
    unfolding sample_batch_refused sample_worker_refused sample_worker_status
    by (simp add: abs_cluster_def node_rows_def mem_view_def decode_status_def worker_status_try_from_def)
  ultimately show ?thesis by (simp add: Let_def)
qed

theorem apply_entry_depth_witness:
  "fst (apply_entry (5 + 2) mem_redb sample_codec (sample_sm_env NoRuntime)
     ((sample_entry 1)\<lparr>entry_data := [2]\<rparr>) sample_state_machine) = Ok ()"
  unfolding apply_entry_depth [OF sample_codec_ok]
  using sample_batch [of NoRuntime sample_state_machine]
  by (simp add: sample_apply_def [symmetric] sample_worker_status)

theorem replicas_agree_witness:
  "let c = \<lambda>sm. erase_local (sm_cluster sample_codec mem_view sm);
       s1 = snd (sample_apply NoRuntime 2 sample_state_machine);
       s2 = snd (sample_apply InAsync 2 sample_state_machine)
   in erase_ips (c s1) = erase_ips (c s2) \<and> c s1 = c s2"
proof -
  let ?e = "(sample_entry 1)\<lparr>entry_data := [2]\<rparr>" and ?sm = sample_state_machine
  have run: "log_applied mem_redb sample_codec [(sample_sm_env rt, ?e)] ?sm (snd (sample_apply rt 2 ?sm))" for rt
  proof (rule log_next [OF _ log_done])
    show "apply_entry 2 mem_redb sample_codec (sample_sm_env rt) ?e ?sm = (Ok (), snd (sample_apply rt 2 ?sm))"
      unfolding sample_apply_def [symmetric] by (simp add: sample_batch sample_worker_status)
  qed
  note agree = replicas_agree [OF mem_redb_ok mem_redb_ok sample_codec_ok mem_redb_total(3) mem_redb_total(3)
      run [of NoRuntime] run [of InAsync]]
  show ?thesis using agree by (simp add: Let_def entry_proposals_def sample_dec)
qed

theorem blocking_entry_panics_witness:
  "sample_apply InAsync 5 sample_state_machine = (Panics, sample_state_machine) \<and>
   sample_apply InAsync 6 sample_state_machine =
     (Panics, snd (sample_apply NoRuntime 6 sample_state_machine))"
proof
  show "sample_apply InAsync 5 sample_state_machine = (Panics, sample_state_machine)"
    unfolding sample_apply_def
    by (rule blocking_entry_panics [where p = "IpPoolCommand (SetPoolEnabled 1 False)" and
        command = "SetPoolEnabled 1 False", THEN conjunct1, rule_format])
      (simp_all add: sample_dec sample_sm_env_def)
  have "(\<lambda>i. (sample_sm_env InAsync i)\<lparr>e_runtime := NoRuntime\<rparr>) = sample_sm_env NoRuntime"
    by (simp add: sample_sm_env_def fun_eq_iff)
  moreover have "fst (sample_apply NoRuntime 6 sample_state_machine) = Ok ()"
    by (simp add: sample_run apply_remove_tenant_quota_def commit_and_tell_def sample_sm_env_def
        tell_quota_manager_def sample_state_machine_def state_machine_new_def)
  ultimately show "sample_apply InAsync 6 sample_state_machine =
     (Panics, snd (sample_apply NoRuntime 6 sample_state_machine))"
    unfolding sample_apply_def
    by (intro blocking_entry_panics [where p = "RemoveTenantQuota ''acme''", THEN conjunct2, rule_format])
      (auto simp: sample_dec sample_sm_env_def sample_state_machine_def state_machine_new_def prod_eq_iff)
qed


theorem admission_deadlocks_witness:
  "sample_apply Entered 7 (configure_admission_controller sample_state_machine) =
     (Blocks, configure_admission_controller sample_state_machine)"
  unfolding sample_apply_def
  by (rule admission_deadlocks [where config = vm_config_default and node_id = 1 and qm = sample_quota_manager])
    (simp_all add: sample_dec sample_sm_env_def sample_state_machine_def state_machine_new_def
      configure_admission_controller_def sample_quota_manager_def)

end
