(* ===== verification/Replay.thy ===== *)
theory Replay
  imports Replication
begin

text \<open>
  Replaying the log. A node is created with an applied index of 0 (\<open>Config\<close> in \<open>raft/core.rs\<close>), so
  after a restart the entries still in its log are applied again to a database that already holds
  their effects. Every proposal but the usage update and the IP allocation writes fixed values, and
  writing the same sequence of values twice is the same as writing it once.
\<close>

section \<open>Operations that overwrite\<close>

text \<open>
  A set of operations of which each is idempotent, and what an operation cannot tell apart it cannot
  tell apart after another operation either. Any sequence of such operations is idempotent.
\<close>

locale overwriting =
  fixes ops :: "('s \<Rightarrow> 's) set"
  assumes idem: "f \<in> ops \<Longrightarrow> f (f x) = f x"
    and blind: "f \<in> ops \<Longrightarrow> g \<in> ops \<Longrightarrow> f x = f y \<Longrightarrow> f (g x) = f (g y)"
begin

lemma blind_run:
  "f \<in> ops \<Longrightarrow> set gs \<subseteq> ops \<Longrightarrow> f x = f y \<Longrightarrow> f (fold (\<lambda>g. g) gs x) = f (fold (\<lambda>g. g) gs y)"
proof (induction gs arbitrary: x y)
  case (Cons g gs)
  have "f (g x) = f (g y)" using Cons.prems(2) by (intro blind [OF Cons.prems(1) _ Cons.prems(3)]) simp
  then show ?case using Cons.IH [of "g x" "g y"] Cons.prems by simp
qed simp

lemma run_twice: "set gs \<subseteq> ops \<Longrightarrow> fold (\<lambda>g. g) gs (fold (\<lambda>g. g) gs x) = fold (\<lambda>g. g) gs x"
proof (induction gs rule: rev_induct)
  case (snoc f gs)
  let ?G = "fold (\<lambda>g. g) gs"
  have "f (?G (f (?G x))) = f (?G (?G x))"
    using snoc.prems by (intro blind_run idem) simp_all
  then show ?case using snoc by simp
qed simp

end

text \<open>Updating one key of a map, or nothing.\<close>

definition writes :: "('v option \<Rightarrow> 'v option) set \<Rightarrow> (('k \<rightharpoonup> 'v) \<Rightarrow> 'k \<rightharpoonup> 'v) set" where
  "writes H = insert id {\<lambda>m. m(k := h (m k)) | k h. h \<in> H}"

definition const_writes :: "('v option \<Rightarrow> 'v option) set" where
  "const_writes = {\<lambda>_. v | v. True}"

lemma writes_id [simp]: "id \<in> writes H" "(\<lambda>m. m) \<in> writes H"
  by (auto simp: writes_def id_def)

lemma writes_const [simp]: "const_writes \<subseteq> H \<Longrightarrow> (\<lambda>m. m(k := v)) \<in> writes H"
  unfolding writes_def const_writes_def by (intro insertI2 CollectI exI [of _ k] exI [of _ "\<lambda>_. v"]) auto

lemma overwriting_writes:
  fixes H :: "('v option \<Rightarrow> 'v option) set"
  assumes "overwriting H"
  shows "overwriting (writes H)"
proof
  fix f :: "('k \<rightharpoonup> 'v) \<Rightarrow> 'k \<rightharpoonup> 'v" and x
  assume "f \<in> writes H"
  then show "f (f x) = f x" by (auto simp: writes_def overwriting.idem [OF assms])
next
  fix f g :: "('k \<rightharpoonup> 'v) \<Rightarrow> 'k \<rightharpoonup> 'v" and x y
  assume fg: "f \<in> writes H" "g \<in> writes H" and eq: "f x = f y"
  show "f (g x) = f (g y)"
  proof (cases "f = id \<or> g = id")
    case False
    then obtain k h k' h' where f: "f = (\<lambda>m. m(k := h (m k)))" "h \<in> H"
      and g: "g = (\<lambda>m. m(k' := h' (m k')))" "h' \<in> H"
      using fg by (auto simp: writes_def)
    have out: "x j = y j" if "j \<noteq> k" for j using fun_cong [OF eq, of j] that f(1) by simp
    have at: "h (x k) = h (y k)" using fun_cong [OF eq, of k] f(1) by simp
    have "h (h' (x k)) = h (h' (y k))" by (rule overwriting.blind [OF assms f(2) g(2) at])
    then show ?thesis using out at unfolding f(1) g(1) by (auto simp: fun_eq_iff)
  qed (use eq in auto)
qed

lemma overwriting_const_writes: "overwriting const_writes"
  by unfold_locales (auto simp: const_writes_def)

section \<open>The writes of a proposal\<close>

definition vm_writes :: "(vm_state option \<Rightarrow> vm_state option) set" where
  "vm_writes = const_writes \<union> {map_option (\<lambda>vm. vm\<lparr>vs_status := s\<rparr>) | s. True} \<union>
     {map_option (\<lambda>vm. vm\<lparr>vs_status := s, vs_node_id := n\<rparr>) | s n. True}"

lemma overwriting_vm_writes: "overwriting vm_writes"
proof
  fix f :: "vm_state option \<Rightarrow> vm_state option" and x
  assume "f \<in> vm_writes"
  then show "f (f x) = f x" by (cases x) (auto simp: vm_writes_def const_writes_def)
next
  fix f g :: "vm_state option \<Rightarrow> vm_state option" and x y
  assume "f \<in> vm_writes" "g \<in> vm_writes" "f x = f y"
  then show "f (g x) = f (g y)"
    by (cases x; cases y; auto simp: vm_writes_def const_writes_def; 
        metis vm_state.surjective vm_state.update_convs(3,4) vm_state.iffs)
qed

text \<open>A proposal is a write to each of the eleven maps of the cluster.\<close>

definition write_all ::
  "((string \<rightharpoonup> vm_state) \<Rightarrow> string \<rightharpoonup> vm_state) \<Rightarrow> ((string \<rightharpoonup> task_spec) \<Rightarrow> string \<rightharpoonup> task_spec) \<Rightarrow>
   ((string \<rightharpoonup> u64) \<Rightarrow> string \<rightharpoonup> u64) \<Rightarrow> ((string \<rightharpoonup> task_result) \<Rightarrow> string \<rightharpoonup> task_result) \<Rightarrow>
   ((u64 \<rightharpoonup> string \<times> worker_capabilities) \<Rightarrow> u64 \<rightharpoonup> string \<times> worker_capabilities) \<Rightarrow>
   ((u64 \<rightharpoonup> worker_status) \<Rightarrow> u64 \<rightharpoonup> worker_status) \<Rightarrow> ((u64 \<rightharpoonup> node_topology) \<Rightarrow> u64 \<rightharpoonup> node_topology) \<Rightarrow>
   ((tenant_id \<rightharpoonup> tenant_quota) \<Rightarrow> tenant_id \<rightharpoonup> tenant_quota) \<Rightarrow>
   ((tenant_id \<rightharpoonup> tenant_usage) \<Rightarrow> tenant_id \<rightharpoonup> tenant_usage) \<Rightarrow>
   ((string \<rightharpoonup> ip_allocation) \<Rightarrow> string \<rightharpoonup> ip_allocation) \<Rightarrow>
   ((string \<rightharpoonup> ip_addr list) \<Rightarrow> string \<rightharpoonup> ip_addr list) \<Rightarrow> cluster \<Rightarrow> cluster" where
  "write_all v t a r w s g q u i j c =
     \<lparr>cl_vms = v (cl_vms c), cl_tasks = t (cl_tasks c), cl_assignments = a (cl_assignments c),
      cl_results = r (cl_results c), cl_workers = w (cl_workers c),
      cl_worker_status = s (cl_worker_status c), cl_topology = g (cl_topology c),
      cl_quotas = q (cl_quotas c), cl_usage = u (cl_usage c),
      cl_ip_allocations = i (cl_ip_allocations c), cl_vm_ips = j (cl_vm_ips c), cl_pools = cl_pools c\<rparr>"

definition cluster_writes :: "(cluster \<Rightarrow> cluster) set" where
  "cluster_writes = {write_all v t a r w s g q u i j | v t a r w s g q u i j.
     v \<in> writes vm_writes \<and> t \<in> writes const_writes \<and> a \<in> writes const_writes \<and> r \<in> writes const_writes \<and>
     w \<in> writes const_writes \<and> s \<in> writes const_writes \<and> g \<in> writes const_writes \<and>
     q \<in> writes const_writes \<and> u \<in> writes const_writes \<and>
     i \<in> writes const_writes \<and> j \<in> writes const_writes}"

lemma cluster_writesE:
  assumes "f \<in> cluster_writes"
  obtains v t a r w s h q u i j where "f = write_all v t a r w s h q u i j" "v \<in> writes vm_writes"
    "t \<in> writes const_writes" "a \<in> writes const_writes" "r \<in> writes const_writes" "w \<in> writes const_writes"
    "s \<in> writes const_writes" "h \<in> writes const_writes" "q \<in> writes const_writes" "u \<in> writes const_writes"
    "i \<in> writes const_writes" "j \<in> writes const_writes"
  using assms unfolding cluster_writes_def by (elim CollectE exE conjE) (rule that)

interpretation cluster: overwriting cluster_writes
proof
  note vms = overwriting_writes [OF overwriting_vm_writes]
    and rows = overwriting_writes [OF overwriting_const_writes]
  show "f (f x) = f x" if "f \<in> cluster_writes" for f x
    using that unfolding cluster_writes_def
    by (auto simp: write_all_def overwriting.idem [OF vms] overwriting.idem [OF rows])
  fix f g x y
  assume "f \<in> cluster_writes" "g \<in> cluster_writes" "f x = f y"
  then have eq: "f x = f y" and fw: "f \<in> cluster_writes" and gw: "g \<in> cluster_writes" by simp_all
  from fw obtain v t a r w s h q u i j where
    f: "f = write_all v t a r w s h q u i j" "v \<in> writes vm_writes" "t \<in> writes const_writes"
      "a \<in> writes const_writes" "r \<in> writes const_writes" "w \<in> writes const_writes"
      "s \<in> writes const_writes" "h \<in> writes const_writes" "q \<in> writes const_writes" "u \<in> writes const_writes"
      "i \<in> writes const_writes" "j \<in> writes const_writes"
    by (elim cluster_writesE)
  from gw obtain v' t' a' r' w' s' h' q' u' i' j' where
    g: "g = write_all v' t' a' r' w' s' h' q' u' i' j'" "v' \<in> writes vm_writes" "t' \<in> writes const_writes"
      "a' \<in> writes const_writes" "r' \<in> writes const_writes" "w' \<in> writes const_writes"
      "s' \<in> writes const_writes" "h' \<in> writes const_writes" "q' \<in> writes const_writes" "u' \<in> writes const_writes"
      "i' \<in> writes const_writes" "j' \<in> writes const_writes"
    by (elim cluster_writesE)
  have e: "v (cl_vms x) = v (cl_vms y)" "t (cl_tasks x) = t (cl_tasks y)"
    "a (cl_assignments x) = a (cl_assignments y)" "r (cl_results x) = r (cl_results y)"
    "w (cl_workers x) = w (cl_workers y)" "s (cl_worker_status x) = s (cl_worker_status y)"
    "h (cl_topology x) = h (cl_topology y)" "q (cl_quotas x) = q (cl_quotas y)" "u (cl_usage x) = u (cl_usage y)"
    "i (cl_ip_allocations x) = i (cl_ip_allocations y)" "j (cl_vm_ips x) = j (cl_vm_ips y)"
    "cl_pools x = cl_pools y"
    using eq unfolding f(1) write_all_def by simp_all
  note b = overwriting.blind [OF rows]
  show "f (g x) = f (g y)"
    unfolding f(1) g(1) write_all_def
    by (simp add: overwriting.blind [OF vms f(2) g(2) e(1)] b [OF f(3) g(3) e(2)] b [OF f(4) g(4) e(3)]
        b [OF f(5) g(5) e(4)] b [OF f(6) g(6) e(5)] b [OF f(7) g(7) e(6)] b [OF f(8) g(8) e(7)]
        b [OF f(9) g(9) e(8)] b [OF f(10) g(10) e(9)] b [OF f(11) g(11) e(10)] b [OF f(12) g(12) e(11)] e(12))
qed

lemma vm_update_write:
  "(\<lambda>m. m(k := map_option (\<lambda>vm. vm\<lparr>vs_status := s\<rparr>) (m k))) \<in> writes vm_writes"
  "(\<lambda>m. m(k := map_option (\<lambda>vm. vm\<lparr>vs_status := s, vs_node_id := n\<rparr>) (m k))) \<in> writes vm_writes"
  "(\<lambda>m. m(k := map_option (\<lambda>vm. vm\<lparr>vs_node_id := n, vs_status := s\<rparr>) (m k))) \<in> writes vm_writes"
proof -
  have "(\<lambda>vm. vm\<lparr>vs_node_id := n, vs_status := s\<rparr>) = (\<lambda>vm :: vm_state. vm\<lparr>vs_status := s, vs_node_id := n\<rparr>)"
    by auto
  then show "(\<lambda>m. m(k := map_option (\<lambda>vm. vm\<lparr>vs_node_id := n, vs_status := s\<rparr>) (m k))) \<in> writes vm_writes"
    unfolding writes_def vm_writes_def by simp blast
qed (unfold writes_def vm_writes_def, blast+)

lemma row_set: "(\<lambda>m. m(k := v)) \<in> writes const_writes"
  by (rule writes_const) simp

lemma vm_set: "(\<lambda>m. m(k := v)) \<in> writes vm_writes"
  by (rule writes_const) (auto simp: vm_writes_def)

lemmas row_id = writes_id(1)

lemma write_vms:
  assumes "v \<in> writes vm_writes" and "\<And>c. f c = c\<lparr>cl_vms := v (cl_vms c)\<rparr>"
  shows "f \<in> cluster_writes"
proof -
  have "f = write_all v id id id id id id id id id id" using assms(2) by (auto simp: write_all_def)
  then show ?thesis unfolding cluster_writes_def
    by (intro CollectI exI conjI) (assumption | rule assms(1) writes_id)+
qed

lemma write_rows:
  assumes "t \<in> writes const_writes" "a \<in> writes const_writes" "r \<in> writes const_writes"
    "w \<in> writes const_writes" "s \<in> writes const_writes" "h \<in> writes const_writes" "q \<in> writes const_writes"
    "u \<in> writes const_writes" "j \<in> writes const_writes"
    and "\<And>c. f c = write_all id t a r w s h q u id j c"
  shows "f \<in> cluster_writes"
proof -
  have "f = write_all id t a r w s h q u id j" using assms(10) by auto
  then show ?thesis unfolding cluster_writes_def
    by (intro CollectI exI conjI) (assumption | rule assms(1-9) writes_id)+
qed

lemma vm_command_writes: "spec_vm_command now command \<in> cluster_writes"
proof (cases command)
  case (Create config node_id)
  show ?thesis by (rule write_vms [OF vm_set]) (simp add: Create)
next
  case (Start name)
  show ?thesis by (rule write_vms [OF vm_update_write(1)]) (simp add: Start)
next
  case (Stop name)
  show ?thesis by (rule write_vms [OF vm_update_write(1)]) (simp add: Stop)
next
  case (Delete name)
  show ?thesis by (rule write_vms [OF vm_set]) (simp add: Delete)
next
  case (Migrate task)
  show ?thesis by (rule write_vms [OF vm_update_write(3)]) (simp add: Migrate)
next
  case (UpdateStatus name status)
  show ?thesis by (rule write_vms [OF writes_id(1)]) (simp add: UpdateStatus)
qed

text \<open>What a proposal does to the rows, the pools apart.\<close>

definition row_write :: "choices \<Rightarrow> proposal_data \<Rightarrow> cluster \<Rightarrow> cluster" where
  "row_write ch p c = (spec_proposal ch p c)\<lparr>cl_pools := cl_pools c\<rparr>"

definition fixed_write :: "proposal_data \<Rightarrow> bool" where
  "fixed_write p \<longleftrightarrow> \<not> usage_update p \<and> \<not> allocates_ip p"

lemma row_write_agree: "agree True (row_write ch p c) (spec_proposal ch p c)"
  by (simp add: agree_iff row_write_def del: spec_proposal.simps)

lemma vm_row_write: "row_write ch (CreateVm command) = spec_vm_command (ch_now ch) command"
  by (intro ext) (cases command; simp add: row_write_def)

lemma row_writes:
  assumes "fixed_write p"
  shows "row_write ch p \<in> cluster_writes"
proof (cases p)
  case (AssignTask task_id node_id task)
  show ?thesis
    by (rule write_rows [OF row_set row_set row_id row_id row_id row_id row_id row_id row_id])
      (rule cluster.equality; simp add: AssignTask row_write_def write_all_def)
next
  case (CompleteTask task_id result)
  show ?thesis
    by (rule write_rows [OF row_id row_set row_set row_id row_id row_id row_id row_id row_id])
      (rule cluster.equality; simp add: CompleteTask row_write_def write_all_def)
next
  case (ReassignTask task_id from_node to_node)
  show ?thesis
    by (rule write_rows [OF row_id row_set row_id row_id row_id row_id row_id row_id row_id])
      (rule cluster.equality; simp add: ReassignTask row_write_def write_all_def)
next
  case (RegisterWorker node_id address capabilities topology)
  show ?thesis
    by (rule write_rows [OF row_id row_id row_id row_set row_set row_set row_id row_id row_id])
      (rule cluster.equality; simp add: RegisterWorker row_write_def write_all_def)
next
  case (UpdateWorkerStatus node_id status)
  show ?thesis
    by (rule write_rows [OF row_id row_id row_id row_id row_set row_id row_id row_id row_id])
      (rule cluster.equality; simp add: UpdateWorkerStatus row_write_def write_all_def)
next
  case (RemoveWorker node_id)
  show ?thesis
    by (rule write_rows [OF row_id row_id row_id row_set row_set row_set row_id row_id row_id])
      (rule cluster.equality; simp add: RemoveWorker row_write_def write_all_def)
next
  case (CreateVm command)
  then show ?thesis using vm_command_writes by (simp add: vm_row_write)
next
  case (UpdateVmStatus name status node_id)
  show ?thesis by (rule write_vms [OF vm_update_write(2)]) (simp add: UpdateVmStatus row_write_def)
next
  case (MigrateVm name from_node to_node)
  show ?thesis by (rule write_vms [OF vm_update_write(3)]) (simp add: MigrateVm row_write_def)
next
  case (SetTenantQuota quota)
  show ?thesis
    by (rule write_rows [OF row_id row_id row_id row_id row_id row_id row_set row_id row_id])
      (rule cluster.equality; simp add: SetTenantQuota row_write_def write_all_def)
next
  case (RemoveTenantQuota tenant)
  show ?thesis
    by (rule write_rows [OF row_id row_id row_id row_id row_id row_id row_set row_set row_id])
      (rule cluster.equality; simp add: RemoveTenantQuota row_write_def write_all_def)
next
  case (ReleaseVmIps v)
  show ?thesis
    by (rule write_rows [OF row_id row_id row_id row_id row_id row_id row_id row_id row_set])
      (rule cluster.equality; simp add: ReleaseVmIps row_write_def write_all_def)
next
  case (IpPoolCommand command)
  show ?thesis by (rule write_vms [OF row_id]) (simp add: IpPoolCommand row_write_def)
next
  case (Batch ps)
  show ?thesis by (rule write_vms [OF row_id]) (simp add: Batch row_write_def)
qed (use assms in \<open>simp_all add: fixed_write_def\<close>)

section \<open>Replaying a log\<close>

definition log_writes :: "choices \<Rightarrow> codec \<Rightarrow> raft_entry list \<Rightarrow> (cluster \<Rightarrow> cluster) list" where
  "log_writes ch C entries = map (row_write ch) (concat (map (entry_proposals C) entries))"

lemma fixed_write_agree:
  assumes "agree True c c'" and "fixed_write p" and "ch_uuid ch = ch_uuid ch'"
  shows "agree True (spec_proposal ch p c) (row_write ch' p c')"
  using spec_proposal_agree [OF assms(1), of p ch ch'] assms(2,3)
    agree_trans [OF _ agree_sym [OF row_write_agree]]
  by (simp add: fixed_write_def alike_def)

lemma batch_fold:
  assumes "agree True c c'" and "list_all fixed_write ps" and "\<And>i. ch_uuid (ch i) = ch_uuid ch'"
  shows "agree True (spec_batch ch i ps c) (fold (\<lambda>g. g) (map (row_write ch') ps) c')"
  using assms(1,2)
proof (induction ps arbitrary: i c c')
  case (Cons p ps)
  have "agree True (spec_proposal (ch i) p c) (row_write ch' p c')"
    using Cons.prems by (intro fixed_write_agree assms(3)) simp_all
  then show ?case using Cons.IH Cons.prems(2) by simp
qed simp

lemma log_fold:
  assumes "redb_ok R view tview rview" and "codec_ok C" and "ch_uuid ch = c_uuid C"
    and "log_applied R C entries sm sm'"
    and "list_all (\<lambda>entry. list_all fixed_write (entry_proposals C entry)) (map snd entries)"
    and "agree True (sm_cluster C view sm) c"
  shows "agree True (sm_cluster C view sm') (fold (\<lambda>g. g) (log_writes ch C (map snd entries)) c)"
  using assms(4-6)
proof (induction arbitrary: c rule: log_applied.induct)
  case (log_done sm)
  then show ?case by (simp add: log_writes_def)
next
  case (log_next E entry sm sm1 es sm2)
  obtain lost where "sm_cluster C view sm1 =
      spec_log_entry C (\<lambda>i. choices_of C (E i) (lost i)) entry (sm_cluster C view sm)"
    using applied_entry_spec [OF assms(1,2) log_next.hyps(1)] by blast
  then have "agree True (sm_cluster C view sm1) (fold (\<lambda>g. g) (map (row_write ch) (entry_proposals C entry)) c)"
    using log_next.prems assms(3) by (auto simp: spec_log_entry_def intro!: batch_fold)
  from log_next.IH [OF _ this] log_next.prems(1) show ?case by (simp add: log_writes_def)
qed

text \<open>
  C11. Replaying the log after a restart changes nothing: a node applies entries successfully, a new
  state machine is created on its database (with empty IP pools and whatever quota manager the new
  process has), and the same entries are applied successfully again. Then every row of the cluster
  and IP tables is as it was before the restart, up to recorded times, provided that no entry
  updates the usage of a tenant or allocates an IP address.
\<close>

theorem replay_idempotent:
  assumes "redb_ok R view tview rview" and "codec_ok C"
    and "log_applied R C entries sm sm'"
    and "log_applied R C replayed (state_machine_new (sm_database sm') shared) sm''"
    and "map snd replayed = map snd entries"
    and "list_all (\<lambda>entry. list_all fixed_write (entry_proposals C entry)) (map snd entries)"
  shows "erase_local (sm_cluster C view sm'') = erase_local (sm_cluster C view sm')"
proof -
  fix E :: sm_env
  define ch where "ch = choices_of C E False"
  have uuid: "ch_uuid ch = c_uuid C" by (simp add: ch_def)
  let ?c = "sm_cluster C view sm" and ?W = "log_writes ch C (map snd entries)"
  let ?new = "state_machine_new (sm_database sm') shared"
  have "agree True (sm_cluster C view ?new) (sm_cluster C view sm')"
    by (simp add: agree_iff state_machine_new_def abs_cluster_def)
  moreover note first = log_fold [OF assms(1,2) uuid assms(3,6) agree_refl]
  ultimately have new: "agree True (sm_cluster C view ?new) (fold (\<lambda>g. g) ?W ?c)" by (rule agree_trans)
  have "set ?W \<subseteq> cluster_writes"
    using assms(6) by (auto simp: log_writes_def list_all_iff intro: row_writes)
  then have "fold (\<lambda>g. g) ?W (fold (\<lambda>g. g) ?W ?c) = fold (\<lambda>g. g) ?W ?c" by (rule cluster.run_twice)
  with log_fold [OF assms(1,2) uuid assms(4) _ new] assms(5,6)
  have "agree True (sm_cluster C view sm'') (fold (\<lambda>g. g) ?W ?c)" by simp
  from agree_trans [OF this agree_sym [OF first]] show ?thesis by (simp add: agree_def)
qed

text \<open>A usage update is not: replayed, it counts a machine a second time.\<close>

lemma usage_replay_counts_twice:
  "let p = UpdateTenantUsage ''acme''
         \<lparr>vm_count_delta = 1, vcpu_delta = 0, memory_mb_delta = 0, disk_gb_delta = 0,
          delta_operation = ResourceCreate, delta_timestamp = 0\<rparr> op;
       active = \<lambda>c. map_option (\<lambda>u. active_vms (u_vm_usage u)) (cl_usage c ''acme'')
   in cl_usage c ''acme'' = None \<and> \<not> ch_usage_lost ch \<longrightarrow>
      active (spec_proposal ch p c) = Some 1 \<and> active (spec_proposal ch p (spec_proposal ch p c)) = Some 2"
  by (simp add: spec_usage_def apply_delta_def tenant_usage_new_def add_delta_def vm_resource_usage_default_def
      signed_max0_def)

theorem replay_idempotent_witness:
  "let sm = snd (sample_apply InAsync 2 sample_state_machine);
       new = state_machine_new (sm_database sm) None;
       c = \<lambda>sm. erase_local (sm_cluster sample_codec mem_view sm)
   in c (snd (sample_apply InAsync 2 new)) = c sm"
proof -
  let ?e = "(sample_entry 1)\<lparr>entry_data := [2]\<rparr>"
  let ?l = "[(sample_sm_env InAsync, ?e)]"
  have run: "log_applied mem_redb sample_codec ?l sm (snd (sample_apply InAsync 2 sm))" for sm
  proof (rule log_next [OF _ log_done])
    show "apply_entry 2 mem_redb sample_codec (sample_sm_env InAsync) ?e sm =
        (Ok (), snd (sample_apply InAsync 2 sm))"
      unfolding sample_apply_def [symmetric] by (simp add: sample_batch sample_worker_status)
  qed
  from replay_idempotent [OF mem_redb_ok sample_codec_ok run run, where shared = None]
  show ?thesis by (simp add: entry_proposals_def sample_dec fixed_write_def Let_def)
qed

end
