(* ===== verification/Raft_Manager.thy ===== *)
theory Raft_Manager
  imports Replay
begin

text \<open>
  The Raft manager (\<open>raft/core.rs\<close>) with its configuration manager (\<open>raft/config_manager.rs\<close>) and
  snapshot manager (\<open>raft/snapshot.rs\<close>): how a node moves what the Raft library hands out into its
  storage, its state machine, the network and the callers that wait for their proposals. The Raft
  library's node is an argument, a record of the calls the manager makes; it may read the database,
  which it is given.
\<close>

section \<open>What the Raft library provides\<close>

record 'm raft_message =
  msg_from :: u64
  msg_to :: u64
  msg_payload :: 'm

record 'm ready =
  rd_entries :: "raft_entry list"
  rd_hs :: "hard_state option"
  rd_snapshot :: raft_snapshot
  rd_messages :: "'m raft_message list"
  rd_persisted_messages :: "'m raft_message list"
  rd_committed_entries :: "raft_entry list"

record 'm light_ready =
  lr_messages :: "'m raft_message list"
  lr_commit_index :: "u64 option"

record conf_change =
  cc_change_type :: i32
  cc_node_id :: u64
  cc_context :: blob

datatype raft_role = Follower | Candidate | Leader | PreCandidate

record ('d, 'n, 'm) raw_node =
  rn_has_ready :: "'n \<Rightarrow> bool"
  rn_ready :: "'d \<Rightarrow> 'n \<Rightarrow> 'm ready \<times> 'n"
  rn_advance :: "'d \<Rightarrow> 'm ready \<Rightarrow> 'n \<Rightarrow> 'm light_ready \<times> 'n"
  rn_advance_apply_to :: "u64 \<Rightarrow> 'n \<Rightarrow> 'n"
  rn_tick :: "'d \<Rightarrow> 'n \<Rightarrow> 'n"
  rn_step :: "'d \<Rightarrow> 'm raft_message \<Rightarrow> 'n \<Rightarrow> bool \<times> 'n"
  rn_propose :: "'d \<Rightarrow> blob \<Rightarrow> blob \<Rightarrow> 'n \<Rightarrow> bool \<times> 'n"
  rn_propose_conf_change :: "'d \<Rightarrow> blob \<Rightarrow> conf_change \<Rightarrow> 'n \<Rightarrow> bool \<times> 'n"
  rn_campaign :: "'d \<Rightarrow> 'n \<Rightarrow> 'n"
  rn_apply_conf_change :: "'d \<Rightarrow> conf_change \<Rightarrow> 'n \<Rightarrow> conf_state option \<times> 'n"
  rn_hard_state :: "'n \<Rightarrow> hard_state"
  rn_role :: "'n \<Rightarrow> raft_role"
  rn_leader_id :: "'n \<Rightarrow> u64"
  rn_term :: "'n \<Rightarrow> u64"
  rn_applied :: "'n \<Rightarrow> u64"
  rn_committed :: "'n \<Rightarrow> u64"

section \<open>The manager\<close>

record conf_change_context =
  ctx_address :: string
  ctx_p2p_node_id :: "string option"
  ctx_p2p_addresses :: "string list"
  ctx_p2p_relay_url :: "string option"

datatype conf_change_type = AddNode | RemoveNode

record 'p raft_conf_change =
  rc_change_type :: conf_change_type
  rc_node_id :: u64
  rc_context :: conf_change_context
  rc_response :: "'p option"

record 'p raft_proposal =
  rp_id :: blob
  rp_data :: proposal_data
  rp_response :: "'p option"

record raft_status =
  rs_is_leader :: bool
  rs_node_id :: u64
  rs_leader_id :: "u64 option"
  rs_term :: u64
  rs_state :: raft_role

text \<open>
  The manager's state. The storage and the state machine work on one database, that of the state
  machine. A caller that waits for a proposal or a configuration change is a value of \<open>'p\<close>, and
  \<open>rm_responses\<close> lists the answers sent so far; \<open>rm_outgoing\<close> lists the messages handed to the
  transport. \<open>rm_peers\<close> is the peer list of the configuration manager, \<open>rm_members\<close> the peer-to-peer
  data kept for each member in the shared node state.
\<close>

record ('d, 'n, 'm, 'p) raft_manager =
  rm_node_id :: u64
  rm_raft_node :: 'n
  rm_machine :: "'d state_machine"
  rm_peers :: "u64 \<rightharpoonup> string"
  rm_members :: "u64 \<rightharpoonup> conf_change_context"
  rm_needs_replication :: bool
  rm_last_compaction :: "u64 option"
  rm_pending :: "blob \<rightharpoonup> 'p"
  rm_responses :: "('p \<times> unit outcome) list"
  rm_outgoing :: "(u64 \<times> 'm raft_message) list"
  rm_channel_open :: bool
  rm_status :: "raft_status option"
  rm_join_addr :: "string option"

text \<open>
  What the manager depends on: the store, the serializers, the Raft library's node, the protobuf
  parser of configuration changes, and the parsers of peer-to-peer identities and addresses.
\<close>

record ('d, 't, 'r, 'n, 'm) raft_deps =
  d_redb :: "('d, 't, 'r) redb"
  d_codec :: codec
  d_snapshot :: "snapshot_data serde"
  d_context :: "conf_change_context serde"
  d_conf_state :: "conf_state serde"
  d_node :: "('d, 'n, 'm) raw_node"
  d_parse :: "blob \<Rightarrow> conf_change option"
  d_connector :: bool
  d_node_id_ok :: "string \<Rightarrow> bool"
  d_socket_ok :: "string \<Rightarrow> bool"

abbreviation rm_database :: "('d, 'n, 'm, 'p) raft_manager \<Rightarrow> 'd" where
  "rm_database m \<equiv> sm_database (rm_machine m)"

definition with_database :: "('d, 'n, 'm, 'p) raft_manager \<Rightarrow> 'd \<Rightarrow> ('d, 'n, 'm, 'p) raft_manager" where
  "with_database m d = m\<lparr>rm_machine := (rm_machine m)\<lparr>sm_database := d\<rparr>\<rparr>"

text \<open>An operation on the storage, as an operation on the manager.\<close>

definition on_storage ::
  "('d \<Rightarrow> unit outcome \<times> 'd) \<Rightarrow> ('d, 'n, 'm, 'p) raft_manager \<Rightarrow>
     unit outcome \<times> ('d, 'n, 'm, 'p) raft_manager" where
  "on_storage f m = (case f (rm_database m) of (r, d) \<Rightarrow> (r, with_database m d))"

definition shared_alive :: "('d, 'n, 'm, 'p) raft_manager \<Rightarrow> bool" where
  "shared_alive m \<longleftrightarrow> sm_shared (rm_machine m) \<noteq> None"

section \<open>Messages and answers\<close>

definition send_raft_message ::
  "'m raft_message \<Rightarrow> ('d, 'n, 'm, 'p) raft_manager \<Rightarrow> ('d, 'n, 'm, 'p) raft_manager" where
  "send_raft_message msg m =
     (let msg = (if msg_from msg = 0 then msg\<lparr>msg_from := rm_node_id m\<rparr> else msg)
      in if rm_channel_open m then m\<lparr>rm_outgoing := rm_outgoing m @ [(msg_to msg, msg)]\<rparr> else m)"

definition respond ::
  "blob \<Rightarrow> unit outcome \<Rightarrow> ('d, 'n, 'm, 'p) raft_manager \<Rightarrow> ('d, 'n, 'm, 'p) raft_manager" where
  "respond context r m =
     (if context = [] then m
      else case rm_pending m context of
             None \<Rightarrow> m
           | Some p \<Rightarrow> m\<lparr>rm_pending := (rm_pending m)(context := None),
                         rm_responses := rm_responses m @ [(p, r)]\<rparr>)"

definition answer ::
  "'p option \<Rightarrow> unit outcome \<Rightarrow> ('d, 'n, 'm, 'p) raft_manager \<Rightarrow> ('d, 'n, 'm, 'p) raft_manager" where
  "answer tx r m =
     (case tx of None \<Rightarrow> m | Some p \<Rightarrow> m\<lparr>rm_responses := rm_responses m @ [(p, r)]\<rparr>)"

section \<open>Membership\<close>

text \<open>
  \<open>RaftConfigManager::save_conf_state\<close>. It writes the row \<open>conf_state\<close> of the cluster state table,
  not the one of the table that \<open>initial_state\<close> reads.
\<close>

definition save_cluster_conf_state ::
  "('d, 't, 'r) redb \<Rightarrow> conf_state serde \<Rightarrow> conf_state \<Rightarrow> 'd \<Rightarrow> unit outcome \<times> 'd" where
  "save_cluster_conf_state R K cs d =
     (case begin_write R d of
        None \<Rightarrow> (Err (Storage ''begin conf state transaction''), d)
      | Some t \<Rightarrow>
          in_txn R ''commit conf state''
            (obind (tx_open R CLUSTER_STATE_TABLE t) (\<lambda>t.
             obind (or_err (Serialization ''serialize conf state'') (enc K cs)) (\<lambda>b.
               tx_insert R CLUSTER_STATE_TABLE (Str ''conf_state'') b t))) d)"

definition update_local_peers_after_conf_change ::
  "conf_change_context serde \<Rightarrow> conf_change \<Rightarrow> ('d, 'n, 'm, 'p) raft_manager \<Rightarrow>
     ('d, 'n, 'm, 'p) raft_manager" where
  "update_local_peers_after_conf_change X cc m =
     (if cc_change_type cc = 0
      then if cc_context cc = [] then m
           else case dec X (cc_context cc) of
                  None \<Rightarrow> m
                | Some ctx \<Rightarrow>
                    let m = m\<lparr>rm_peers := (rm_peers m)(cc_node_id cc \<mapsto> ctx_address ctx)\<rparr>
                    in if shared_alive m \<and> (ctx_p2p_node_id ctx \<noteq> None \<or> ctx_p2p_addresses ctx \<noteq> [])
                       then m\<lparr>rm_members := (rm_members m)(cc_node_id cc \<mapsto> ctx)\<rparr>
                       else m
      else if cc_change_type cc = 1 then m\<lparr>rm_peers := (rm_peers m)(cc_node_id cc := None)\<rparr>
      else m)"

definition apply_conf_change ::
  "('d, 't, 'r, 'n, 'm) raft_deps \<Rightarrow> conf_change \<Rightarrow> ('d, 'n, 'm, 'p) raft_manager \<Rightarrow>
     unit outcome \<times> ('d, 'n, 'm, 'p) raft_manager" where
  "apply_conf_change D cc m =
     (case rn_apply_conf_change (d_node D) (rm_database m) cc (rm_raft_node m) of
        (None, n) \<Rightarrow> (Err RaftError, m\<lparr>rm_raft_node := n\<rparr>)
      | (Some cs, n) \<Rightarrow>
          db_seq (on_storage (save_cluster_conf_state (d_redb D) (d_conf_state D) cs)
                    (m\<lparr>rm_raft_node := n\<rparr>)) (\<lambda>m.
          let m = update_local_peers_after_conf_change (d_context D) cc m
          in (Ok (), if cc_change_type cc = 0 then m\<lparr>rm_needs_replication := True\<rparr> else m)))"

definition needs_replication_trigger ::
  "('d, 'n, 'm, 'p) raft_manager \<Rightarrow> bool \<times> ('d, 'n, 'm, 'p) raft_manager" where
  "needs_replication_trigger m = (rm_needs_replication m, m\<lparr>rm_needs_replication := False\<rparr>)"

definition update_peer_address ::
  "u64 \<Rightarrow> string \<Rightarrow> ('d, 'n, 'm, 'p) raft_manager \<Rightarrow> ('d, 'n, 'm, 'p) raft_manager" where
  "update_peer_address node_id address m = m\<lparr>rm_peers := (rm_peers m)(node_id \<mapsto> address)\<rparr>"

definition remove_peer ::
  "u64 \<Rightarrow> ('d, 'n, 'm, 'p) raft_manager \<Rightarrow> string option \<times> ('d, 'n, 'm, 'p) raft_manager" where
  "remove_peer node_id m = (rm_peers m node_id, m\<lparr>rm_peers := (rm_peers m)(node_id := None)\<rparr>)"

text \<open>
  Building the address of a new peer fails when its identity or, without a relay, one of its socket
  addresses does not parse; the connection attempt itself cannot fail the operation.
\<close>

definition handle_successful_node_addition ::
  "('d, 't, 'r, 'n, 'm) raft_deps \<Rightarrow> 'p raft_conf_change \<Rightarrow> ('d, 'n, 'm, 'p) raft_manager \<Rightarrow>
     unit outcome \<times> ('d, 'n, 'm, 'p) raft_manager" where
  "handle_successful_node_addition D cc m =
     (let ctx = rc_context cc; m = m\<lparr>rm_peers := (rm_peers m)(rc_node_id cc \<mapsto> ctx_address ctx)\<rparr>
      in case ctx_p2p_node_id ctx of
           None \<Rightarrow> (Ok (), m)
         | Some p2p_node_id \<Rightarrow>
             if \<not> shared_alive m \<or> \<not> d_connector D then (Ok (), m)
             else if \<not> d_node_id_ok D p2p_node_id then (Err (Internal ''Invalid P2P node ID''), m)
             else if ctx_p2p_relay_url ctx = None \<and> \<not> list_all (d_socket_ok D) (ctx_p2p_addresses ctx)
             then (Err (Internal ''Failed to parse P2P addresses''), m)
             else (Ok (), m))"

text \<open>\<open>is_single_node_cluster\<close> is constantly false, so a change is never applied immediately.\<close>

definition handle_conf_change ::
  "('d, 't, 'r, 'n, 'm) raft_deps \<Rightarrow> 'p raft_conf_change \<Rightarrow> ('d, 'n, 'm, 'p) raft_manager \<Rightarrow>
     unit outcome \<times> ('d, 'n, 'm, 'p) raft_manager" where
  "handle_conf_change D cc m =
     (let N = d_node D; leader = rn_leader_id N (rm_raft_node m)
      in if rn_role N (rm_raft_node m) \<noteq> Leader
         then (Ok (), answer (rc_response cc)
                 (Err (NotLeader ''propose configuration change'' (if leader = 0 then None else Some leader))) m)
         else
           case enc (d_context D) (rc_context cc) of
             None \<Rightarrow> (Err (Serialization ''serialize conf change context''), m)
           | Some context_data \<Rightarrow>
               let change = \<lparr>cc_change_type = (case rc_change_type cc of AddNode \<Rightarrow> 0 | RemoveNode \<Rightarrow> 1),
                             cc_node_id = rc_node_id cc, cc_context = context_data\<rparr>
               in case rn_propose_conf_change N (rm_database m) [] change (rm_raft_node m) of
                    (True, n) \<Rightarrow>
                      db_seq (if rc_change_type cc = AddNode
                              then handle_successful_node_addition D cc (m\<lparr>rm_raft_node := n\<rparr>)
                              else (Ok (), m\<lparr>rm_raft_node := n\<rparr>)) (\<lambda>m.
                      (Ok (), answer (rc_response cc) (Ok ()) m))
                  | (False, n) \<Rightarrow>
                      (Ok (), answer (rc_response cc) (Err (Raft ''propose configuration change''))
                         (m\<lparr>rm_raft_node := n\<rparr>)))"

section \<open>Committed entries\<close>

definition process_normal_entry ::
  "('d, 't, 'r, 'n, 'm) raft_deps \<Rightarrow> (nat \<Rightarrow> sm_env) \<Rightarrow> raft_entry \<Rightarrow> ('d, 'n, 'm, 'p) raft_manager \<Rightarrow>
     unit outcome \<times> ('d, 'n, 'm, 'p) raft_manager" where
  "process_normal_entry D E entry m =
     (case apply_entry 2 (d_redb D) (d_codec D) E entry (rm_machine m) of
        (Panics, sm) \<Rightarrow> (Panics, m\<lparr>rm_machine := sm\<rparr>)
      | (Blocks, sm) \<Rightarrow> (Blocks, m\<lparr>rm_machine := sm\<rparr>)
      | (r, sm) \<Rightarrow> (Ok (), respond (entry_context entry) r (m\<lparr>rm_machine := sm\<rparr>)))"

definition process_conf_change_entry ::
  "('d, 't, 'r, 'n, 'm) raft_deps \<Rightarrow> raft_entry \<Rightarrow> ('d, 'n, 'm, 'p) raft_manager \<Rightarrow>
     unit outcome \<times> ('d, 'n, 'm, 'p) raft_manager" where
  "process_conf_change_entry D entry m =
     (case d_parse D (entry_data entry) of
        None \<Rightarrow>
          let e = Err (Internal ''Failed to parse ConfChange'')
          in (e, respond (entry_context entry) e m)
      | Some cc \<Rightarrow> apply_conf_change D cc m)"

text \<open>\<open>entry_type()\<close>: 1 is a configuration change, 2 its second version, anything else is normal.\<close>

definition process_entry ::
  "('d, 't, 'r, 'n, 'm) raft_deps \<Rightarrow> (nat \<Rightarrow> sm_env) \<Rightarrow> raft_entry \<Rightarrow> ('d, 'n, 'm, 'p) raft_manager \<Rightarrow>
     unit outcome \<times> ('d, 'n, 'm, 'p) raft_manager" where
  "process_entry D E entry m =
     (if entry_type entry = 1 then process_conf_change_entry D entry m
      else if entry_type entry = 2 then (Ok (), m)
      else process_normal_entry D E entry m)"

text \<open>The loop over the entries; \<open>E i\<close> is the environment of the \<open>i\<close>-th one.\<close>

fun process_entries ::
  "('d, 't, 'r, 'n, 'm) raft_deps \<Rightarrow> (nat \<Rightarrow> nat \<Rightarrow> sm_env) \<Rightarrow> nat \<Rightarrow> raft_entry list \<Rightarrow>
     ('d, 'n, 'm, 'p) raft_manager \<Rightarrow> unit outcome \<times> ('d, 'n, 'm, 'p) raft_manager" where
  "process_entries D E i [] m = (Ok (), m)"
| "process_entries D E i (entry # entries) m =
     db_seq (process_entry D (E i) entry m) (process_entries D E (Suc i) entries)"

text \<open>The index of the last entry the loop has processed, 0 when there is none.\<close>

definition last_entry_index :: "raft_entry list \<Rightarrow> u64" where
  "last_entry_index entries = (if entries = [] then 0 else entry_index (last entries))"

section \<open>Snapshots and compaction\<close>

text \<open>
  \<open>clear_and_restore_string_table\<close>, \<open>clear_and_restore_binary_table\<close> and
  \<open>clear_and_restore_u64_table\<close>, which differ in the key type: like \<open>restore_table\<close>, with errors that
  name the table.
\<close>

fun remove_named :: "('d, 't, 'r) redb \<Rightarrow> table_id \<Rightarrow> string \<Rightarrow> db_key list \<Rightarrow> 't \<Rightarrow> 't outcome" where
  "remove_named R T name [] t = Ok t"
| "remove_named R T name (k # ks) t =
     obind (or_err (Storage (''remove from '' @ name @ '' table'')) (remove_row R T k t))
       (remove_named R T name ks)"

fun insert_named ::
  "('d, 't, 'r) redb \<Rightarrow> table_id \<Rightarrow> string \<Rightarrow> (db_key \<times> blob) list \<Rightarrow> 't \<Rightarrow> 't outcome" where
  "insert_named R T name [] t = Ok t"
| "insert_named R T name ((k, v) # kvs) t =
     obind (or_err (Storage (''insert into '' @ name @ '' table'')) (insert_row R T k v t))
       (insert_named R T name kvs)"

definition clear_and_restore_table ::
  "('d, 't, 'r) redb \<Rightarrow> table_id \<Rightarrow> string \<Rightarrow> (db_key \<times> blob) list \<Rightarrow> 't \<Rightarrow> 't outcome" where
  "clear_and_restore_table R T name kvs t =
     obind (or_err (Storage (''open '' @ name @ '' table'')) (open_table R T t)) (\<lambda>t.
     obind (or_err (Storage (''iterate '' @ name @ '' table'')) (iter_rows R T t)) (\<lambda>xs.
     obind (remove_named R T name (item_keys xs) t) (insert_named R T name kvs)))"

definition apply_snapshot_to_state_machine ::
  "('d, 't, 'r) redb \<Rightarrow> snapshot_data serde \<Rightarrow> blob \<Rightarrow> 'd \<Rightarrow> unit outcome \<times> 'd" where
  "apply_snapshot_to_state_machine R Sn bytes d =
     (case dec Sn bytes of
        None \<Rightarrow> (Err (Serialization ''deserialize snapshot''), d)
      | Some s \<Rightarrow>
          (case begin_write R d of
             None \<Rightarrow> (Err (Storage ''begin snapshot transaction''), d)
           | Some t \<Rightarrow>
               in_txn R ''commit snapshot transaction''
                 (obind (clear_and_restore_table R VM_STATE_TABLE ''VM_STATE''
                    (map (apfst Str) (sd_vm_states s)) t) (\<lambda>t.
                  obind (clear_and_restore_table R CLUSTER_STATE_TABLE ''CLUSTER_STATE''
                    (map (apfst Str) (sd_cluster_state s)) t) (\<lambda>t.
                  obind (clear_and_restore_table R TASK_TABLE ''TASK'' (map (apfst Str) (sd_tasks s)) t) (\<lambda>t.
                  obind (clear_and_restore_table R TASK_ASSIGNMENT_TABLE ''TASK_ASSIGNMENT''
                    (map (apfst Str) (sd_task_assignments s)) t) (\<lambda>t.
                  obind (clear_and_restore_table R TASK_RESULT_TABLE ''TASK_RESULT''
                    (map (apfst Str) (sd_task_results s)) t) (\<lambda>t.
                  obind (clear_and_restore_table R WORKER_TABLE ''WORKER''
                    (map (apfst Bytes) (sd_workers s)) t) (\<lambda>t.
                  obind (clear_and_restore_table R WORKER_STATUS_TABLE ''WORKER_STATUS''
                    (map (apfst Bytes) (sd_worker_status s)) t) (\<lambda>t.
                  obind (clear_and_restore_table R IP_POOL_TABLE ''IP_POOL''
                    (map (apfst Num) (sd_ip_pools s)) t) (\<lambda>t.
                  obind (clear_and_restore_table R IP_ALLOCATION_TABLE ''IP_ALLOCATION''
                    (map (apfst Str) (sd_ip_allocations s)) t) (\<lambda>t.
                  clear_and_restore_table R VM_IP_MAPPING_TABLE ''VM_IP_MAPPING''
                    (map (apfst Str) (sd_vm_ip_mappings s)) t)))))))))) d))"

text \<open>A snapshot is empty when its index is 0.\<close>

definition process_snapshot_if_present ::
  "('d, 't, 'r, 'n, 'm) raft_deps \<Rightarrow> 'm ready \<Rightarrow> 'd \<Rightarrow> unit outcome \<times> 'd" where
  "process_snapshot_if_present D rd d =
     (let snap = rd_snapshot rd
      in if snap_index snap = 0 then (Ok (), d)
         else db_seq (apply_snapshot (d_redb D) (d_snapshot D) snap d) (\<lambda>d.
                if snap_data snap = [] then (Ok (), d)
                else apply_snapshot_to_state_machine (d_redb D) (d_snapshot D) (snap_data snap) d))"

definition perform_log_compaction ::
  "('d, 't, 'r, 'n, 'm) raft_deps \<Rightarrow> u64 \<Rightarrow> ('d, 'n, 'm, 'p) raft_manager \<Rightarrow>
     unit outcome \<times> ('d, 'n, 'm, 'p) raft_manager" where
  "perform_log_compaction D applied_index m =
     (case storage_snapshot (d_redb D) (d_snapshot D) applied_index (rm_database m) of
        Ok snap \<Rightarrow>
          (case compact_log_before (d_redb D) (snap_index snap) (rm_database m) of
             (Ok _, d) \<Rightarrow> (Ok (), with_database m d\<lparr>rm_last_compaction := Some (snap_index snap)\<rparr>)
           | (Err _, d) \<Rightarrow> (Ok (), with_database m d)
           | (r, d) \<Rightarrow> (r, with_database m d))
      | Err _ \<Rightarrow> (Ok (), m)
      | Panics \<Rightarrow> (Panics, m)
      | Blocks \<Rightarrow> (Blocks, m))"

definition check_and_trigger_log_compaction ::
  "('d, 't, 'r, 'n, 'm) raft_deps \<Rightarrow> ('d, 'n, 'm, 'p) raft_manager \<Rightarrow>
     unit outcome \<times> ('d, 'n, 'm, 'p) raft_manager" where
  "check_and_trigger_log_compaction D m =
     (let applied_index = rn_applied (d_node D) (rm_raft_node m)
      in if applied_index > 1000 \<and>
            (case rm_last_compaction m of Some i \<Rightarrow> applied_index - i > 500 | None \<Rightarrow> True)
         then perform_log_compaction D applied_index m
         else (Ok (), m))"

section \<open>The ready loop\<close>

definition update_shared_state_status ::
  "('d, 't, 'r, 'n, 'm) raft_deps \<Rightarrow> ('d, 'n, 'm, 'p) raft_manager \<Rightarrow> ('d, 'n, 'm, 'p) raft_manager" where
  "update_shared_state_status D m =
     (let N = d_node D; n = rm_raft_node m
      in if shared_alive m
         then m\<lparr>rm_status := Some \<lparr>rs_is_leader = (rn_role N n = Leader), rs_node_id = rm_node_id m,
                  rs_leader_id = (if rn_leader_id N n = 0 then None else Some (rn_leader_id N n)),
                  rs_term = rn_term N n, rs_state = rn_role N n\<rparr>\<rparr>
         else m)"

definition save_hard_state_of ::
  "('d, 't, 'r) redb \<Rightarrow> 'm ready \<Rightarrow> 'd \<Rightarrow> unit outcome \<times> 'd" where
  "save_hard_state_of R rd d = (case rd_hs rd of None \<Rightarrow> (Ok (), d) | Some hs \<Rightarrow> save_hard_state R hs d)"

definition save_entries_to_storage ::
  "('d, 't, 'r) redb \<Rightarrow> 'm ready \<Rightarrow> 'd \<Rightarrow> unit outcome \<times> 'd" where
  "save_entries_to_storage R rd d =
     (if rd_entries rd = [] then (Ok (), d) else append_entries R (rd_entries rd) d)"

text \<open>The part of \<open>on_ready\<close> that comes before the first message is sent.\<close>

definition persist_ready ::
  "('d, 't, 'r, 'n, 'm) raft_deps \<Rightarrow> 'm ready \<Rightarrow> 'd \<Rightarrow> unit outcome \<times> 'd" where
  "persist_ready D rd d =
     db_seq (process_snapshot_if_present D rd d) (\<lambda>d.
     db_seq (save_entries_to_storage (d_redb D) rd d) (save_hard_state_of (d_redb D) rd))"

definition handle_newly_committed_entries ::
  "('d, 't, 'r, 'n, 'm) raft_deps \<Rightarrow> (nat \<Rightarrow> nat \<Rightarrow> sm_env) \<Rightarrow> nat \<Rightarrow> u64 \<Rightarrow> bool \<Rightarrow>
     ('d, 'n, 'm, 'p) raft_manager \<Rightarrow> unit outcome \<times> ('d, 'n, 'm, 'p) raft_manager" where
  "handle_newly_committed_entries D E i last_applied_index had_commit_update m =
     (let N = d_node D; committed = rn_committed N (rm_raft_node m);
          current_applied = (if last_applied_index > 0 then last_applied_index
                             else rn_applied N (rm_raft_node m))
      in if \<not> had_commit_update \<or> committed \<le> current_applied then (Ok (), m)
         else
           case storage_entries (d_redb D) (current_applied + 1) (committed + 1) None (rm_database m) of
             Ok entries \<Rightarrow>
               db_seq (process_entries D E i entries m) (\<lambda>m.
               let last = (if entries = [] then last_applied_index else last_entry_index entries)
               in (Ok (), if last > 0
                          then m\<lparr>rm_raft_node := rn_advance_apply_to N last (rm_raft_node m)\<rparr> else m))
           | Err _ \<Rightarrow> (Ok (), m)
           | Panics \<Rightarrow> (Panics, m)
           | Blocks \<Rightarrow> (Blocks, m))"

definition advance_raft_node ::
  "('d, 't, 'r, 'n, 'm) raft_deps \<Rightarrow> (nat \<Rightarrow> nat \<Rightarrow> sm_env) \<Rightarrow> nat \<Rightarrow> 'm ready \<Rightarrow> u64 \<Rightarrow>
     ('d, 'n, 'm, 'p) raft_manager \<Rightarrow> unit outcome \<times> ('d, 'n, 'm, 'p) raft_manager" where
  "advance_raft_node D E i rd last_applied_index m =
     (case rn_advance (d_node D) (rm_database m) rd (rm_raft_node m) of
        (light, n) \<Rightarrow>
          let m = fold send_raft_message (lr_messages light) (m\<lparr>rm_raft_node := n\<rparr>)
          in case lr_commit_index light of
               None \<Rightarrow> handle_newly_committed_entries D E i last_applied_index False m
             | Some index \<Rightarrow>
                 db_seq (on_storage (save_hard_state (d_redb D)
                           ((rn_hard_state (d_node D) n)\<lparr>hs_commit := index\<rparr>)) m)
                   (handle_newly_committed_entries D E i last_applied_index True))"

text \<open>
  The part of \<open>on_ready\<close> after the ready has been stored: send its messages, apply its committed
  entries, advance, compact, publish. The messages the library wants to be sent once the ready is
  stored, \<open>rd_persisted_messages\<close>, are not looked at.
\<close>

definition finish_ready ::
  "('d, 't, 'r, 'n, 'm) raft_deps \<Rightarrow> (nat \<Rightarrow> nat \<Rightarrow> sm_env) \<Rightarrow> 'm ready \<Rightarrow> ('d, 'n, 'm, 'p) raft_manager \<Rightarrow>
     unit outcome \<times> ('d, 'n, 'm, 'p) raft_manager" where
  "finish_ready D E rd m =
     (let m = fold send_raft_message (rd_messages rd) m; committed = rd_committed_entries rd;
          rd = rd\<lparr>rd_messages := [], rd_committed_entries := []\<rparr>
      in db_seq (process_entries D E 0 committed m) (\<lambda>m.
         db_seq (advance_raft_node D E (length committed) rd (last_entry_index committed) m) (\<lambda>m.
         db_seq (check_and_trigger_log_compaction D m) (\<lambda>m.
           (Ok (), update_shared_state_status D m)))))"

text \<open>\<open>on_ready\<close>; the result it returns, whether there was a ready, is \<open>rn_has_ready\<close>.\<close>

definition on_ready ::
  "('d, 't, 'r, 'n, 'm) raft_deps \<Rightarrow> (nat \<Rightarrow> nat \<Rightarrow> sm_env) \<Rightarrow> ('d, 'n, 'm, 'p) raft_manager \<Rightarrow>
     unit outcome \<times> ('d, 'n, 'm, 'p) raft_manager" where
  "on_ready D E m =
     (if \<not> rn_has_ready (d_node D) (rm_raft_node m) then (Ok (), m)
      else
        case rn_ready (d_node D) (rm_database m) (rm_raft_node m) of
          (rd, n) \<Rightarrow>
            db_seq (on_storage (persist_ready D rd) (m\<lparr>rm_raft_node := n\<rparr>)) (finish_ready D E rd))"

section \<open>Handlers of the main loop\<close>

definition tick ::
  "('d, 't, 'r, 'n, 'm) raft_deps \<Rightarrow> (nat \<Rightarrow> nat \<Rightarrow> sm_env) \<Rightarrow> (nat \<Rightarrow> nat \<Rightarrow> sm_env) \<Rightarrow>
     ('d, 'n, 'm, 'p) raft_manager \<Rightarrow> unit outcome \<times> ('d, 'n, 'm, 'p) raft_manager" where
  "tick D E E' m =
     (let N = d_node D
      in db_seq (on_ready D E (m\<lparr>rm_raft_node := rn_tick N (rm_database m) (rm_raft_node m)\<rparr>)) (\<lambda>m.
         case needs_replication_trigger m of
           (needed, m) \<Rightarrow>
             if needed \<and> rn_role N (rm_raft_node m) = Leader
             then on_ready D E' (m\<lparr>rm_raft_node := rn_tick N (rm_database m) (rm_raft_node m)\<rparr>)
             else (Ok (), m)))"

definition handle_proposal ::
  "('d, 't, 'r, 'n, 'm) raft_deps \<Rightarrow> (nat \<Rightarrow> nat \<Rightarrow> sm_env) \<Rightarrow> 'p raft_proposal \<Rightarrow>
     ('d, 'n, 'm, 'p) raft_manager \<Rightarrow> unit outcome \<times> ('d, 'n, 'm, 'p) raft_manager" where
  "handle_proposal D E proposal m =
     (let N = d_node D;
          m = (case rp_response proposal of
                 None \<Rightarrow> m
               | Some p \<Rightarrow> m\<lparr>rm_pending := (rm_pending m)(rp_id proposal \<mapsto> p)\<rparr>)
      in case enc (c_proposal (d_codec D)) (rp_data proposal) of
           None \<Rightarrow> (Err (Serialization ''serialize proposal''), m)
         | Some data \<Rightarrow>
             if rn_role N (rm_raft_node m) \<noteq> Leader
             then let leader = rn_leader_id N (rm_raft_node m);
                      e = Err (NotLeader ''propose'' (if leader = 0 then None else Some leader))
                  in (Ok (), case rm_pending m (rp_id proposal) of
                               None \<Rightarrow> m
                             | Some p \<Rightarrow> m\<lparr>rm_pending := (rm_pending m)(rp_id proposal := None),
                                           rm_responses := rm_responses m @ [(p, e)]\<rparr>)
             else
               case rn_propose N (rm_database m) (rp_id proposal) data (rm_raft_node m) of
                 (False, n) \<Rightarrow> (Err RaftError, m\<lparr>rm_raft_node := n\<rparr>)
               | (True, n) \<Rightarrow> on_ready D E (m\<lparr>rm_raft_node := n\<rparr>))"

text \<open>The committed entries of the ready that \<open>handle_raft_message\<close> processes itself.\<close>

fun process_conf_changes ::
  "('d, 't, 'r, 'n, 'm) raft_deps \<Rightarrow> raft_entry list \<Rightarrow> ('d, 'n, 'm, 'p) raft_manager \<Rightarrow>
     unit outcome \<times> ('d, 'n, 'm, 'p) raft_manager" where
  "process_conf_changes D [] m = (Ok (), m)"
| "process_conf_changes D (entry # entries) m =
     db_seq (if entry_type entry = 1 then process_conf_change_entry D entry m else (Ok (), m))
       (process_conf_changes D entries)"

definition inline_ready ::
  "('d, 't, 'r, 'n, 'm) raft_deps \<Rightarrow> ('d, 'n, 'm, 'p) raft_manager \<Rightarrow>
     unit outcome \<times> ('d, 'n, 'm, 'p) raft_manager" where
  "inline_ready D m =
     (case rn_ready (d_node D) (rm_database m) (rm_raft_node m) of
        (rd, n) \<Rightarrow>
          db_seq (on_storage (\<lambda>d. db_seq (save_entries_to_storage (d_redb D) rd d)
                    (save_hard_state_of (d_redb D) rd)) (m\<lparr>rm_raft_node := n\<rparr>)) (\<lambda>m.
          let m = fold send_raft_message (rd_messages rd @ rd_persisted_messages rd) m;
              committed = rd_committed_entries rd;
              rd = rd\<lparr>rd_messages := [], rd_persisted_messages := [], rd_committed_entries := []\<rparr>
          in db_seq (process_conf_changes D committed m) (\<lambda>m.
             (Ok (), update_shared_state_status D (m\<lparr>rm_raft_node :=
                snd (rn_advance (d_node D) (rm_database m) rd (rm_raft_node m))\<rparr>)))))"

definition handle_raft_message ::
  "('d, 't, 'r, 'n, 'm) raft_deps \<Rightarrow> (nat \<Rightarrow> nat \<Rightarrow> sm_env) \<Rightarrow> u64 \<Rightarrow> 'm raft_message \<Rightarrow>
     ('d, 'n, 'm, 'p) raft_manager \<Rightarrow> unit outcome \<times> ('d, 'n, 'm, 'p) raft_manager" where
  "handle_raft_message D E from msg m =
     (let N = d_node D
      in case rn_step N (rm_database m) (msg\<lparr>msg_from := from\<rparr>) (rm_raft_node m) of
           (False, n) \<Rightarrow> (Err (Raft ''step message''), m\<lparr>rm_raft_node := n\<rparr>)
         | (True, n) \<Rightarrow>
             let m = m\<lparr>rm_raft_node := n\<rparr>
             in db_seq (if rn_has_ready N n then inline_ready D m else (Ok (), m)) (on_ready D E))"

definition apply_initial_conf_state ::
  "('d, 't, 'r, 'n, 'm) raft_deps \<Rightarrow> conf_state \<Rightarrow> ('d, 'n, 'm, 'p) raft_manager \<Rightarrow>
     unit outcome \<times> ('d, 'n, 'm, 'p) raft_manager" where
  "apply_initial_conf_state D cs =
     on_storage (apply_snapshot (d_redb D) (d_snapshot D)
       \<lparr>snap_data = [], snap_conf_state = cs, snap_index = 0, snap_term = 0\<rparr>)"

definition bootstrap_single_node ::
  "('d, 't, 'r, 'n, 'm) raft_deps \<Rightarrow> (nat \<Rightarrow> nat \<Rightarrow> sm_env) \<Rightarrow> (nat \<Rightarrow> nat \<Rightarrow> sm_env) \<Rightarrow>
     ('d, 'n, 'm, 'p) raft_manager \<Rightarrow> unit outcome \<times> ('d, 'n, 'm, 'p) raft_manager" where
  "bootstrap_single_node D E E' m =
     (let N = d_node D
      in if shared_alive m \<and> rm_join_addr m \<noteq> None
         then (Err (Internal ''Cannot bootstrap when join_addr is configured - this node should join, not bootstrap''), m)
         else
           db_seq (on_ready D E (m\<lparr>rm_raft_node := rn_campaign N (rm_database m) (rm_raft_node m)\<rparr>)) (\<lambda>m.
           db_seq (if rn_role N (rm_raft_node m) = Leader
                   then case rn_propose N (rm_database m) [] [] (rm_raft_node m) of
                          (ok, n) \<Rightarrow> (if ok then Ok () else Err RaftError, m\<lparr>rm_raft_node := n\<rparr>)
                   else (Ok (), m)) (on_ready D E')))"

definition should_bootstrap :: "('d, 'n, 'm, 'p) raft_manager \<Rightarrow> bool" where
  "should_bootstrap m \<longleftrightarrow>
     rm_peers m = Map.empty \<and> \<not> (shared_alive m \<and> rm_join_addr m \<noteq> None)"

text \<open>
  One turn of the main loop, on a tick or on what a channel delivers. The loop ends with the first
  error that a handler returns.
\<close>

datatype ('m, 'p) raft_event =
    Tick "nat \<Rightarrow> nat \<Rightarrow> sm_env" "nat \<Rightarrow> nat \<Rightarrow> sm_env"
  | Propose "nat \<Rightarrow> nat \<Rightarrow> sm_env" "'p raft_proposal"
  | Receive "nat \<Rightarrow> nat \<Rightarrow> sm_env" u64 "'m raft_message"
  | ChangeConf "'p raft_conf_change"

fun handle_event ::
  "('d, 't, 'r, 'n, 'm) raft_deps \<Rightarrow> ('m, 'p) raft_event \<Rightarrow> ('d, 'n, 'm, 'p) raft_manager \<Rightarrow>
     unit outcome \<times> ('d, 'n, 'm, 'p) raft_manager" where
  "handle_event D (Tick E E') m = tick D E E' m"
| "handle_event D (Propose E proposal) m = handle_proposal D E proposal m"
| "handle_event D (Receive E from msg) m = handle_raft_message D E from msg m"
| "handle_event D (ChangeConf cc) m = handle_conf_change D cc m"

fun run_main_loop ::
  "('d, 't, 'r, 'n, 'm) raft_deps \<Rightarrow> ('m, 'p) raft_event list \<Rightarrow> ('d, 'n, 'm, 'p) raft_manager \<Rightarrow>
     unit outcome \<times> ('d, 'n, 'm, 'p) raft_manager" where
  "run_main_loop D [] m = (Ok (), m)"
| "run_main_loop D (event # events) m = db_seq (handle_event D event m) (run_main_loop D events)"

text \<open>
  \<open>RaftManager::run\<close>: a node without peers and without a join address first bootstraps a cluster of
  its own.
\<close>

definition run_manager ::
  "('d, 't, 'r, 'n, 'm) raft_deps \<Rightarrow> (nat \<Rightarrow> nat \<Rightarrow> sm_env) \<Rightarrow> (nat \<Rightarrow> nat \<Rightarrow> sm_env) \<Rightarrow>
     ('m, 'p) raft_event list \<Rightarrow> ('d, 'n, 'm, 'p) raft_manager \<Rightarrow>
     unit outcome \<times> ('d, 'n, 'm, 'p) raft_manager" where
  "run_manager D E E' events m =
     db_seq (if should_bootstrap m then bootstrap_single_node D E E' m else (Ok (), m))
       (run_main_loop D events)"

text \<open>
  \<open>RaftManager::new\<close>. \<open>new_node\<close> is the library's constructor on the storage, with the configuration
  that says no entry has been applied; \<open>config\<close> tells whether the global configuration is available.
\<close>

definition raft_manager_new ::
  "('d \<Rightarrow> 'n option) \<Rightarrow> bool \<Rightarrow> u64 \<Rightarrow> 'd \<Rightarrow> (u64 \<times> string) list \<Rightarrow> 'd quota_manager option option \<Rightarrow> string option \<Rightarrow>
     ('d, 'n, 'm, 'p) raft_manager outcome" where
  "raft_manager_new new_node config node_id database peers shared join_addr =
     (case new_node database of
        None \<Rightarrow> Err (Raft ''create raft node'')
      | Some n \<Rightarrow>
          if shared \<noteq> None \<and> \<not> config then Err (Internal ''Failed to get config'')
          else Ok \<lparr>rm_node_id = node_id, rm_raft_node = n, rm_machine = state_machine_new database shared,
                   rm_peers = map_of (rev peers), rm_members = Map.empty, rm_needs_replication = False,
                   rm_last_compaction = None, rm_pending = Map.empty, rm_responses = [],
                   rm_outgoing = [], rm_channel_open = True, rm_status = None, rm_join_addr = join_addr\<rparr>)"

end
