(* ===== verification/Raft_Delivery.thy ===== *)
theory Raft_Delivery
  imports Raft_Manager
begin

text \<open>
  What the Raft manager guarantees: nothing is sent before it is stored, each caller is answered at
  most once and with the result of its entry, compaction keeps what has not been applied; and where
  it loses something: entries committed by a received message, and membership changes at a restart.
\<close>

section \<open>Sequences of operations\<close>

lemma db_seq_cases:
  assumes "db_seq p f = (r, d')"
  obtains d where "p = (Ok (), d)" "f d = (r, d')" | "p = (r, d')" "r \<noteq> Ok ()"
  using assms by (cases p; cases "fst p") (auto simp: db_seq_def)

lemma db_seq_snd:
  assumes "P (snd p)" and "\<And>d. P d \<Longrightarrow> P (snd (f d))"
  shows "P (snd (db_seq p f))"
  using assms by (cases p; cases "fst p") (auto simp: db_seq_def)

lemma with_database_simps [simp]:
  "rm_database (with_database m d) = d" "rm_node_id (with_database m d) = rm_node_id m"
  "rm_raft_node (with_database m d) = rm_raft_node m" "rm_pending (with_database m d) = rm_pending m"
  "rm_responses (with_database m d) = rm_responses m" "rm_outgoing (with_database m d) = rm_outgoing m"
  "rm_channel_open (with_database m d) = rm_channel_open m"
  "sm_shared (rm_machine (with_database m d)) = sm_shared (rm_machine m)"
  by (simp_all add: with_database_def)

lemma on_storage_cases:
  assumes "on_storage f m = (r, m')"
  obtains d where "f (rm_database m) = (r, d)" "m' = with_database m d"
  using assms by (auto simp: on_storage_def split: prod.splits)

section \<open>Each caller is answered at most once\<close>

definition callers_ok :: "('d, 'n, 'm, 'p) raft_manager \<Rightarrow> bool" where
  "callers_ok m \<longleftrightarrow> distinct (map fst (rm_responses m)) \<and> inj_on (rm_pending m) (dom (rm_pending m)) \<and>
     ran (rm_pending m) \<inter> fst ` set (rm_responses m) = {}"

fun event_caller :: "('m, 'p) raft_event \<Rightarrow> 'p option" where
  "event_caller (Propose E proposal) = rp_response proposal"
| "event_caller (ChangeConf cc) = rc_response cc"
| "event_caller _ = None"

text \<open>A response channel is created for one request: it is not in use when the request arrives.\<close>

definition caller_fresh :: "('d, 'n, 'm, 'p) raft_manager \<Rightarrow> 'p \<Rightarrow> bool" where
  "caller_fresh m p \<longleftrightarrow> p \<notin> ran (rm_pending m) \<and> p \<notin> fst ` set (rm_responses m)"

definition event_fresh :: "('d, 'n, 'm, 'p) raft_manager \<Rightarrow> ('m, 'p) raft_event \<Rightarrow> bool" where
  "event_fresh m event \<longleftrightarrow> pred_option (caller_fresh m) (event_caller event)"

text \<open>Most operations leave the callers alone.\<close>

definition same_callers :: "('d, 'n, 'm, 'p) raft_manager \<Rightarrow> ('d, 'n, 'm, 'p) raft_manager \<Rightarrow> bool" where
  "same_callers m m' \<longleftrightarrow> rm_pending m' = rm_pending m \<and> rm_responses m' = rm_responses m"

lemma same_callers_ok: "same_callers m m' \<Longrightarrow> callers_ok m \<Longrightarrow> callers_ok m'"
  by (simp add: same_callers_def callers_ok_def)

lemma same_callers_fresh: "same_callers m m' \<Longrightarrow> caller_fresh m p \<Longrightarrow> caller_fresh m' p"
  by (simp add: same_callers_def caller_fresh_def)

lemma same_callers_refl [simp]: "same_callers m m"
  by (simp add: same_callers_def)

lemma same_callers_trans: "same_callers m m' \<Longrightarrow> same_callers m' m'' \<Longrightarrow> same_callers m m''"
  by (simp add: same_callers_def)

lemma same_callers_send: "same_callers m (send_raft_message msg m)"
  by (simp add: same_callers_def send_raft_message_def Let_def)

lemma same_callers_send_all: "same_callers m (fold send_raft_message msgs m)"
  by (induction msgs arbitrary: m) (auto intro: same_callers_trans same_callers_send)

lemma same_callers_storage: "same_callers m (snd (on_storage f m))"
  by (simp add: same_callers_def on_storage_def split: prod.split)

lemma same_callers_peers: "same_callers m (update_local_peers_after_conf_change X cc m)"
  by (simp add: same_callers_def update_local_peers_after_conf_change_def Let_def split: option.split)

lemma same_callers_status: "same_callers m (update_shared_state_status D m)"
  by (simp add: same_callers_def update_shared_state_status_def Let_def)

lemma same_callers_node: "same_callers m (m\<lparr>rm_raft_node := n\<rparr>)"
  by (simp add: same_callers_def)

lemma same_callers_conf_change: "same_callers m (snd (apply_conf_change D cc m))"
proof (cases "rn_apply_conf_change (d_node D) (rm_database m) cc (rm_raft_node m)")
  case (Pair cs n)
  show ?thesis
  proof (cases cs)
    case (Some c)
    let ?p = "on_storage (save_cluster_conf_state (d_redb D) (d_conf_state D) c) (m\<lparr>rm_raft_node := n\<rparr>)"
    have "same_callers m (snd ?p)"
      using same_callers_storage same_callers_node by (rule same_callers_trans [rotated])
    then have "same_callers m (snd (db_seq ?p (\<lambda>m.
          let m = update_local_peers_after_conf_change (d_context D) cc m
          in (Ok (), if cc_change_type cc = 0 then m\<lparr>rm_needs_replication := True\<rparr> else m))))"
      by (rule db_seq_snd)
        (simp add: same_callers_def Let_def same_callers_peers [unfolded same_callers_def])
    then show ?thesis by (simp add: apply_conf_change_def Pair Some)
  qed (simp add: apply_conf_change_def Pair same_callers_def)
qed

lemma callers_ok_take:
  assumes "callers_ok m" and p: "rm_pending m context = Some p"
  shows "callers_ok (m\<lparr>rm_pending := (rm_pending m)(context := None),
                       rm_responses := rm_responses m @ [(p, r)]\<rparr>)"
proof -
  have "p \<notin> ran ((rm_pending m)(context := None))"
  proof
    assume "p \<in> ran ((rm_pending m)(context := None))"
    then obtain c where "c \<noteq> context" "rm_pending m c = Some p" by (auto simp: ran_def split: if_splits)
    with assms show False unfolding callers_ok_def inj_on_def by (metis domI)
  qed
  moreover have "p \<in> ran (rm_pending m)" using p by (rule ranI)
  moreover have "ran ((rm_pending m)(context := None)) \<subseteq> ran (rm_pending m)" by (auto simp: ran_def split: if_splits)
  ultimately show ?thesis
    using assms by (auto simp: callers_ok_def inj_on_def)
qed

lemma callers_ok_respond: "callers_ok m \<Longrightarrow> callers_ok (respond context r m)"
  by (simp add: respond_def callers_ok_take split: option.split)

lemma callers_ok_answer:
  assumes "callers_ok m" and "pred_option (caller_fresh m) tx"
  shows "callers_ok (answer tx r m)"
  using assms by (cases tx) (auto simp: callers_ok_def answer_def caller_fresh_def)

lemma callers_ok_seq:
  "callers_ok (snd p) \<Longrightarrow> (\<And>d. callers_ok d \<Longrightarrow> callers_ok (snd (f d))) \<Longrightarrow> callers_ok (snd (db_seq p f))"
  by (rule db_seq_snd)

lemma callers_ok_storage: "callers_ok m \<Longrightarrow> callers_ok (snd (on_storage f m))"
  by (rule same_callers_ok [OF same_callers_storage])

lemma callers_ok_send_all: "callers_ok m \<Longrightarrow> callers_ok (fold send_raft_message msgs m)"
  by (rule same_callers_ok [OF same_callers_send_all])

lemma callers_ok_machine [simp]: "callers_ok (m\<lparr>rm_machine := sm\<rparr>) = callers_ok m"
  by (simp add: callers_ok_def)

lemma callers_ok_node [simp]: "callers_ok (m\<lparr>rm_raft_node := n\<rparr>) = callers_ok m"
  by (simp add: callers_ok_def)

lemma callers_ok_conf_entry:
  "callers_ok m \<Longrightarrow> callers_ok (snd (process_conf_change_entry D entry m))"
  by (auto simp: process_conf_change_entry_def Let_def callers_ok_respond split: option.split
      intro: same_callers_ok [OF same_callers_conf_change])

lemma callers_ok_entry: "callers_ok m \<Longrightarrow> callers_ok (snd (process_entry D E entry m))"
  by (auto simp: process_entry_def process_normal_entry_def callers_ok_conf_entry callers_ok_respond
      split: prod.split outcome.split)

lemma callers_ok_entries: "callers_ok m \<Longrightarrow> callers_ok (snd (process_entries D E i entries m))"
proof (induction entries arbitrary: i m)
  case (Cons entry entries)
  show ?case unfolding process_entries.simps
    by (rule callers_ok_seq) (use Cons callers_ok_entry in blast)+
qed simp

lemma callers_ok_conf_changes: "callers_ok m \<Longrightarrow> callers_ok (snd (process_conf_changes D entries m))"
proof (induction entries arbitrary: m)
  case (Cons entry entries)
  show ?case unfolding process_conf_changes.simps
    by (rule callers_ok_seq) (use Cons callers_ok_conf_entry in \<open>auto\<close>)
qed simp

lemma callers_ok_newly:
  "callers_ok m \<Longrightarrow> callers_ok (snd (handle_newly_committed_entries D E i last_applied_index b m))"
  unfolding handle_newly_committed_entries_def Let_def
  by (auto intro!: callers_ok_seq callers_ok_entries split: outcome.split)

lemma callers_ok_advance: "callers_ok m \<Longrightarrow> callers_ok (snd (advance_raft_node D E i rd index m))"
  unfolding advance_raft_node_def Let_def
  by (auto intro!: callers_ok_seq callers_ok_newly callers_ok_storage callers_ok_send_all
      split: prod.split option.split)

lemma callers_ok_compaction: "callers_ok m \<Longrightarrow> callers_ok (snd (check_and_trigger_log_compaction D m))"
  unfolding check_and_trigger_log_compaction_def perform_log_compaction_def
  by (auto simp: Let_def callers_ok_def split: outcome.split prod.split)

lemma callers_ok_finish: "callers_ok m \<Longrightarrow> callers_ok (snd (finish_ready D E rd m))"
  unfolding finish_ready_def Let_def
  by (intro callers_ok_seq callers_ok_entries callers_ok_send_all callers_ok_advance callers_ok_compaction)
    (auto intro: same_callers_ok [OF same_callers_status])

lemma callers_ok_ready: "callers_ok m \<Longrightarrow> callers_ok (snd (on_ready D E m))"
  unfolding on_ready_def
  by (auto intro!: callers_ok_seq callers_ok_storage callers_ok_finish split: prod.split)

lemma callers_ok_inline: "callers_ok m \<Longrightarrow> callers_ok (snd (inline_ready D m))"
  unfolding inline_ready_def Let_def
  by (auto intro!: callers_ok_seq callers_ok_storage callers_ok_conf_changes callers_ok_send_all
      same_callers_ok [OF same_callers_status] split: prod.split)

lemma callers_ok_tick: "callers_ok m \<Longrightarrow> callers_ok (snd (tick D E E' m))"
  unfolding tick_def Let_def needs_replication_trigger_def
  by (auto intro!: callers_ok_seq callers_ok_ready) (simp_all add: callers_ok_def)

lemma callers_ok_receive: "callers_ok m \<Longrightarrow> callers_ok (snd (handle_raft_message D E from msg m))"
  unfolding handle_raft_message_def Let_def
  by (auto intro!: callers_ok_seq callers_ok_ready callers_ok_inline split: prod.split bool.split)

lemma callers_ok_propose:
  assumes "callers_ok m" and "pred_option (caller_fresh m) (rp_response proposal)"
  shows "callers_ok (snd (handle_proposal D E proposal m))"
proof -
  let ?m = "case rp_response proposal of None \<Rightarrow> m
    | Some p \<Rightarrow> m\<lparr>rm_pending := (rm_pending m)(rp_id proposal \<mapsto> p)\<rparr>"
  have ok: "callers_ok ?m"
  proof (cases "rp_response proposal")
    case (Some p)
    then have p: "p \<notin> ran (rm_pending m)" "p \<notin> fst ` set (rm_responses m)"
      using assms(2) by (simp_all add: caller_fresh_def)
    have "inj_on ((rm_pending m)(rp_id proposal \<mapsto> p)) (insert (rp_id proposal) (dom (rm_pending m)))"
      using assms(1) p(1) by (auto simp: callers_ok_def inj_on_def ran_def)
    moreover have "ran ((rm_pending m)(rp_id proposal \<mapsto> p)) \<subseteq> insert p (ran (rm_pending m))"
      by (auto simp: ran_def)
    then have "ran ((rm_pending m)(rp_id proposal \<mapsto> p)) \<inter> fst ` set (rm_responses m) = {}"
      using assms(1) p(2) unfolding callers_ok_def by blast
    ultimately show ?thesis using assms(1) Some unfolding callers_ok_def by simp
  qed (use assms(1) in simp)
  define x where "x = ?m"
  have "callers_ok (case rm_pending x i of None \<Rightarrow> x
      | Some p \<Rightarrow> x\<lparr>rm_pending := (rm_pending x)(i := None), rm_responses := rm_responses x @ [(p, e)]\<rparr>)"
    for e i using ok by (simp add: x_def [symmetric] callers_ok_take split: option.split)
  then show ?thesis
    using ok unfolding handle_proposal_def Let_def x_def [symmetric]
    by (auto intro: callers_ok_ready split: option.split prod.split bool.split)
qed

lemma same_callers_addition: "same_callers m (snd (handle_successful_node_addition D cc m))"
  by (auto simp: handle_successful_node_addition_def Let_def same_callers_def split: option.split)

lemma callers_ok_change:
  assumes "callers_ok m" and "pred_option (caller_fresh m) (rc_response cc)"
  shows "callers_ok (snd (handle_conf_change D cc m))"
proof -
  have ans: "callers_ok (answer (rc_response cc) r m')" if "same_callers m m'" for r m'
    by (rule callers_ok_answer [OF same_callers_ok [OF that assms(1)]])
      (use that same_callers_fresh assms(2) in \<open>cases "rc_response cc", auto\<close>)
  have add: "callers_ok (snd (db_seq p (\<lambda>m. (Ok (), answer (rc_response cc) (Ok ()) m))))"
    if "same_callers m (snd p)" for p
    using ans [OF that] same_callers_ok [OF that assms(1)]
    by (cases p; cases "fst p") (auto simp: db_seq_def)
  show ?thesis
    unfolding handle_conf_change_def Let_def
    using assms(1) same_callers_trans [OF same_callers_node same_callers_addition]
    by (auto intro!: ans add same_callers_node split: option.split prod.split bool.split)
qed

interpretation manager: event_machine "\<lambda>m event. snd (handle_event D event m)" event_fresh callers_ok
  for D :: "('d, 't, 'r, 'n, 'm) raft_deps"
proof
  fix m :: "('d, 'n, 'm, 'p) raft_manager" and event
  assume "callers_ok m" "event_fresh m event"
  then show "callers_ok (snd (handle_event D event m))"
    by (cases event)
      (auto simp: event_fresh_def callers_ok_tick callers_ok_propose callers_ok_receive callers_ok_change)
qed

section \<open>What is stored when\<close>

lemma saved_entry_row:
  assumes "redb_ok R view tview rview" and "save_entries_to_storage R rd d = (Ok (), d')"
    and "distinct (map entry_index (rd_entries rd))" and "e \<in> set (rd_entries rd)"
  shows "view d' RAFT_LOG_TABLE (Num (entry_index e)) = Some (serialize_entry e)"
  using appended_row [OF assms(1) _ assms(3,4)] assms(2,4)
  by (simp add: save_entries_to_storage_def split: if_splits)

lemma save_hard_state_of_view:
  assumes "redb_ok R view tview rview" and "save_hard_state_of R rd d = (Ok (), d')"
  shows "view d' = (case rd_hs rd of None \<Rightarrow> view d
    | Some hs \<Rightarrow> (view d)(RAFT_HARD_STATE_TABLE :=
        (view d RAFT_HARD_STATE_TABLE)(Str ''hard_state'' \<mapsto> serialize_hard_state hs)))"
  using assms save_hard_state_view [OF assms(1)]
  by (auto simp: save_hard_state_of_def split: option.splits)

lemma save_entries_other:
  assumes "redb_ok R view tview rview" and "save_entries_to_storage R rd d = (Ok (), d')"
    and "T \<noteq> RAFT_LOG_TABLE"
  shows "view d' T = view d T"
proof (cases "rd_entries rd = []")
  case False
  then have "append_entries R (rd_entries rd) d = (Ok (), d')"
    using assms(2) by (simp add: save_entries_to_storage_def)
  then show ?thesis
    using assms(3) unfolding append_entries_def
    by (auto elim!: write_txn_Ok [OF assms(1)] dest!: redb_open [OF assms(1)] append_loop_view [OF assms(1)])
qed (use assms(2) in \<open>simp add: save_entries_to_storage_def\<close>)

text \<open>
  C8. Stored before sent: when \<open>on_ready\<close> processes a ready, either its entries and its hard state are
  in the database before the first message goes out, the first entry is applied or a caller is
  answered, or storing them failed and none of this happens.
\<close>

theorem ready_stored_before_sent:
  assumes "redb_ok (d_redb D) view tview rview" and "rn_has_ready (d_node D) (rm_raft_node m)"
    and "rn_ready (d_node D) (rm_database m) (rm_raft_node m) = (rd, n)"
    and "distinct (map entry_index (rd_entries rd))" and "on_ready D E m = (r, m')"
  shows "(\<exists>stored. finish_ready D E rd stored = (r, m') \<and>
            rm_outgoing stored = rm_outgoing m \<and> rm_responses stored = rm_responses m \<and>
            (\<forall>e \<in> set (rd_entries rd).
               view (rm_database stored) RAFT_LOG_TABLE (Num (entry_index e)) = Some (serialize_entry e)) \<and>
            (\<forall>hs. rd_hs rd = Some hs \<longrightarrow>
               view (rm_database stored) RAFT_HARD_STATE_TABLE (Str ''hard_state'') =
                 Some (serialize_hard_state hs))) \<or>
         (r \<noteq> Ok () \<and> rm_outgoing m' = rm_outgoing m \<and> rm_responses m' = rm_responses m \<and>
            (\<exists>d. m' = with_database (m\<lparr>rm_raft_node := n\<rparr>) d))"
proof -
  let ?m = "m\<lparr>rm_raft_node := n\<rparr>"
  have "db_seq (on_storage (persist_ready D rd) ?m) (finish_ready D E rd) = (r, m')"
    using assms(2,3,5) by (simp add: on_ready_def)
  then show ?thesis
  proof (cases rule: db_seq_cases)
    case (1 stored)
    obtain d where d: "persist_ready D rd (rm_database ?m) = (Ok (), d)" "stored = with_database ?m d"
      by (rule on_storage_cases [OF 1(1)])
    then obtain d1 d2 where p: "save_entries_to_storage (d_redb D) rd d1 = (Ok (), d2)"
      "save_hard_state_of (d_redb D) rd d2 = (Ok (), d)"
      by (auto simp: persist_ready_def db_seq_Ok)
    note hs = save_hard_state_of_view [OF assms(1) p(2)]
    have "view d RAFT_LOG_TABLE (Num (entry_index e)) = Some (serialize_entry e)"
      if "e \<in> set (rd_entries rd)" for e
      using saved_entry_row [OF assms(1) p(1) assms(4) that] unfolding hs by (simp split: option.split)
    moreover have "view d RAFT_HARD_STATE_TABLE (Str ''hard_state'') = Some (serialize_hard_state h)"
      if "rd_hs rd = Some h" for h
      unfolding hs using that by simp
    ultimately show ?thesis using 1(2) d(2) by (intro disjI1 exI [of _ stored]) simp
  next
    case 2
    then show ?thesis by (auto elim!: on_storage_cases)
  qed
qed

text \<open>The ready that is processed for a received message: of the committed entries only configuration changes are looked at.\<close>

lemma inline_ready_skips:
  assumes "redb_ok (d_redb D) view tview rview"
    and "rn_ready (d_node D) (rm_database m) (rm_raft_node m) = (rd, n)"
    and "list_all (\<lambda>e. entry_type e \<noteq> 1) (rd_committed_entries rd)"
    and "inline_ready D m = (Ok (), m')"
  shows "(T = RAFT_LOG_TABLE \<or> T = RAFT_HARD_STATE_TABLE \<or>
            view (rm_database m') T = view (rm_database m) T) \<and>
         rm_pending m' = rm_pending m \<and> rm_responses m' = rm_responses m \<and>
         rm_raft_node m' = snd (rn_advance (d_node D) (rm_database m')
           (rd\<lparr>rd_messages := [], rd_persisted_messages := [], rd_committed_entries := []\<rparr>) n)"
proof -
  let ?msgs = "rd_messages rd @ rd_persisted_messages rd"
  have skip: "process_conf_changes D es m = (Ok (), m)" if "list_all (\<lambda>e. entry_type e \<noteq> 1) es"
    for es and m :: "('a, 'd, 'e, 'f) raft_manager"
    using that by (induction es) (simp_all add: db_seq_def)
  obtain m1 where m1: "on_storage (\<lambda>d. db_seq (save_entries_to_storage (d_redb D) rd d)
        (save_hard_state_of (d_redb D) rd)) (m\<lparr>rm_raft_node := n\<rparr>) = (Ok (), m1)"
    "m' = update_shared_state_status D ((fold send_raft_message ?msgs m1)\<lparr>rm_raft_node :=
        snd (rn_advance (d_node D) (rm_database (fold send_raft_message ?msgs m1))
          (rd\<lparr>rd_messages := [], rd_persisted_messages := [], rd_committed_entries := []\<rparr>)
          (rm_raft_node (fold send_raft_message ?msgs m1)))\<rparr>)"
    using assms(4) skip [OF assms(3)] by (auto simp: inline_ready_def assms(2) Let_def db_seq_Ok)
  obtain d1 d2 where d: "save_entries_to_storage (d_redb D) rd (rm_database m) = (Ok (), d1)"
    "save_hard_state_of (d_redb D) rd d1 = (Ok (), d2)" "m1 = with_database (m\<lparr>rm_raft_node := n\<rparr>) d2"
    using m1(1) by (auto elim!: on_storage_cases simp: db_seq_Ok)
  have send: "rm_machine (fold send_raft_message msgs x) = rm_machine x"
    "rm_raft_node (fold send_raft_message msgs x) = rm_raft_node x" for msgs and x :: "('a, 'd, 'e, 'f) raft_manager"
    by (induction msgs arbitrary: x) (simp_all add: send_raft_message_def Let_def)
  have status: "rm_machine (update_shared_state_status D x) = rm_machine x"
    "rm_raft_node (update_shared_state_status D x) = rm_raft_node x" for x :: "('a, 'd, 'e, 'f) raft_manager"
    by (simp_all add: update_shared_state_status_def Let_def)
  have "view d2 T = view (rm_database m) T" if "T \<noteq> RAFT_LOG_TABLE" "T \<noteq> RAFT_HARD_STATE_TABLE"
    using save_entries_other [OF assms(1) d(1) that(1)] save_hard_state_of_view [OF assms(1) d(2)] that(2)
    by (simp split: option.splits)
  then show ?thesis
    using same_callers_send_all [of m1 ?msgs] unfolding m1(2) d(3)
    by (auto simp: status send same_callers_def
        same_callers_status [unfolded same_callers_def])
qed


text \<open>
  C9. A response channel is used at most once: after any sequence of ticks, proposals, messages and
  configuration changes, each of them with a response channel of its own, no caller has been
  answered twice, and no answered caller is still waiting.
\<close>

theorem callers_answered_once:
  assumes "reach (\<lambda>m event. snd (handle_event D event m)) event_fresh m0 m"
    and "rm_pending m0 = Map.empty" and "rm_responses m0 = []"
  shows "distinct (map fst (rm_responses m)) \<and> ran (rm_pending m) \<inter> fst ` set (rm_responses m) = {}"
proof -
  have "callers_ok m0" using assms(2,3) by (simp add: callers_ok_def)
  from manager.reach_inv [OF assms(1) this] show ?thesis by (simp add: callers_ok_def)
qed

lemma initial_state_same:
  assumes r: "redb_ok R view tview rview" and t: "reads_succeed R RAFT_HARD_STATE_TABLE"
    "reads_succeed R RAFT_CONF_STATE_TABLE" and "begin_read R d \<noteq> None" "begin_read R d' \<noteq> None"
    and "view d' RAFT_HARD_STATE_TABLE = view d RAFT_HARD_STATE_TABLE"
    and "view d' RAFT_CONF_STATE_TABLE = view d RAFT_CONF_STATE_TABLE"
  shows "initial_state R d' = initial_state R d"
proof -
  obtain x y where xy: "begin_read R d = Some x" "begin_read R d' = Some y" using assms(4,5) by blast
  show ?thesis
    using assms(6,7) redb_begin_read [OF r xy(1)] redb_begin_read [OF r xy(2)]
    by (simp add: initial_state_def xy read_row_view [OF r t(1)] read_row_view [OF r t(2)])
qed


text \<open>
  C12. Compaction keeps what has not been applied: the check at the end of a ready removes no log entry
  at or above the applied index, removes nothing before 1000 entries have been applied, and touches
  no other table.
\<close>

theorem compaction_keeps_unapplied:
  assumes "redb_ok (d_redb D) view tview rview" and "items_succeed (d_redb D)"
    and "check_and_trigger_log_compaction D m = (r, m')"
    and "T \<noteq> RAFT_LOG_TABLE \<or> rn_applied (d_node D) (rm_raft_node m) \<le> key_num k \<or>
         rn_applied (d_node D) (rm_raft_node m) \<le> 1000"
  shows "view (rm_database m') T k = view (rm_database m) T k"
proof -
  let ?applied = "rn_applied (d_node D) (rm_raft_node m)"
  have "view d T k = view (rm_database m) T k"
    if "storage_snapshot (d_redb D) (d_snapshot D) ?applied (rm_database m) = Ok snap"
      "compact_log_before (d_redb D) (snap_index snap) (rm_database m) = (r', d)" "?applied > 1000" for snap r' d
  proof (cases "r' = Ok ()")
    case True
    have "snap_index snap \<le> ?applied" using that(1) by (auto simp: storage_snapshot_def)
    then have "\<not> (T = RAFT_LOG_TABLE \<and> key_num k < snap_index snap)" using assms(4) that(3) by auto
    then show ?thesis using compact_log_view [OF assms(1,2) that(2) [unfolded True]] by auto
  next
    case False
    then show ?thesis
      using write_txn_failed [OF assms(1)] that(2) by (auto simp: compact_log_before_def split: if_splits)
  qed
  note kept = this
  show ?thesis
  proof (cases "perform_log_compaction D ?applied m = (r, m') \<and> ?applied > 1000")
    case True
    then have p: "perform_log_compaction D ?applied m = (r, m')" and big: "?applied > 1000" by simp_all
    show ?thesis
    proof (cases "storage_snapshot (d_redb D) (d_snapshot D) ?applied (rm_database m)")
      case (Ok snap)
      obtain r' d where d: "compact_log_before (d_redb D) (snap_index snap) (rm_database m) = (r', d)" by force
      have "rm_database m' = d"
        using p Ok d by (cases r') (auto simp: perform_log_compaction_def with_database_def)
      then show ?thesis using kept [OF Ok d big] by simp
    qed (use p in \<open>simp_all add: perform_log_compaction_def\<close>)
  next
    case False
    then have "m' = m"
      using assms(3) by (simp add: check_and_trigger_log_compaction_def Let_def split: if_splits)
    then show ?thesis by simp
  qed
qed

text \<open>A message that the library rejects ends the main loop, whatever is waiting behind it.\<close>

lemma rejected_message_stops_loop:
  assumes "rn_step (d_node D) (rm_database m) (msg\<lparr>msg_from := from\<rparr>) (rm_raft_node m) = (False, n)"
  shows "run_main_loop D (Receive E from msg # events) m = (Err (Raft ''step message''), m\<lparr>rm_raft_node := n\<rparr>)"
  using assms by (simp add: handle_raft_message_def db_seq_def)

section \<open>Witnesses\<close>

text \<open>
  A node of the Raft library that holds at most one ready: stepping a message produces the ready
  \<open>sample_ready\<close>, with an entry to store, a message to send and a committed entry that sets the
  status of worker 3.
\<close>

definition sample_ready :: "unit ready" where
  "sample_ready =
     \<lparr>rd_entries = [sample_entry 5], rd_hs = Some \<lparr>hs_term = 3, hs_vote = 1, hs_commit = 5\<rparr>,
      rd_snapshot = sample_snapshot, rd_messages = [\<lparr>msg_from = 0, msg_to = 2, msg_payload = ()\<rparr>],
      rd_persisted_messages = [], rd_committed_entries = [(sample_entry 1)\<lparr>entry_data := [0]\<rparr>]\<rparr>"

definition sample_node :: "(mem_db, unit ready option, unit) raw_node" where
  "sample_node =
     \<lparr>rn_has_ready = (\<lambda>n. n \<noteq> None), rn_ready = (\<lambda>d n. (the n, None)),
      rn_advance = (\<lambda>d rd n. (\<lparr>lr_messages = [], lr_commit_index = None\<rparr>, n)),
      rn_advance_apply_to = (\<lambda>i n. n), rn_tick = (\<lambda>d n. n), rn_step = (\<lambda>d msg n. (True, Some sample_ready)),
      rn_propose = (\<lambda>d c b n. (True, n)), rn_propose_conf_change = (\<lambda>d c cc n. (True, n)),
      rn_campaign = (\<lambda>d n. n),
      rn_apply_conf_change = (\<lambda>d cc n. (Some (conf_state_default\<lparr>voters := [1, cc_node_id cc]\<rparr>), n)),
      rn_hard_state = (\<lambda>n. hard_state_default), rn_role = (\<lambda>n. Leader), rn_leader_id = (\<lambda>n. 1),
      rn_term = (\<lambda>n. 3), rn_applied = (\<lambda>n. 1200), rn_committed = (\<lambda>n. 1200)\<rparr>"

definition sample_deps :: "(mem_db, mem_db, mem_db, unit ready option, unit) raft_deps" where
  "sample_deps =
     \<lparr>d_redb = mem_redb, d_codec = sample_codec, d_snapshot = once_serde empty_snapshot,
      d_context = no_serde, d_conf_state = once_serde (conf_state_default\<lparr>voters := [1, 2]\<rparr>),
      d_node = sample_node, d_parse = (\<lambda>b. None), d_connector = False, d_node_id_ok = (\<lambda>s. True),
      d_socket_ok = (\<lambda>s. True)\<rparr>"

definition sample_raft_manager :: "unit ready option \<Rightarrow> (mem_db, unit ready option, unit, nat) raft_manager" where
  "sample_raft_manager n =
     \<lparr>rm_node_id = 1, rm_raft_node = n, rm_machine = sample_state_machine, rm_peers = Map.empty,
      rm_members = Map.empty, rm_needs_replication = False, rm_last_compaction = Some 1000,
      rm_pending = Map.empty, rm_responses = [], rm_outgoing = [], rm_channel_open = True,
      rm_status = None, rm_join_addr = None\<rparr>"

lemma sample_deps_simps [simp]:
  "d_redb sample_deps = mem_redb" "d_codec sample_deps = sample_codec" "d_node sample_deps = sample_node"
  by (simp_all add: sample_deps_def)

lemma sample_manager_simps [simp]:
  "rm_machine (sample_raft_manager n) = sample_state_machine" "rm_raft_node (sample_raft_manager n) = n"
  "rm_pending (sample_raft_manager n) = Map.empty" "rm_responses (sample_raft_manager n) = []"
  "rm_outgoing (sample_raft_manager n) = []"
  by (simp_all add: sample_raft_manager_def)

lemma sample_ready_simps [simp]:
  "rd_entries sample_ready = [sample_entry 5]"
  "rd_hs sample_ready = Some \<lparr>hs_term = 3, hs_vote = 1, hs_commit = 5\<rparr>"
  "snap_index (rd_snapshot sample_ready) = 0"
  "rd_committed_entries sample_ready = [(sample_entry 1)\<lparr>entry_data := [0]\<rparr>]"
  "entry_type (sample_entry i) = 0" "entry_index (sample_entry i) = i" "entry_context (sample_entry i) = []"
  by (simp_all add: sample_ready_def sample_snapshot_def sample_entry_def)

lemma sample_ready_of [simp]:
  "rn_ready sample_node d (Some rd) = (rd, None)" "rn_has_ready sample_node (Some rd)"
  by (simp_all add: sample_node_def)

lemma sample_store_entries:
  "\<exists>d'. save_entries_to_storage mem_redb sample_ready d = (Ok (), d')"
  by (simp add: save_entries_to_storage_def append_entries_def)

lemma sample_store_hard_state: "\<exists>d'. save_hard_state_of mem_redb sample_ready d = (Ok (), d')"
  by (simp add: save_hard_state_of_def save_hard_state_def)

lemma sample_persist: "\<exists>d'. persist_ready sample_deps sample_ready d = (Ok (), d')"
  using sample_store_entries [of d] sample_store_hard_state
  by (auto simp: persist_ready_def process_snapshot_if_present_def db_seq_def split: prod.split)

lemma sample_finish: "fst (finish_ready sample_deps (\<lambda>_. sample_sm_env NoRuntime) sample_ready m) = Ok ()"
  if "rm_last_compaction m = Some 1000"
proof -
  have send: "rm_last_compaction (fold send_raft_message msgs x) = rm_last_compaction x"
    for msgs and x :: "(mem_db, unit ready option, unit, 'p) raft_manager"
    by (induction msgs arbitrary: x) (simp_all add: send_raft_message_def Let_def)
  show ?thesis
    using that
    by (simp add: finish_ready_def Let_def process_entry_def process_normal_entry_def db_seq_def respond_def
        sample_worker_status [unfolded sample_apply_def] advance_raft_node_def sample_node_def
        handle_newly_committed_entries_def check_and_trigger_log_compaction_def send)
qed

theorem ready_stored_before_sent_witness:
  "\<exists>stored. finish_ready sample_deps (\<lambda>_. sample_sm_env NoRuntime) sample_ready stored =
       on_ready sample_deps (\<lambda>_. sample_sm_env NoRuntime) (sample_raft_manager (Some sample_ready)) \<and>
     rm_outgoing stored = [] \<and>
     mem_view (rm_database stored) RAFT_LOG_TABLE (Num 5) = Some (serialize_entry (sample_entry 5))"
proof -
  let ?E = "\<lambda>_. sample_sm_env NoRuntime" and ?m = "sample_raft_manager (Some sample_ready)"
  obtain d' where d': "persist_ready sample_deps sample_ready (sm_database sample_state_machine) = (Ok (), d')"
    using sample_persist by blast
  have "fst (on_ready sample_deps ?E ?m) = Ok ()"
    using sample_finish [of "with_database (?m\<lparr>rm_raft_node := None\<rparr>) d'"]
    by (simp add: on_ready_def on_storage_def d' db_seq_def)
      (simp add: with_database_def sample_raft_manager_def)
  then obtain m' where m': "on_ready sample_deps ?E ?m = (Ok (), m')" by (metis prod.collapse)
  from ready_stored_before_sent [OF _ _ _ _ m', of mem_view mem_view mem_view sample_ready None] mem_redb_ok
  show ?thesis unfolding m' by auto
qed


theorem callers_answered_once_witness:
  "let D = sample_deps; m0 = sample_raft_manager None;
       proposal = \<lparr>rp_id = [9], rp_data = UpdateWorkerStatus 3 Busy, rp_response = Some 7\<rparr>;
       m = snd (handle_event D (Propose (\<lambda>_. sample_sm_env NoRuntime) proposal) m0)
   in distinct (map fst (rm_responses m)) \<and> ran (rm_pending m) \<inter> fst ` set (rm_responses m) = {}"
  unfolding Let_def
  by (rule callers_answered_once [OF reach_step [OF reach_refl]])
    (simp_all add: event_fresh_def caller_fresh_def)


theorem compaction_keeps_unapplied_witness:
  "let (r, m') = check_and_trigger_log_compaction sample_deps
         ((sample_raft_manager None)\<lparr>rm_last_compaction := None\<rparr>)
   in mem_view (rm_database m') RAFT_LOG_TABLE (Num 1200) = mem_view empty_db RAFT_LOG_TABLE (Num 1200)"
proof -
  obtain r m' where m': "check_and_trigger_log_compaction sample_deps
      ((sample_raft_manager None)\<lparr>rm_last_compaction := None\<rparr>) = (r, m')"
    by force
  from compaction_keeps_unapplied [OF _ _ m', of mem_view mem_view mem_view RAFT_LOG_TABLE "Num 1200"]
    mem_redb_ok
  show ?thesis unfolding m' by (simp add: sample_node_def sample_state_machine_def state_machine_new_def)
qed

end
