(* ===== verification/Batch_Processor.thy ===== *)
theory Batch_Processor
  imports Raft_Delivery
begin

text \<open>
  The batch processor (\<open>raft_batch_processor.rs\<close>) between the callers and the Raft manager: it
  collects proposals and forwards them as one proposal of the kind \<open>Batch\<close>. The theory shows that it
  neither loses, duplicates nor reorders proposals, that its batches respect the configured limits,
  and how long a proposal can stay with it. The size of a serialized proposal (bincode), the fresh
  identifiers of batches (uuid) and the readings of the clock are arguments.
\<close>

section \<open>Batches\<close>

record batch_config =
  bc_max_batch_size :: usize
  bc_batch_timeout_ms :: u64
  bc_max_batch_bytes :: usize
  bc_enabled :: bool

definition batch_config_default :: batch_config where
  "batch_config_default =
     \<lparr>bc_max_batch_size = 100, bc_batch_timeout_ms = 10, bc_max_batch_bytes = 1024 * 1024,
      bc_enabled = True\<rparr>"

record 'p proposal_batch =
  pb_proposals :: "'p raft_proposal list"
  pb_total_size :: usize
  pb_created_at :: time

definition proposal_batch_new :: "time \<Rightarrow> 'p proposal_batch" where
  "proposal_batch_new now = \<lparr>pb_proposals = [], pb_total_size = 0, pb_created_at = now\<rparr>"

definition proposal_batch_add :: "'p raft_proposal \<Rightarrow> usize \<Rightarrow> 'p proposal_batch \<Rightarrow> 'p proposal_batch" where
  "proposal_batch_add proposal size_of b =
     b\<lparr>pb_proposals := pb_proposals b @ [proposal], pb_total_size := pb_total_size b + size_of\<rparr>"

text \<open>\<open>Instant::elapsed\<close> is never negative.\<close>

definition batch_age :: "time \<Rightarrow> 'p proposal_batch \<Rightarrow> time" where
  "batch_age now b = (if now < pb_created_at b then 0 else now - pb_created_at b)"

text \<open>
  The channel on which the answer to a forwarded proposal is awaited: the caller's own one, or the one
  of the task that distributes the answer of a batch to the callers in it.
\<close>

datatype 'p batch_caller = Direct 'p | Fanout "(blob \<times> 'p) list"

text \<open>The task of \<open>create_batched_proposal\<close>; no answer means that the channel has been dropped.\<close>

definition distribute :: "(blob \<times> 'p) list \<Rightarrow> unit outcome option \<Rightarrow> ('p \<times> unit outcome) list" where
  "distribute channels r =
     (case r of
        Some (Ok _) \<Rightarrow> map (\<lambda>(_, p). (p, Ok ())) channels
      | Some (Err e) \<Rightarrow> map (\<lambda>(_, p). (p, Err (Internal ''Batch proposal failed''))) channels
      | _ \<Rightarrow> map (\<lambda>(_, p). (p, Err (Internal ''Batch response channel dropped''))) channels)"

definition response_channels :: "'p raft_proposal list \<Rightarrow> (blob \<times> 'p) list" where
  "response_channels ps =
     List.map_filter (\<lambda>p. map_option (\<lambda>tx. (rp_id p, tx)) (rp_response p)) ps"

definition create_batched_proposal ::
  "blob \<Rightarrow> 'p proposal_batch \<Rightarrow> 'p batch_caller raft_proposal" where
  "create_batched_proposal batch_id b =
     \<lparr>rp_id = batch_id, rp_data = Batch (map rp_data (pb_proposals b)),
      rp_response = Some (Fanout (response_channels (pb_proposals b)))\<rparr>"

definition direct_proposal :: "'p raft_proposal \<Rightarrow> 'p batch_caller raft_proposal" where
  "direct_proposal p =
     \<lparr>rp_id = rp_id p, rp_data = rp_data p, rp_response = map_option Direct (rp_response p)\<rparr>"

section \<open>The processor\<close>

text \<open>\<open>bp_sent\<close> lists the proposals handed to the channel of the manager, which may be closed.\<close>

record 'p batch_processor =
  bp_config :: batch_config
  bp_current :: "'p proposal_batch"
  bp_sent :: "'p batch_caller raft_proposal list"
  bp_open :: bool

definition batch_processor_new :: "batch_config \<Rightarrow> time \<Rightarrow> 'p batch_processor" where
  "batch_processor_new config now =
     \<lparr>bp_config = config, bp_current = proposal_batch_new now, bp_sent = [], bp_open = True\<rparr>"

definition forward ::
  "string \<Rightarrow> 'p batch_caller raft_proposal \<Rightarrow> 'p batch_processor \<Rightarrow> unit outcome \<times> 'p batch_processor" where
  "forward message q bp =
     (if bp_open bp then (Ok (), bp\<lparr>bp_sent := bp_sent bp @ [q]\<rparr>) else (Err (Internal message), bp))"

definition flush_specific_batch ::
  "blob \<Rightarrow> 'p proposal_batch \<Rightarrow> 'p batch_processor \<Rightarrow> unit outcome \<times> 'p batch_processor" where
  "flush_specific_batch batch_id b bp =
     (case pb_proposals b of
        [] \<Rightarrow> (Ok (), bp)
      | [proposal] \<Rightarrow> forward ''Failed to send proposal'' (direct_proposal proposal) bp
      | _ \<Rightarrow> forward ''Failed to send batched proposal'' (create_batched_proposal batch_id b) bp)"

definition flush_batch ::
  "time \<Rightarrow> blob \<Rightarrow> 'p batch_processor \<Rightarrow> unit outcome \<times> 'p batch_processor" where
  "flush_batch now batch_id bp =
     (if pb_proposals (bp_current bp) = [] then (Ok (), bp)
      else flush_specific_batch batch_id (bp_current bp) (bp\<lparr>bp_current := proposal_batch_new now\<rparr>))"

definition check_and_flush_batch ::
  "time \<Rightarrow> blob \<Rightarrow> 'p batch_processor \<Rightarrow> unit outcome \<times> 'p batch_processor" where
  "check_and_flush_batch now batch_id bp =
     (if pb_proposals (bp_current bp) \<noteq> [] \<and>
         int (unat (bc_batch_timeout_ms (bp_config bp))) * 1000000 \<le> batch_age now (bp_current bp)
      then flush_batch now batch_id bp else (Ok (), bp))"

definition estimate_proposal_size ::
  "(proposal_data \<Rightarrow> u64 option) \<Rightarrow> 'p raft_proposal \<Rightarrow> usize outcome" where
  "estimate_proposal_size serialized_size proposal =
     (case serialized_size (rp_data proposal) of
        None \<Rightarrow> Err (Serialization ''estimate proposal size'')
      | Some n \<Rightarrow> Ok (n + of_nat (length (rp_id proposal)) + 64))"

definition add_to_batch ::
  "(proposal_data \<Rightarrow> u64 option) \<Rightarrow> time \<Rightarrow> blob \<Rightarrow> 'p raft_proposal \<Rightarrow> 'p batch_processor \<Rightarrow>
     unit outcome \<times> 'p batch_processor" where
  "add_to_batch serialized_size now batch_id proposal bp =
     (case estimate_proposal_size serialized_size proposal of
        Ok n \<Rightarrow>
          let b = bp_current bp; max_size = unat (bc_max_batch_size (bp_config bp));
              max_bytes = bc_max_batch_bytes (bp_config bp)
          in if pb_proposals b \<noteq> [] \<and>
                (max_size \<le> length (pb_proposals b) \<or> pb_total_size b + n > max_bytes)
             then db_seq (flush_specific_batch batch_id b (bp\<lparr>bp_current := proposal_batch_new now\<rparr>)) (\<lambda>bp.
                    (Ok (), bp\<lparr>bp_current := proposal_batch_add proposal n (bp_current bp)\<rparr>))
             else
               let b = proposal_batch_add proposal n b
               in if max_size \<le> length (pb_proposals b) \<or> max_bytes \<le> pb_total_size b
                  then flush_specific_batch batch_id b (bp\<lparr>bp_current := proposal_batch_new now\<rparr>)
                  else (Ok (), bp\<lparr>bp_current := b\<rparr>)
      | Err e \<Rightarrow> (Err e, bp)
      | Panics \<Rightarrow> (Panics, bp)
      | Blocks \<Rightarrow> (Blocks, bp))"

text \<open>
  One turn of the loop of \<open>run\<close>. An error is logged and the loop goes on. The branch that flushes the
  last batch and leaves the loop is taken when no other branch can be, and the timer always can, so
  the loop never ends.
\<close>

datatype 'p batch_event = Submitted time blob "'p raft_proposal" | Flush_tick time blob

fun batch_step ::
  "(proposal_data \<Rightarrow> u64 option) \<Rightarrow> 'p batch_processor \<Rightarrow> 'p batch_event \<Rightarrow> 'p batch_processor" where
  "batch_step serialized_size bp (Submitted now batch_id proposal) =
     (if bc_enabled (bp_config bp) then snd (add_to_batch serialized_size now batch_id proposal bp)
      else snd (forward ''Failed to forward proposal'' (direct_proposal proposal) bp))"
| "batch_step serialized_size bp (Flush_tick now batch_id) =
     (if bc_enabled (bp_config bp) then snd (check_and_flush_batch now batch_id bp) else bp)"

text \<open>
  \<open>run\<close> on a sequence of turns. With batching enabled the timer is created first, and the \<open>interval\<close> of
  tokio panics when its period is zero.
\<close>

definition batch_processor_run ::
  "(proposal_data \<Rightarrow> u64 option) \<Rightarrow> 'p batch_event list \<Rightarrow> 'p batch_processor \<Rightarrow> 'p batch_processor outcome" where
  "batch_processor_run serialized_size es bp =
     (if bc_enabled (bp_config bp) \<and> bc_batch_timeout_ms (bp_config bp) = 0 then Panics
      else Ok (run (batch_step serialized_size) bp es))"

section \<open>What a forwarded proposal carries\<close>

fun carried :: "'p batch_caller raft_proposal \<Rightarrow> proposal_data list" where
  "carried q = (case (rp_response q, rp_data q) of (Some (Fanout _), Batch ps) \<Rightarrow> ps | (_, d) \<Rightarrow> [d])"

fun waiting :: "'p batch_caller raft_proposal \<Rightarrow> 'p list" where
  "waiting q = (case rp_response q of None \<Rightarrow> [] | Some (Direct p) \<Rightarrow> [p] | Some (Fanout cs) \<Rightarrow> map snd cs)"

fun submitted :: "'p batch_event \<Rightarrow> 'p raft_proposal list" where
  "submitted (Submitted _ _ p) = [p]"
| "submitted (Flush_tick _ _) = []"

fun callers :: "'p raft_proposal list \<Rightarrow> 'p list" where
  "callers ps = List.map_filter rp_response ps"

text \<open>Everything the processor has taken in, in order: what it has forwarded, then what it holds.\<close>

definition all_data :: "'p batch_processor \<Rightarrow> proposal_data list" where
  "all_data bp = concat (map carried (bp_sent bp)) @ map rp_data (pb_proposals (bp_current bp))"

definition all_callers :: "'p batch_processor \<Rightarrow> 'p list" where
  "all_callers bp = concat (map waiting (bp_sent bp)) @ callers (pb_proposals (bp_current bp))"

lemma carried_direct [simp]: "carried (direct_proposal p) = [rp_data p]"
  by (cases "rp_response p") (auto simp: direct_proposal_def split: proposal_data.split)

lemma carried_batch [simp]: "carried (create_batched_proposal i b) = map rp_data (pb_proposals b)"
  by (simp add: create_batched_proposal_def)

lemma waiting_direct [simp]: "waiting (direct_proposal p) = callers [p]"
  by (simp add: direct_proposal_def List.map_filter_simps split: option.split)

lemma map_snd_channels [simp]: "map snd (response_channels ps) = callers ps"
  by (induction ps) (auto simp: response_channels_def List.map_filter_simps split: option.split)

lemma waiting_batch [simp]: "waiting (create_batched_proposal i b) = callers (pb_proposals b)"
  by (simp add: create_batched_proposal_def del: callers.simps)

lemma callers_append: "callers (ps @ qs) = callers ps @ callers qs"
  by (simp add: List.map_filter_def)

declare carried.simps [simp del] waiting.simps [simp del] callers.simps [simp del]


section \<open>Flushing\<close>

text \<open>What flushing a batch hands to an open channel.\<close>

definition parcels :: "blob \<Rightarrow> 'p proposal_batch \<Rightarrow> 'p batch_caller raft_proposal list" where
  "parcels batch_id b =
     (case pb_proposals b of
        [] \<Rightarrow> [] | [proposal] \<Rightarrow> [direct_proposal proposal] | _ \<Rightarrow> [create_batched_proposal batch_id b])"

lemma flush_parcels:
  "bp_open bp \<Longrightarrow> flush_specific_batch i b bp = (Ok (), bp\<lparr>bp_sent := bp_sent bp @ parcels i b\<rparr>)"
  by (auto simp: flush_specific_batch_def parcels_def forward_def split: list.split)

lemma carried_parcels [simp]: "concat (map carried (parcels i b)) = map rp_data (pb_proposals b)"
  by (auto simp: parcels_def split: list.split)

lemma waiting_parcels [simp]: "concat (map waiting (parcels i b)) = callers (pb_proposals b)"
  by (auto simp: parcels_def callers.simps List.map_filter_simps split: list.split)

lemma proposal_batch_new_fields [simp]:
  "pb_proposals (proposal_batch_new now) = []" "pb_total_size (proposal_batch_new now) = 0" "pb_created_at (proposal_batch_new now) = now"
  by (simp_all add: proposal_batch_new_def)

lemma proposal_batch_add_fields [simp]:
  "pb_proposals (proposal_batch_add p n b) = pb_proposals b @ [p]"
  "pb_total_size (proposal_batch_add p n b) = pb_total_size b + n"
  "pb_created_at (proposal_batch_add p n b) = pb_created_at b"
  by (simp_all add: proposal_batch_add_def)

definition measured :: "(proposal_data \<Rightarrow> u64 option) \<Rightarrow> 'p batch_event \<Rightarrow> bool" where
  "measured serialized_size e \<longleftrightarrow> (\<forall>p \<in> set (submitted e). serialized_size (rp_data p) \<noteq> None)"

text \<open>What a step of an open processor that batches does.\<close>

lemma submit_step:
  assumes "bp_open bp" and "bc_enabled (bp_config bp)" and "estimate_proposal_size ss p = Ok n"
  shows "batch_step ss bp (Submitted now i p) =
    (if pb_proposals (bp_current bp) \<noteq> [] \<and>
        (unat (bc_max_batch_size (bp_config bp)) \<le> length (pb_proposals (bp_current bp)) \<or>
         pb_total_size (bp_current bp) + n > bc_max_batch_bytes (bp_config bp))
     then bp\<lparr>bp_current := proposal_batch_add p n (proposal_batch_new now),
             bp_sent := bp_sent bp @ parcels i (bp_current bp)\<rparr>
     else if unat (bc_max_batch_size (bp_config bp)) \<le> length (pb_proposals (bp_current bp)) + 1 \<or>
             bc_max_batch_bytes (bp_config bp) \<le> pb_total_size (bp_current bp) + n
     then bp\<lparr>bp_current := proposal_batch_new now,
             bp_sent := bp_sent bp @ parcels i (proposal_batch_add p n (bp_current bp))\<rparr>
     else bp\<lparr>bp_current := proposal_batch_add p n (bp_current bp)\<rparr>)"
  using assms by (simp add: add_to_batch_def Let_def flush_parcels db_seq_def)

lemma tick_step:
  assumes "bp_open bp" and "bc_enabled (bp_config bp)"
  shows "batch_step ss bp (Flush_tick now i) =
    (if pb_proposals (bp_current bp) \<noteq> [] \<and>
        int (unat (bc_batch_timeout_ms (bp_config bp))) * 1000000 \<le> batch_age now (bp_current bp)
     then bp\<lparr>bp_current := proposal_batch_new now, bp_sent := bp_sent bp @ parcels i (bp_current bp)\<rparr>
     else bp)"
  using assms by (simp add: check_and_flush_batch_def flush_batch_def flush_parcels)

lemma measured_size:
  "measured ss (Submitted now i p) \<Longrightarrow> \<exists>n. estimate_proposal_size ss p = Ok n"
  by (auto simp: measured_def estimate_proposal_size_def)

lemma flush_kept [simp]:
  "bp_config (snd (flush_specific_batch i b bp)) = bp_config bp"
  "bp_open (snd (flush_specific_batch i b bp)) = bp_open bp"
  by (simp_all add: flush_specific_batch_def forward_def split: list.split)

lemma add_kept:
  "bp_config (snd (add_to_batch ss now i p bp)) = bp_config bp \<and> bp_open (snd (add_to_batch ss now i p bp)) = bp_open bp"
proof (cases "estimate_proposal_size ss p")
  case (Ok n)
  let ?x = "flush_specific_batch i (bp_current bp) (bp\<lparr>bp_current := proposal_batch_new now\<rparr>)"
  have "bp_config (snd (db_seq ?x (\<lambda>bp. (Ok (), bp\<lparr>bp_current := h bp\<rparr>)))) = bp_config bp \<and>
      bp_open (snd (db_seq ?x (\<lambda>bp. (Ok (), bp\<lparr>bp_current := h bp\<rparr>)))) = bp_open bp" for h
    by (rule db_seq_snd [where P = "\<lambda>x. bp_config x = bp_config bp \<and> bp_open x = bp_open bp"]) simp_all
  with Ok show ?thesis by (simp add: add_to_batch_def Let_def)
qed (simp_all add: add_to_batch_def)

lemma batch_step_kept [simp]:
  "bp_config (batch_step ss bp e) = bp_config bp" "bp_open (batch_step ss bp e) = bp_open bp"
  by (cases e; simp add: add_kept check_and_flush_batch_def flush_batch_def forward_def)+


section \<open>Nothing lost, nothing reordered\<close>

definition batching :: "'p batch_processor \<Rightarrow> bool" where
  "batching bp \<longleftrightarrow> bp_open bp \<and> (bc_enabled (bp_config bp) \<or> pb_proposals (bp_current bp) = [])"

lemma callers_nil [simp]: "callers [] = []"
  by (simp add: callers.simps List.map_filter_simps)

lemma batching_step:
  assumes "batching bp"
  shows "batching (batch_step ss bp e)"
proof (cases "bc_enabled (bp_config bp)")
  case True
  with assms show ?thesis by (simp add: batching_def del: batch_step.simps)
next
  case False
  with assms show ?thesis by (cases e) (simp_all add: batching_def forward_def)
qed

lemma batch_step_order:
  assumes "batching bp" and "measured ss e"
  shows "all_data (batch_step ss bp e) = all_data bp @ map rp_data (submitted e) \<and>
         all_callers (batch_step ss bp e) = all_callers bp @ callers (submitted e)"
proof (cases "bc_enabled (bp_config bp)")
  case False
  with assms(1) show ?thesis
    by (cases e) (auto simp: batching_def all_data_def all_callers_def forward_def)
next
  case True
  show ?thesis
  proof (cases e)
    case (Submitted now i p)
    then obtain n where "estimate_proposal_size ss p = Ok n"
      using assms(2) measured_size by blast
    with True assms(1) show ?thesis
      unfolding Submitted by (simp add: batching_def submit_step all_data_def all_callers_def callers_append
          del: batch_step.simps)
  next
    case (Flush_tick now i)
    with True assms(1) show ?thesis
      unfolding Flush_tick by (simp add: batching_def tick_step all_data_def all_callers_def
          del: batch_step.simps)
  qed
qed

lemma batch_run_order:
  assumes "batching bp" and "list_all (measured ss) es"
  shows "all_data (run (batch_step ss) bp es) = all_data bp @ map rp_data (concat (map submitted es)) \<and>
         all_callers (run (batch_step ss) bp es) = all_callers bp @ callers (concat (map submitted es))"
  using assms
proof (induction es arbitrary: bp)
  case (Cons e es)
  then have "all_data (run (batch_step ss) (batch_step ss bp e) es) =
      all_data (batch_step ss bp e) @ map rp_data (concat (map submitted es)) \<and>
      all_callers (run (batch_step ss) (batch_step ss bp e) es) =
      all_callers (batch_step ss bp e) @ callers (concat (map submitted es))"
    by (simp add: batching_step)
  with batch_step_order [of bp ss e] Cons.prems show ?case by (simp add: callers_append)
qed simp

section \<open>Limits\<close>

text \<open>The estimate without wrap-around, and the proposals for which it is the one the code computes.\<close>

definition estimate :: "(proposal_data \<Rightarrow> u64 option) \<Rightarrow> 'p raft_proposal \<Rightarrow> nat" where
  "estimate ss p = unat (the (ss (rp_data p))) + length (rp_id p) + 64"

definition sizeable :: "(proposal_data \<Rightarrow> u64 option) \<Rightarrow> 'p batch_event \<Rightarrow> bool" where
  "sizeable ss e \<longleftrightarrow> measured ss e \<and> (\<forall>p \<in> set (submitted e). estimate ss p < 2 ^ 63)"

definition within_limits ::
  "(proposal_data \<Rightarrow> u64 option) \<Rightarrow> batch_config \<Rightarrow> 'p batch_caller raft_proposal \<Rightarrow> bool" where
  "within_limits ss config q \<longleftrightarrow>
     length (carried q) = 1 \<or>
     length (carried q) \<le> unat (bc_max_batch_size config) \<and>
     (\<Sum>d \<leftarrow> carried q. unat (the (ss d))) \<le> unat (bc_max_batch_bytes config)"

definition limits_kept :: "(proposal_data \<Rightarrow> u64 option) \<Rightarrow> 'p batch_processor \<Rightarrow> bool" where
  "limits_kept ss bp \<longleftrightarrow>
     (let b = bp_current bp; ps = pb_proposals b; config = bp_config bp
      in bp_open bp \<and> bc_enabled config \<and> unat (bc_max_batch_bytes config) \<le> 2 ^ 63 \<and>
         unat (pb_total_size b) = sum_list (map (estimate ss) ps) \<and>
         (length ps \<le> 1 \<or> pb_total_size b \<le> bc_max_batch_bytes config) \<and>
         (ps = [] \<or> length ps < unat (bc_max_batch_size config)) \<and>
         (\<forall>p \<in> set ps. estimate ss p < 2 ^ 63) \<and>
         (\<forall>q \<in> set (bp_sent bp). within_limits ss config q))"

lemma estimate_exact:
  assumes "measured ss (Submitted now i p)" and "estimate ss p < 2 ^ 63"
  obtains n where "estimate_proposal_size ss p = Ok n" "unat n = estimate ss p"
proof
  obtain m where m: "ss (rp_data p) = Some m" using assms(1) by (auto simp: measured_def)
  have "m + of_nat (length (rp_id p)) + 64 = of_nat (estimate ss p)"
    by (simp add: estimate_def m)
  with m show "estimate_proposal_size ss p = Ok (of_nat (estimate ss p))"
    by (simp add: estimate_proposal_size_def)
  show "unat (of_nat (estimate ss p) :: usize) = estimate ss p"
    using assms(2) by (simp add: unat_of_nat)
qed

lemma parcels_within:
  assumes "length (pb_proposals b) \<le> 1 \<or>
    length (pb_proposals b) \<le> unat (bc_max_batch_size config) \<and>
    sum_list (map (estimate ss) (pb_proposals b)) \<le> unat (bc_max_batch_bytes config)"
  shows "\<forall>q \<in> set (parcels i b). within_limits ss config q"
proof -
  have "(\<Sum>d \<leftarrow> map rp_data ps. unat (the (ss d))) \<le> sum_list (map (estimate ss) ps)"
    for ps :: "'a raft_proposal list"
    by (induction ps) (auto simp: estimate_def)
  note bytes = this [of "pb_proposals b"]
  have "\<forall>q \<in> set (parcels i b). carried q = map rp_data (pb_proposals b)"
    by (cases "pb_proposals b" rule: remdups_adj.cases) (simp_all add: parcels_def)
  moreover have "within_limits ss config q" if "carried q = map rp_data (pb_proposals b)"
    "pb_proposals b \<noteq> []" for q :: "'b batch_caller raft_proposal"
    using assms bytes that by (cases "pb_proposals b") (auto simp: within_limits_def)
  moreover have "parcels i b = []" if "pb_proposals b = []" using that by (simp add: parcels_def)
  ultimately show ?thesis by (cases "pb_proposals b = []") auto
qed

lemma limits_step:
  assumes "limits_kept ss bp" and "sizeable ss e"
  shows "limits_kept ss (batch_step ss bp e)"
proof -
  let ?b = "bp_current bp" and ?c = "bp_config bp"
  have op: "bp_open bp" "bc_enabled ?c" using assms(1) by (simp_all add: limits_kept_def Let_def)
  have total: "unat (pb_total_size ?b) = sum_list (map (estimate ss) (pb_proposals ?b))"
    and bytes: "unat (bc_max_batch_bytes ?c) \<le> 2 ^ 63"
    using assms(1) by (simp_all add: limits_kept_def Let_def)
  have now: "\<forall>q \<in> set (parcels i ?b). within_limits ss ?c q" for i
    using assms(1) by (intro parcels_within) (auto simp: limits_kept_def Let_def word_le_nat_alt)
  show ?thesis
  proof (cases e)
    case (Submitted t i p)
    have small: "estimate ss p < 2 ^ 63" using assms(2) by (simp add: Submitted sizeable_def)
    then obtain n where n: "estimate_proposal_size ss p = Ok n" "unat n = estimate ss p"
      using assms(2) estimate_exact unfolding Submitted sizeable_def by blast
    have "unat (pb_total_size ?b) \<le> 2 ^ 63"
      using assms(1) total bytes
      by (cases "pb_proposals ?b") (auto simp: limits_kept_def Let_def word_le_nat_alt)
    then have sum: "unat (pb_total_size ?b + n) = unat (pb_total_size ?b) + estimate ss p"
      using small n(2) by (subst unat_add_lem [THEN iffD1]) simp_all
    have new: "\<forall>q \<in> set (parcels i (proposal_batch_add p n ?b)). within_limits ss ?c q"
      if "\<not> (pb_proposals ?b \<noteq> [] \<and> (unat (bc_max_batch_size ?c) \<le> length (pb_proposals ?b) \<or>
         pb_total_size ?b + n > bc_max_batch_bytes ?c))"
      using that total by (intro parcels_within) (auto simp: sum word_less_nat_alt)
    let ?full = "pb_proposals ?b \<noteq> [] \<and> (unat (bc_max_batch_size ?c) \<le> length (pb_proposals ?b) \<or>
         pb_total_size ?b + n > bc_max_batch_bytes ?c)"
    let ?filled = "unat (bc_max_batch_size ?c) \<le> length (pb_proposals ?b) + 1 \<or>
         bc_max_batch_bytes ?c \<le> pb_total_size ?b + n"
    note inv = assms(1) [unfolded limits_kept_def Let_def]
    consider ?full | "\<not> ?full" ?filled | "\<not> ?full" "\<not> ?filled" by argo
    then show ?thesis
    proof cases
      case 1
      from inv 1 have "1 < unat (bc_max_batch_size ?c)" by (cases "pb_proposals ?b") auto
      then show ?thesis
        unfolding Submitted submit_step [OF op n(1)] if_P [OF 1]
        using inv small now [of i] n(2) by (simp add: limits_kept_def Let_def ball_Un)
    next
      case 2
      show ?thesis
        unfolding Submitted submit_step [OF op n(1)] if_not_P [OF 2(1)] if_P [OF 2(2)]
        using inv new [OF 2(1)] by (simp add: limits_kept_def Let_def ball_Un)
    next
      case 3
      from 3(2) have "length (pb_proposals ?b) + 1 < unat (bc_max_batch_size ?c)"
        "pb_total_size ?b + n \<le> bc_max_batch_bytes ?c" by auto
      then show ?thesis
        unfolding Submitted submit_step [OF op n(1)] if_not_P [OF 3(1)] if_not_P [OF 3(2)]
        using inv small sum by (simp add: limits_kept_def Let_def)
    qed
  next
    case (Flush_tick t i)
    show ?thesis
      unfolding Flush_tick tick_step [OF op]
      using assms(1) now by (auto simp: limits_kept_def Let_def)
  qed
qed

interpretation batcher: event_machine "batch_step ss" "\<lambda>_. sizeable ss" "limits_kept ss"
  for ss :: "proposal_data \<Rightarrow> u64 option"
  by unfold_locales (rule limits_step)

section \<open>Latency\<close>

fun event_time :: "'p batch_event \<Rightarrow> time" where
  "event_time (Submitted now _ _) = now"
| "event_time (Flush_tick now _) = now"

lemma created_step:
  assumes "bp_open bp" and "bc_enabled (bp_config bp)" and "measured ss e"
  shows "pb_created_at (bp_current (batch_step ss bp e)) = pb_created_at (bp_current bp) \<and>
           length (pb_proposals (bp_current (batch_step ss bp e))) \<le>
             length (pb_proposals (bp_current bp)) + length (submitted e) \<or>
         pb_created_at (bp_current (batch_step ss bp e)) = event_time e \<and>
           length (pb_proposals (bp_current (batch_step ss bp e))) \<le> length (submitted e)"
proof (cases e)
  case (Submitted now i p)
  then obtain n where "estimate_proposal_size ss p = Ok n"
    using assms(3) measured_size by blast
  then show ?thesis
    unfolding Submitted by (simp add: submit_step assms(1,2) del: batch_step.simps)
next
  case (Flush_tick now i)
  show ?thesis
    unfolding Flush_tick by (simp add: tick_step assms(1,2) del: batch_step.simps)
qed

lemma created_early:
  assumes "bp_open bp" and "bc_enabled (bp_config bp)" and "list_all (measured ss) es"
    and "pb_created_at (bp_current bp) \<le> t" and "\<forall>e \<in> set es. event_time e \<le> t"
  shows "pb_created_at (bp_current (run (batch_step ss) bp es)) \<le> t"
  using assms
proof (induction es arbitrary: bp)
  case (Cons e es)
  then have "pb_created_at (bp_current (batch_step ss bp e)) \<le> t"
    using created_step [of bp ss e] by fastforce
  with Cons show ?case by (simp del: batch_step.simps)
qed simp

lemma held_recent:
  assumes "bp_open bp" and "bc_enabled (bp_config bp)" and "list_all (measured ss) es"
    and "pb_created_at (bp_current bp) \<le> t \<or> length (pb_proposals (bp_current bp)) \<le> k"
  shows "pb_created_at (bp_current (run (batch_step ss) bp es)) \<le> t \<or>
         length (pb_proposals (bp_current (run (batch_step ss) bp es))) \<le> k + length (concat (map submitted es))"
  using assms
proof (induction es arbitrary: bp k)
  case (Cons e es)
  let ?bp = "batch_step ss bp e"
  have "pb_created_at (bp_current ?bp) \<le> t \<or>
      length (pb_proposals (bp_current ?bp)) \<le> k + length (submitted e)"
    using created_step [of bp ss e] Cons.prems by fastforce
  from Cons.IH [OF _ _ _ this] Cons.prems show ?case by (simp add: add.assoc del: batch_step.simps)
qed simp

lemma run_kept [simp]:
  "bp_config (run (batch_step ss) bp es) = bp_config bp" "bp_open (run (batch_step ss) bp es) = bp_open bp"
  by (induction es arbitrary: bp) (simp_all del: batch_step.simps)

lemma new_processor [simp]:
  "bp_config (batch_processor_new config t) = config" "bp_open (batch_processor_new config t)"
  "bp_current (batch_processor_new config t) = proposal_batch_new t"
  "bp_sent (batch_processor_new config t) = []"
  by (simp_all add: batch_processor_new_def)

lemma batching_new [simp]: "batching (batch_processor_new config t)"
  by (simp add: batching_def)

lemma distribute_callers: "map fst (distribute channels r) = map snd channels"
proof -
  have m: "map fst (map (\<lambda>(_, p). (p, x)) cs) = map snd cs" for x :: "unit outcome" and cs :: "(blob \<times> 'a) list"
    by (induction cs) auto
  show ?thesis
  proof (cases r)
    case (Some o')
    then show ?thesis by (cases o') (simp_all add: distribute_def m del: map_map)
  qed (simp add: distribute_def m del: map_map)
qed

section \<open>Properties\<close>

text \<open>
  C10. The batch processor delivers in order. With batching enabled and a timeout of zero, which nothing
  rejects, its task panics when it creates its timer, and delivers nothing. With every other
  configuration it delivers every proposal it is given exactly once and in the order of submission,
  to the Raft manager or to the batch it is filling, whatever the timing and the limits; the callers
  that wait for an answer are carried along in the same order, and the task that distributes the
  answer of a batch answers each caller in it exactly once. The channel to the manager stays open,
  and the sizes of the proposals can be computed.
\<close>

theorem batches_deliver_in_order:
  assumes "list_all (measured ss) es"
  shows "if bc_enabled config \<and> bc_batch_timeout_ms config = 0
         then batch_processor_run ss es (batch_processor_new config start) = Panics
         else \<exists>bp. batch_processor_run ss es (batch_processor_new config start) = Ok bp \<and>
           (let ps = concat (map submitted es)
            in concat (map carried (bp_sent bp)) @ map rp_data (pb_proposals (bp_current bp)) = map rp_data ps \<and>
               concat (map waiting (bp_sent bp)) @ callers (pb_proposals (bp_current bp)) = callers ps \<and>
               (\<forall>q \<in> set (bp_sent bp). \<forall>channels r. rp_response q = Some (Fanout channels) \<longrightarrow>
                  map fst (distribute channels r) = waiting q))"
proof -
  note distribute_callers [simp]
  show ?thesis
    using batch_run_order [OF batching_new assms, of config start]
    by (simp add: batch_processor_run_def Let_def all_data_def all_callers_def waiting.simps)
qed

text \<open>
  A batch the processor forwards has no more proposals than the configured maximum and no more
  serialized bytes than the configured maximum; only a proposal that is forwarded alone may be
  larger. (The estimated size of each proposal is below 2^63, the byte limit at most 2^63.)
\<close>

theorem batches_within_limits:
  assumes "bc_enabled config" and "unat (bc_max_batch_bytes config) \<le> 2 ^ 63"
    and "reach (batch_step ss) (\<lambda>_. sizeable ss) (batch_processor_new config start) bp"
    and "q \<in> set (bp_sent bp)"
  shows "within_limits ss config q"
proof -
  have "limits_kept ss (batch_processor_new config start :: 'a batch_processor)"
    using assms(1,2) by (simp add: limits_kept_def)
  from batcher.reach_inv [OF assms(3) this] assms(4) have "within_limits ss (bp_config bp) q"
    by (simp add: limits_kept_def Let_def)
  moreover have "bp_config bp = config"
    using assms(3) by (induction rule: reach.induct) (simp_all del: batch_step.simps)
  ultimately show ?thesis by simp
qed

text \<open>
  No proposal stays with the processor for longer than the configured timeout and the wait for
  the next tick of its timer: after a tick at time \<open>t\<close>, every proposal submitted at least the timeout
  before \<open>t\<close> has been forwarded, before all later ones.
\<close>

theorem batch_latency:
  assumes "bc_enabled config" and "list_all (measured ss) (early @ later)"
    and "\<forall>e \<in> set early. event_time e \<le> t - int (unat (bc_batch_timeout_ms config)) * 1000000"
    and "start \<le> t - int (unat (bc_batch_timeout_ms config)) * 1000000"
  shows "\<exists>rest. concat (map carried (bp_sent (run (batch_step ss) (batch_processor_new config start)
           (early @ later @ [Flush_tick t batch_id])))) =
         map rp_data (concat (map submitted early)) @ rest"
proof -
  let ?bp0 = "batch_processor_new config start"
  define bp1 where "bp1 = run (batch_step ss) ?bp0 early"
  define bp2 where "bp2 = run (batch_step ss) bp1 later"
  have kept: "bp_open bp1" "bp_config bp1 = config" "bp_open bp2" "bp_config bp2 = config"
    by (simp_all add: bp1_def bp2_def)
  let ?t = "t - int (unat (bc_batch_timeout_ms config)) * 1000000"
  have "pb_created_at (bp_current bp1) \<le> ?t"
    unfolding bp1_def using assms by (intro created_early) simp_all
  then have recent: "pb_created_at (bp_current bp2) \<le> ?t \<or>
      length (pb_proposals (bp_current bp2)) \<le> 0 + length (concat (map submitted later))"
    unfolding bp2_def using assms(1,2) kept by (intro held_recent) simp_all
  have all: "all_data bp2 = map rp_data (concat (map submitted (early @ later)))"
    using batch_run_order [OF batching_new assms(2), of config start]
    by (simp add: bp2_def bp1_def run_append all_data_def)
  have last: "run (batch_step ss) ?bp0 (early @ later @ [Flush_tick t batch_id]) =
      batch_step ss bp2 (Flush_tick t batch_id)"
    by (simp add: run_append bp1_def bp2_def del: batch_step.simps)
  have tick: "batch_step ss bp2 (Flush_tick t batch_id) =
    (if pb_proposals (bp_current bp2) \<noteq> [] \<and>
        int (unat (bc_batch_timeout_ms config)) * 1000000 \<le> batch_age t (bp_current bp2)
     then bp2\<lparr>bp_current := proposal_batch_new t, bp_sent := bp_sent bp2 @ parcels batch_id (bp_current bp2)\<rparr>
     else bp2)"
    using tick_step [of bp2 ss t batch_id] kept assms(1) by simp
  show ?thesis
  proof (cases "pb_created_at (bp_current bp2) \<le> ?t")
    case True
    moreover have "?t \<le> t" by simp
    ultimately have "pb_created_at (bp_current bp2) \<le> t" by (rule order_trans)
    with True have "int (unat (bc_batch_timeout_ms config)) * 1000000 \<le> batch_age t (bp_current bp2)"
      by (simp add: batch_age_def)
    then have "concat (map carried (bp_sent (batch_step ss bp2 (Flush_tick t batch_id)))) = all_data bp2"
      unfolding tick by (cases "pb_proposals (bp_current bp2)") (simp_all add: all_data_def)
    with all show ?thesis unfolding last by simp
  next
    case False
    let ?early = "map rp_data (concat (map submitted early))"
    let ?sent = "concat (map carried (bp_sent bp2))"
    have whole: "?sent @ map rp_data (pb_proposals (bp_current bp2)) =
        ?early @ map rp_data (concat (map submitted later))"
      using all by (simp add: all_data_def)
    from arg_cong [OF whole, of length] False recent have "length ?early \<le> length ?sent" by simp
    with arg_cong [OF whole, of "take (length ?early)"] have "take (length ?early) ?sent = ?early" by simp
    then obtain rest where "?sent = ?early @ rest" by (metis append_take_drop_id)
    then show ?thesis unfolding last tick by simp
  qed
qed

section \<open>Witnesses\<close>

text \<open>Two submissions within a millisecond, each of ten bytes, and a tick of the timer later.\<close>

definition sample_proposal :: "nat \<Rightarrow> nat raft_proposal" where
  "sample_proposal i = \<lparr>rp_id = [of_nat i], rp_data = RemoveWorker (of_nat i), rp_response = Some i\<rparr>"

definition sample_events :: "nat batch_event list" where
  "sample_events = [Submitted 0 [7] (sample_proposal 1), Submitted 1000000 [8] (sample_proposal 2)]"

abbreviation ten_bytes :: "proposal_data \<Rightarrow> u64 option" where
  "ten_bytes \<equiv> \<lambda>_. Some 10"

abbreviation sample_run :: "nat batch_event list \<Rightarrow> nat batch_processor" where
  "sample_run \<equiv> run (batch_step ten_bytes) (batch_processor_new batch_config_default 0)"

lemma sample_sizes: "list_all (sizeable ten_bytes) (sample_events @ [Flush_tick 20000000 [9]])"
  by (simp add: sample_events_def sizeable_def measured_def estimate_def sample_proposal_def)

lemma sample_flushed:
  "bp_sent (sample_run (sample_events @ [Flush_tick 20000000 [9]])) =
     [\<lparr>rp_id = [9], rp_data = Batch [RemoveWorker 1, RemoveWorker 2],
       rp_response = Some (Fanout [([1], 1), ([2], 2)])\<rparr>]"
  by (simp add: sample_events_def add_to_batch_def estimate_proposal_size_def batch_config_default_def
      check_and_flush_batch_def flush_batch_def flush_specific_batch_def forward_def batch_age_def
      create_batched_proposal_def response_channels_def sample_proposal_def Let_def List.map_filter_simps)

lemma sample_submitted:
  "concat (map submitted (sample_events @ [Flush_tick 20000000 [9]])) = [sample_proposal 1, sample_proposal 2]"
  by (simp add: sample_events_def)

theorem batches_deliver_in_order_witness:
  "let es = sample_events @ [Flush_tick 20000000 [9]]
   in batch_processor_run ten_bytes es (batch_processor_new (batch_config_default\<lparr>bc_batch_timeout_ms := 0\<rparr>) 0) =
        Panics \<and>
      (\<exists>bp. batch_processor_run ten_bytes es (batch_processor_new batch_config_default 0) = Ok bp \<and>
         concat (map carried (bp_sent bp)) = [RemoveWorker 1, RemoveWorker 2] \<and>
         concat (map waiting (bp_sent bp)) @ callers (pb_proposals (bp_current bp)) = [1, 2] \<and>
         map fst (distribute [([1], 1), ([2], 2)] (Some (Ok ()))) = concat (map waiting (bp_sent bp)))"
proof -
  let ?es = "sample_events @ [Flush_tick 20000000 [9]]"
  have m: "list_all (measured ten_bytes) ?es"
    using sample_sizes by (simp add: list_all_iff sizeable_def)
  have zero: "batch_processor_run ten_bytes ?es
      (batch_processor_new (batch_config_default\<lparr>bc_batch_timeout_ms := 0\<rparr>) 0) = Panics"
    using batches_deliver_in_order [OF m, of "batch_config_default\<lparr>bc_batch_timeout_ms := 0\<rparr>" 0]
    by (simp add: batch_config_default_def)
  have ok: "\<not> (bc_enabled batch_config_default \<and> bc_batch_timeout_ms batch_config_default = 0)"
    by (simp add: batch_config_default_def)
  have run: "batch_processor_run ten_bytes ?es (batch_processor_new batch_config_default 0) = Ok (sample_run ?es)"
    using ok by (simp add: batch_processor_run_def)
  show ?thesis
    using zero batches_deliver_in_order [OF m, of batch_config_default 0] ok
    unfolding Let_def sample_submitted run
    by (simp add: sample_flushed carried.simps waiting.simps sample_proposal_def callers.simps
        List.map_filter_simps)
qed

theorem batches_within_limits_witness:
  "let q = hd (bp_sent (sample_run (sample_events @ [Flush_tick 20000000 [9]])))
   in length (carried q) = 2 \<and> within_limits ten_bytes batch_config_default q"
proof -
  let ?bp = "sample_run (sample_events @ [Flush_tick 20000000 [9]])"
  have "reach (batch_step ten_bytes) (\<lambda>_. sizeable ten_bytes) (batch_processor_new batch_config_default 0) ?bp"
    using sample_sizes by (intro run_reach) (simp add: sample_events_def)
  moreover have "hd (bp_sent ?bp) \<in> set (bp_sent ?bp)" unfolding sample_flushed by simp
  ultimately have "within_limits ten_bytes batch_config_default (hd (bp_sent ?bp))"
    by (intro batches_within_limits) (simp_all add: batch_config_default_def del: run.simps)
  moreover have "length (carried (hd (bp_sent ?bp))) = 2"
    unfolding sample_flushed by (simp add: carried.simps)
  ultimately show ?thesis unfolding Let_def by (rule conjI [rotated])
qed

theorem batch_latency_witness:
  "\<exists>rest. concat (map carried (bp_sent (sample_run (sample_events @ [] @ [Flush_tick 20000000 [9]])))) =
     [RemoveWorker 1, RemoveWorker 2] @ rest"
proof -
  have "list_all (measured ten_bytes) (sample_events @ [])"
    using sample_sizes by (simp add: list_all_iff sizeable_def)
  from batch_latency [OF _ this, of batch_config_default 20000000 0 "[9]"] show ?thesis
    by (simp add: sample_events_def sample_proposal_def batch_config_default_def)
qed

end
