(* ===== verification/Vm_Scheduler.thy ===== *)
theory Vm_Scheduler
  imports Replication
begin

text \<open>
  The scheduler (\<open>vm_scheduler_modules/\<close>): it reads the workers and machines from the database,
  filters the nodes that can take a machine and picks one by a placement strategy. The theory shows
  that whatever strategy is used the chosen node is healthy, has the resources and respects the
  anti-affinity rules, that the scoring strategies pick the best candidate, and that the scheduler
  and the state machine disagree about the keys of the worker table. Floating-point rounding, the
  serializers and the hash function of \<open>DefaultHasher\<close>, which its documentation leaves open, are
  arguments. Costs and scores are finite numbers.
\<close>

section \<open>Nodes and requirements\<close>

record vm_resource_requirements =
  rq_vcpus :: u32
  rq_memory_mb :: u64
  rq_disk_gb :: u64
  rq_required_features :: "string list"

definition requirements_of :: "vm_config \<Rightarrow> vm_resource_requirements" where
  "requirements_of config =
     \<lparr>rq_vcpus = vc_vcpus config, rq_memory_mb = ucast (vc_memory config), rq_disk_gb = 5,
      rq_required_features = [''microvm'']\<rparr>"

record node_utilization =
  cpu_percent :: real
  memory_percent :: real
  disk_percent :: real

record node_resource_usage =
  nu_node_id :: u64
  nu_is_healthy :: bool
  nu_capabilities :: worker_capabilities
  nu_used_vcpus :: u32
  nu_used_memory_mb :: u64
  nu_used_disk_gb :: u64
  nu_running_vms :: u32
  nu_topology :: "node_topology option"
  nu_cost_per_hour :: "real option"
  nu_utilization :: node_utilization

definition available_vcpus :: "node_resource_usage \<Rightarrow> u32" where
  "available_vcpus n = saturating_sub (wc_cpu_cores (nu_capabilities n)) (nu_used_vcpus n)"

definition available_memory_mb :: "node_resource_usage \<Rightarrow> u64" where
  "available_memory_mb n = saturating_sub (wc_memory_mb (nu_capabilities n)) (nu_used_memory_mb n)"

definition available_disk_gb :: "node_resource_usage \<Rightarrow> u64" where
  "available_disk_gb n = saturating_sub (wc_disk_gb (nu_capabilities n)) (nu_used_disk_gb n)"

definition can_accommodate :: "node_resource_usage \<Rightarrow> vm_resource_requirements \<Rightarrow> bool" where
  "can_accommodate n q \<longleftrightarrow>
     nu_is_healthy n \<and>
     \<not> available_vcpus n < rq_vcpus q \<and>
     \<not> available_memory_mb n < rq_memory_mb q \<and>
     \<not> available_disk_gb n < rq_disk_gb q \<and>
     list_all (\<lambda>feature. List.member (wc_features (nu_capabilities n)) feature) (rq_required_features q)"

section \<open>Scores\<close>

text \<open>\<open>a as f64 / b as f64\<close>, and 0 for \<open>b = 0\<close>.\<close>

definition ratio :: "(real \<Rightarrow> real) \<Rightarrow> 'a::len word \<Rightarrow> 'a word \<Rightarrow> real" where
  "ratio rnd a b = (if b > 0 then rnd (rnd (real (unat a)) / rnd (real (unat b))) else 0)"

definition weighted :: "(real \<Rightarrow> real) \<Rightarrow> real \<Rightarrow> real \<Rightarrow> real \<Rightarrow> real" where
  "weighted rnd cpu memory disk =
     rnd (rnd (rnd (cpu * rnd 0.4) + rnd (memory * rnd 0.4)) + rnd (disk * rnd 0.2))"

definition calculate_availability_score :: "(real \<Rightarrow> real) \<Rightarrow> node_resource_usage \<Rightarrow> real" where
  "calculate_availability_score rnd n =
     (let c = nu_capabilities n
      in if \<not> nu_is_healthy n then 0
         else rnd (weighted rnd
                (ratio rnd (wc_cpu_cores c - nu_used_vcpus n) (wc_cpu_cores c))
                (ratio rnd (wc_memory_mb c - nu_used_memory_mb n) (wc_memory_mb c))
                (ratio rnd (wc_disk_gb c - nu_used_disk_gb n) (wc_disk_gb c)) * 100))"

definition update_utilization :: "(real \<Rightarrow> real) \<Rightarrow> node_resource_usage \<Rightarrow> node_resource_usage" where
  "update_utilization rnd n =
     (let c = nu_capabilities n
      in n\<lparr>nu_utilization :=
             \<lparr>cpu_percent = rnd (ratio rnd (nu_used_vcpus n) (wc_cpu_cores c) * 100),
              memory_percent = rnd (ratio rnd (nu_used_memory_mb n) (wc_memory_mb c) * 100),
              disk_percent = rnd (ratio rnd (nu_used_disk_gb n) (wc_disk_gb c) * 100)\<rparr>\<rparr>)"

text \<open>
  A capacity of zero makes one of the quotients infinite or not a number, and \<open>max\<close> with zero gives
  zero in both cases.
\<close>

definition calculate_resource_fit_score ::
  "(real \<Rightarrow> real) \<Rightarrow> node_resource_usage \<Rightarrow> vm_resource_requirements \<Rightarrow> real" where
  "calculate_resource_fit_score rnd n q =
     (let c = nu_capabilities n
      in if wc_cpu_cores c = 0 \<or> wc_memory_mb c = 0 \<or> wc_disk_gb c = 0 then 0
         else
           let cpu_fit = ratio rnd (rq_vcpus q) (wc_cpu_cores c);
               memory_fit = ratio rnd (rq_memory_mb q) (wc_memory_mb c);
               disk_fit = ratio rnd (rq_disk_gb q) (wc_disk_gb c);
               fit_score = rnd (rnd (rnd (cpu_fit + memory_fit) + disk_fit) / 3)
           in rnd (max (rnd (1 - fit_score)) 0 * 100))"

section \<open>Strategies\<close>

datatype placement_strategy =
    MostAvailable
  | LeastAvailable
  | RoundRobin
  | Manual u64
  | PriorityBased placement_strategy bool
  | LocalityAware placement_strategy bool
  | SpreadAcrossFailureDomains u32 string
  | CostOptimized real bool

fun placement_score :: "(real \<Rightarrow> real) \<Rightarrow> node_resource_usage \<Rightarrow> placement_strategy \<Rightarrow> real" where
  "placement_score rnd n strategy =
     (let c = nu_capabilities n
      in if \<not> nu_is_healthy n then 0
         else case strategy of
                LeastAvailable \<Rightarrow>
                  weighted rnd (ratio rnd (nu_used_vcpus n) (wc_cpu_cores c))
                    (ratio rnd (nu_used_memory_mb n) (wc_memory_mb c))
                    (ratio rnd (nu_used_disk_gb n) (wc_disk_gb c))
              | RoundRobin \<Rightarrow> rnd (1 / rnd (1 + rnd (real (unat (nu_running_vms n)))))
              | Manual node_id \<Rightarrow> (if nu_node_id n = node_id then 1 else 0)
              | _ \<Rightarrow> rnd (calculate_availability_score rnd n / 100))"

text \<open>
  The decision. The reason, a text, is left out. A confidence that is not a number is \<open>None\<close>.
\<close>

record placement_decision =
  pd_target_node_id :: u64
  pd_strategy_used :: string
  pd_confidence_score :: "real option"
  pd_preempted_vms :: "string list"
  pd_resource_fit_score :: real
  pd_alternative_nodes :: "u64 list"
  pd_selected_node_id :: u64

record scheduling_context =
  sc_requirements :: vm_resource_requirements
  sc_node_usage :: "node_resource_usage list"
  sc_anti_affinity_checker :: "group_distribution option"

definition placement_allowed :: "scheduling_context \<Rightarrow> vm_config \<Rightarrow> u64 \<Rightarrow> bool" where
  "placement_allowed context config node_id =
     (case (sc_anti_affinity_checker context, vc_anti_affinity config) of
        (Some checker, Some rules) \<Rightarrow> check_placement checker (vc_name config) node_id rules = None
      | _ \<Rightarrow> True)"

definition filter_candidate_nodes :: "scheduling_context \<Rightarrow> vm_config \<Rightarrow> node_resource_usage list" where
  "filter_candidate_nodes context config =
     filter (\<lambda>n. placement_allowed context config (nu_node_id n))
       (filter (\<lambda>n. can_accommodate n (sc_requirements context)) (sc_node_usage context))"

definition other_nodes :: "node_resource_usage list \<Rightarrow> u64 \<Rightarrow> u64 list" where
  "other_nodes candidates node_id = map nu_node_id (take 3 (filter (\<lambda>n. nu_node_id n \<noteq> node_id) candidates))"

definition decide ::
  "(real \<Rightarrow> real) \<Rightarrow> scheduling_context \<Rightarrow> string \<Rightarrow> real option \<Rightarrow> u64 list \<Rightarrow> node_resource_usage \<Rightarrow>
     placement_decision" where
  "decide rnd context strategy confidence alternatives n =
     \<lparr>pd_target_node_id = nu_node_id n, pd_strategy_used = strategy, pd_confidence_score = confidence,
      pd_preempted_vms = [],
      pd_resource_fit_score = calculate_resource_fit_score rnd n (sc_requirements context),
      pd_alternative_nodes = alternatives, pd_selected_node_id = nu_node_id n\<rparr>"

definition apply_most_available_strategy ::
  "(real \<Rightarrow> real) \<Rightarrow> scheduling_context \<Rightarrow> vm_config \<Rightarrow> placement_decision outcome" where
  "apply_most_available_strategy rnd context config =
     (let candidates = filter_candidate_nodes context config
      in case max_by_key (calculate_availability_score rnd) candidates of
           None \<Rightarrow> Err SchedulingError
         | Some best \<Rightarrow>
             Ok (decide rnd context ''MostAvailable'' (Some (calculate_availability_score rnd best))
               (other_nodes (take 4 candidates) (nu_node_id best)) best))"

definition apply_least_available_strategy ::
  "(real \<Rightarrow> real) \<Rightarrow> scheduling_context \<Rightarrow> vm_config \<Rightarrow> placement_decision outcome" where
  "apply_least_available_strategy rnd context config =
     (let candidates = filter_candidate_nodes context config
      in case min_by_key (calculate_availability_score rnd) candidates of
           None \<Rightarrow> Err SchedulingError
         | Some best \<Rightarrow>
             Ok (decide rnd context ''LeastAvailable''
               (Some (rnd (100 - calculate_availability_score rnd best)))
               (other_nodes candidates (nu_node_id best)) best))"

definition apply_round_robin_strategy ::
  "(real \<Rightarrow> real) \<Rightarrow> (string \<Rightarrow> u64) \<Rightarrow> scheduling_context \<Rightarrow> vm_config \<Rightarrow> placement_decision outcome" where
  "apply_round_robin_strategy rnd hash context config =
     (let candidates = filter_candidate_nodes context config
      in if candidates = [] then Err SchedulingError
         else
           let best = candidates ! (unat (hash (vc_name config)) mod length candidates)
           in Ok (decide rnd context ''RoundRobin'' (Some 75) (other_nodes candidates (nu_node_id best)) best))"

definition apply_manual_strategy ::
  "(real \<Rightarrow> real) \<Rightarrow> scheduling_context \<Rightarrow> vm_config \<Rightarrow> u64 \<Rightarrow> placement_decision outcome" where
  "apply_manual_strategy rnd context config node_id =
     (case find (\<lambda>n. nu_node_id n = node_id) (sc_node_usage context) of
        None \<Rightarrow> Err SchedulingError
      | Some n \<Rightarrow>
          if \<not> can_accommodate n (sc_requirements context) then Err SchedulingError
          else if \<not> placement_allowed context config node_id then Err SchedulingError
          else Ok (decide rnd context ''Manual'' (Some 100) [] n))"

text \<open>
  \<open>group_nodes_by_domain\<close> finds no domains, which is an error when at least one is required, and
  \<open>find_best_spread_domain\<close> always fails.
\<close>

definition apply_spread_strategy :: "u32 \<Rightarrow> placement_decision outcome" where
  "apply_spread_strategy min_domains = Err SchedulingError"

definition calculate_placement_cost :: "node_resource_usage \<Rightarrow> real" where
  "calculate_placement_cost n = (case nu_cost_per_hour n of None \<Rightarrow> 1 | Some cost \<Rightarrow> cost)"

text \<open>\<open>sort_by\<close> is stable. \<open>0 / 0\<close> is not a number.\<close>

definition apply_cost_optimized_strategy ::
  "(real \<Rightarrow> real) \<Rightarrow> scheduling_context \<Rightarrow> vm_config \<Rightarrow> real \<Rightarrow> placement_decision outcome" where
  "apply_cost_optimized_strategy rnd context config max_cost_increase =
     (let candidates = filter_candidate_nodes context config;
          node_costs = sort_key snd (map (\<lambda>n. (nu_node_id n, calculate_placement_cost n)) candidates)
      in case node_costs of
           [] \<Rightarrow> Err SchedulingError
         | (cheapest_id, cheapest_cost) # _ \<Rightarrow>
             let max_allowed = rnd (cheapest_cost * rnd (1 + rnd (max_cost_increase / 100)));
                 (best_id, best_cost) =
                   (case find (\<lambda>(_, cost). cost \<le> max_allowed) node_costs of
                      Some best \<Rightarrow> best | None \<Rightarrow> (cheapest_id, cheapest_cost))
             in case find (\<lambda>n. nu_node_id n = best_id) candidates of
                  None \<Rightarrow> Err SchedulingError
                | Some best \<Rightarrow>
                    Ok (decide rnd context ''CostOptimized''
                      (if cheapest_cost = 0 then None
                       else Some (rnd (100 - rnd (rnd (rnd (best_cost - cheapest_cost) / cheapest_cost) * 100))))
                      (map fst (take 3 (filter (\<lambda>(i, _). i \<noteq> best_id) node_costs))) best))"

text \<open>
  \<open>filter_by_locality\<close> returns the context unchanged, and \<open>apply_preemption_strategy\<close> always fails.
\<close>

fun apply_placement_strategy ::
  "(real \<Rightarrow> real) \<Rightarrow> (string \<Rightarrow> u64) \<Rightarrow> scheduling_context \<Rightarrow> vm_config \<Rightarrow> placement_strategy \<Rightarrow>
     placement_decision outcome" where
  "apply_placement_strategy rnd hash context config MostAvailable =
     apply_most_available_strategy rnd context config"
| "apply_placement_strategy rnd hash context config LeastAvailable =
     apply_least_available_strategy rnd context config"
| "apply_placement_strategy rnd hash context config RoundRobin =
     apply_round_robin_strategy rnd hash context config"
| "apply_placement_strategy rnd hash context config (Manual node_id) =
     apply_manual_strategy rnd context config node_id"
| "apply_placement_strategy rnd hash context config (PriorityBased base enable_preemption) =
     (case apply_placement_strategy rnd hash context config base of
        Err e \<Rightarrow> if enable_preemption then Err SchedulingError else Err e
      | r \<Rightarrow> r)"
| "apply_placement_strategy rnd hash context config (LocalityAware base strict) =
     apply_placement_strategy rnd hash context config base"
| "apply_placement_strategy rnd hash context config (SpreadAcrossFailureDomains min_domains level) =
     apply_spread_strategy min_domains"
| "apply_placement_strategy rnd hash context config (CostOptimized max_cost_increase network) =
     apply_cost_optimized_strategy rnd context config max_cost_increase"

section \<open>The state of the cluster\<close>

definition u64_to_be_bytes :: "u64 \<Rightarrow> byte list" where
  "u64_to_be_bytes w = rev (u64_to_le_bytes w)"

definition u64_from_be_bytes :: "byte list \<Rightarrow> u64" where
  "u64_from_be_bytes bs = u64_from_le_bytes (rev bs)"

text \<open>The machines of the cluster; every node is charged with all of them.\<close>

fun sum_vms ::
  "vm_config serde \<Rightarrow> (db_key \<times> blob) option list \<Rightarrow> u32 \<times> u64 \<times> u64 \<times> u32 \<Rightarrow>
     (u32 \<times> u64 \<times> u64 \<times> u32) outcome" where
  "sum_vms V [] acc = Ok acc"
| "sum_vms V (None # xs) acc = Err (Storage ''read VM entry'')"
| "sum_vms V (Some (_, b) # xs) (vcpus, memory, disk, vms) =
     obind (or_err (Serialization ''deserialize VM config'') (dec V b)) (\<lambda>config.
       sum_vms V xs (vcpus + vc_vcpus config, memory + ucast (vc_memory config), disk + 5, vms + 1))"

definition calculate_node_resource_usage ::
  "('d, 't, 'r) redb \<Rightarrow> vm_config serde \<Rightarrow> u64 \<Rightarrow> 'r \<Rightarrow> (u32 \<times> u64 \<times> u64 \<times> u32) outcome" where
  "calculate_node_resource_usage R V node_id r =
     obind (or_err (Storage ''iterate VMs'') (iter_read R VM_STATE_TABLE r)) (\<lambda>xs. sum_vms V xs (0, 0, 0, 0))"

text \<open>The serializers of what the scheduler takes the rows to be.\<close>

record scheduler_codec =
  s_capabilities :: "worker_capabilities serde"
  s_status :: "worker_status serde"
  s_config :: "vm_config serde"

definition node_of_row ::
  "(real \<Rightarrow> real) \<Rightarrow> ('d, 't, 'r) redb \<Rightarrow> scheduler_codec \<Rightarrow> 'r \<Rightarrow> byte list \<Rightarrow> blob \<Rightarrow>
     node_resource_usage outcome" where
  "node_of_row rnd R K r key worker_data =
     (if length key \<noteq> 8 then Err (Serialization ''parse node ID'')
      else
        let node_id = u64_from_be_bytes key
        in obind (or_err (Serialization ''deserialize worker capabilities'') (dec (s_capabilities K) worker_data)) (\<lambda>c.
           obind (case get_read R WORKER_STATUS_TABLE (Bytes (u64_to_be_bytes node_id)) r of
                    Some (Some b) \<Rightarrow>
                      obind (or_err (Serialization ''deserialize worker status'') (dec (s_status K) b)) (\<lambda>s.
                        Ok (s = Online))
                  | _ \<Rightarrow> Ok False) (\<lambda>is_healthy.
           obind (calculate_node_resource_usage R (s_config K) node_id r) (\<lambda>(vcpus, memory, disk, vms).
           Ok (update_utilization rnd
             \<lparr>nu_node_id = node_id, nu_is_healthy = is_healthy, nu_capabilities = c, nu_used_vcpus = vcpus,
              nu_used_memory_mb = memory, nu_used_disk_gb = disk, nu_running_vms = vms,
              nu_topology = None, nu_cost_per_hour = None,
              nu_utilization = \<lparr>cpu_percent = 0, memory_percent = 0, disk_percent = 0\<rparr>\<rparr>)))))"

fun collect_nodes ::
  "(real \<Rightarrow> real) \<Rightarrow> ('d, 't, 'r) redb \<Rightarrow> scheduler_codec \<Rightarrow> 'r \<Rightarrow> (db_key \<times> blob) option list \<Rightarrow>
     node_resource_usage list outcome" where
  "collect_nodes rnd R K r [] = Ok []"
| "collect_nodes rnd R K r (None # xs) = Err (Storage ''read worker entry'')"
| "collect_nodes rnd R K r (Some (k, b) # xs) =
     obind (node_of_row rnd R K r (key_bytes k) b) (\<lambda>n.
     obind (collect_nodes rnd R K r xs) (\<lambda>ns. Ok (n # ns)))"

definition open_for_reading :: "('d, 't, 'r) redb \<Rightarrow> string \<Rightarrow> table_id \<Rightarrow> 'r \<Rightarrow> unit outcome" where
  "open_for_reading R operation T r = (if open_read R T r then Ok () else Err (Storage operation))"

definition get_cluster_resource_usage ::
  "(real \<Rightarrow> real) \<Rightarrow> ('d, 't, 'r) redb \<Rightarrow> scheduler_codec \<Rightarrow> 'd \<Rightarrow> node_resource_usage list outcome" where
  "get_cluster_resource_usage rnd R K d =
     obind (or_err (Storage ''begin read transaction'') (begin_read R d)) (\<lambda>r.
     obind (open_for_reading R ''open worker table'' WORKER_TABLE r) (\<lambda>_.
     obind (open_for_reading R ''open worker status table'' WORKER_STATUS_TABLE r) (\<lambda>_.
     obind (open_for_reading R ''open VM state table'' VM_STATE_TABLE r) (\<lambda>_.
     obind (or_err (Storage ''iterate workers'') (iter_read R WORKER_TABLE r))
       (collect_nodes rnd R K r)))))"

text \<open>
  The placements of the existing machines: every machine of a group is taken to be on node 0.
\<close>

fun existing_placements ::
  "vm_config serde \<Rightarrow> (db_key \<times> blob) option list \<Rightarrow> (string \<times> string list \<times> u64) list outcome" where
  "existing_placements V [] = Ok []"
| "existing_placements V (None # xs) = Err (Storage ''read VM entry'')"
| "existing_placements V (Some (k, b) # xs) =
     obind (or_err (Serialization ''deserialize VM config'') (dec V b)) (\<lambda>config.
     obind (existing_placements V xs) (\<lambda>ps.
       Ok (case Option.bind (vc_metadata config) (\<lambda>m. m ''affinity-group'') of
             None \<Rightarrow> ps | Some g \<Rightarrow> (key_str k, [g], 0) # ps)))"

definition build_anti_affinity_checker ::
  "('d, 't, 'r) redb \<Rightarrow> vm_config serde \<Rightarrow> 'd \<Rightarrow> group_distribution outcome" where
  "build_anti_affinity_checker R V d =
     obind (or_err (Storage ''begin read transaction'') (begin_read R d)) (\<lambda>r.
     obind (open_for_reading R ''open VM state table'' VM_STATE_TABLE r) (\<lambda>_.
     obind (or_err (Storage ''iterate VMs'') (iter_read R VM_STATE_TABLE r)) (\<lambda>xs.
     obind (existing_placements V xs) (\<lambda>ps. Ok (checker_new ps)))))"

definition collect_cluster_state ::
  "(real \<Rightarrow> real) \<Rightarrow> ('d, 't, 'r) redb \<Rightarrow> scheduler_codec \<Rightarrow> vm_config \<Rightarrow> 'd \<Rightarrow> scheduling_context outcome" where
  "collect_cluster_state rnd R K config d =
     obind (get_cluster_resource_usage rnd R K d) (\<lambda>nodes.
     if nodes = [] then Err SchedulingError
     else obind (if vc_anti_affinity config \<noteq> None
                 then obind (build_anti_affinity_checker R (s_config K) d) (\<lambda>c. Ok (Some c))
                 else Ok None) (\<lambda>checker.
          Ok \<lparr>sc_requirements = requirements_of config, sc_node_usage = nodes,
              sc_anti_affinity_checker = checker\<rparr>))"

definition schedule_vm_placement ::
  "(real \<Rightarrow> real) \<Rightarrow> (string \<Rightarrow> u64) \<Rightarrow> ('d, 't, 'r) redb \<Rightarrow> scheduler_codec \<Rightarrow> vm_config \<Rightarrow>
     placement_strategy \<Rightarrow> 'd \<Rightarrow> placement_decision outcome" where
  "schedule_vm_placement rnd hash R K config strategy d =
     obind (collect_cluster_state rnd R K config d) (\<lambda>context.
       apply_placement_strategy rnd hash context config strategy)"

section \<open>Summary of the cluster and latencies\<close>

record cluster_resource_summary =
  cs_total_nodes :: u32
  cs_healthy_nodes :: u32
  cs_total_vcpus :: u32
  cs_used_vcpus :: u32
  cs_total_memory_mb :: u64
  cs_used_memory_mb :: u64
  cs_total_disk_gb :: u64
  cs_used_disk_gb :: u64
  cs_total_running_vms :: u32
  cs_average_cpu_utilization :: real
  cs_average_memory_utilization :: real
  cs_average_disk_utilization :: real
  cs_nodes :: "node_resource_usage list"

definition get_cluster_resource_summary ::
  "(real \<Rightarrow> real) \<Rightarrow> ('d, 't, 'r) redb \<Rightarrow> scheduler_codec \<Rightarrow> 'd \<Rightarrow> cluster_resource_summary outcome" where
  "get_cluster_resource_summary rnd R K d =
     obind (get_cluster_resource_usage rnd R K d) (\<lambda>nodes.
       let vcpus = sum_list (map (\<lambda>n. wc_cpu_cores (nu_capabilities n)) nodes);
           used = sum_list (map nu_used_vcpus nodes);
           memory = sum_list (map (\<lambda>n. wc_memory_mb (nu_capabilities n)) nodes);
           used_memory = sum_list (map nu_used_memory_mb nodes);
           disk = sum_list (map (\<lambda>n. wc_disk_gb (nu_capabilities n)) nodes);
           used_disk = sum_list (map nu_used_disk_gb nodes)
       in Ok \<lparr>cs_total_nodes = of_nat (length nodes), cs_healthy_nodes = of_nat (length (filter nu_is_healthy nodes)),
              cs_total_vcpus = vcpus, cs_used_vcpus = used, cs_total_memory_mb = memory, cs_used_memory_mb = used_memory,
              cs_total_disk_gb = disk, cs_used_disk_gb = used_disk,
              cs_total_running_vms = sum_list (map nu_running_vms nodes),
              cs_average_cpu_utilization = rnd (ratio rnd used vcpus * 100),
              cs_average_memory_utilization = rnd (ratio rnd used_memory memory * 100),
              cs_average_disk_utilization = rnd (ratio rnd used_disk disk * 100),
              cs_nodes = nodes\<rparr>)"

definition utilization_percentages ::
  "(real \<Rightarrow> real) \<Rightarrow> cluster_resource_summary \<Rightarrow> real \<times> real \<times> real" where
  "utilization_percentages rnd s =
     (rnd (ratio rnd (cs_used_vcpus s) (cs_total_vcpus s) * 100),
      rnd (ratio rnd (cs_used_memory_mb s) (cs_total_memory_mb s) * 100),
      rnd (ratio rnd (cs_used_disk_gb s) (cs_total_disk_gb s) * 100))"

type_synonym datacenter_latency_map = "string \<times> string \<rightharpoonup> u32"

definition update_datacenter_latency ::
  "string \<Rightarrow> string \<Rightarrow> u32 \<Rightarrow> datacenter_latency_map \<Rightarrow> datacenter_latency_map" where
  "update_datacenter_latency dc1 dc2 latency_ms latencies =
     latencies((dc1, dc2) \<mapsto> latency_ms, (dc2, dc1) \<mapsto> latency_ms)"

definition get_datacenter_latency :: "string \<Rightarrow> string \<Rightarrow> datacenter_latency_map \<Rightarrow> u32 option" where
  "get_datacenter_latency dc1 dc2 latencies = latencies (dc1, dc2)"

lemma latency_symmetric:
  "get_datacenter_latency a b (update_datacenter_latency dc1 dc2 ms m) =
     (if a = dc1 \<and> b = dc2 \<or> a = dc2 \<and> b = dc1 then Some ms
      else get_datacenter_latency a b m)"
  unfolding get_datacenter_latency_def update_datacenter_latency_def fun_upd_def prod.inject by argo

section \<open>Candidates\<close>

lemma candidate_iff:
  "n \<in> set (filter_candidate_nodes context config) \<longleftrightarrow>
     n \<in> set (sc_node_usage context) \<and> can_accommodate n (sc_requirements context) \<and>
     placement_allowed context config (nu_node_id n)"
  by (auto simp: filter_candidate_nodes_def)

lemma decide_fields [simp]:
  "pd_target_node_id (decide rnd context s c as n) = nu_node_id n"
  "pd_selected_node_id (decide rnd context s c as n) = nu_node_id n"
  "pd_preempted_vms (decide rnd context s c as n) = []"
  by (simp_all add: decide_def)

text \<open>A decision for one of the candidates, without preemption.\<close>

definition places :: "scheduling_context \<Rightarrow> vm_config \<Rightarrow> placement_decision \<Rightarrow> bool" where
  "places context config decision \<longleftrightarrow>
     (\<exists>n \<in> set (filter_candidate_nodes context config).
        pd_target_node_id decision = nu_node_id n \<and> pd_selected_node_id decision = nu_node_id n \<and>
        pd_preempted_vms decision = [])"

lemma places_decide:
  "n \<in> set (filter_candidate_nodes context config) \<Longrightarrow> places context config (decide rnd context s c as n)"
  by (auto simp: places_def)

lemma round_robin_places:
  "apply_round_robin_strategy rnd hash context config = Ok decision \<Longrightarrow> places context config decision"
  by (auto simp: apply_round_robin_strategy_def Let_def split: if_splits intro!: places_decide nth_mem)

lemma manual_places:
  assumes "apply_manual_strategy rnd context config node_id = Ok decision"
  shows "places context config decision"
proof -
  from assms obtain n where "find (\<lambda>n. nu_node_id n = node_id) (sc_node_usage context) = Some n"
    and ok: "can_accommodate n (sc_requirements context)" "placement_allowed context config node_id"
    and d: "decision = decide rnd context ''Manual'' (Some 100) [] n"
    by (auto simp: apply_manual_strategy_def split: option.splits if_splits)
  then have "n \<in> set (sc_node_usage context)" "nu_node_id n = node_id"
    by (auto simp: find_Some_iff)
  with ok show ?thesis unfolding d by (intro places_decide) (simp add: candidate_iff)
qed

lemma cost_places:
  assumes "apply_cost_optimized_strategy rnd context config increase = Ok decision"
  shows "places context config decision"
proof -
  have found: "n \<in> set xs" if "find P xs = Some n" for P and n :: node_resource_usage and xs
    using that by (auto simp: find_Some_iff)
  show ?thesis
    using assms unfolding apply_cost_optimized_strategy_def Let_def
    by (auto split: list.splits prod.splits option.splits intro!: places_decide dest: found)
qed

lemma strategy_places:
  "apply_placement_strategy rnd hash context config strategy = Ok decision \<Longrightarrow> places context config decision"
proof (induction strategy)
  case MostAvailable
  then show ?case
    by (auto simp: apply_most_available_strategy_def Let_def split: option.splits dest!: max_by_key_Some
        intro!: places_decide)
next
  case LeastAvailable
  then show ?case
    by (auto simp: apply_least_available_strategy_def Let_def split: option.splits dest!: min_by_key_Some
        intro!: places_decide)
qed (auto simp: round_robin_places manual_places cost_places apply_spread_strategy_def
    split: outcome.splits if_splits)

text \<open>The cheapest candidate is chosen whatever cost increase is allowed.\<close>

lemma find_cheapest:
  assumes "sorted (map snd xs)"
  shows "(case find (\<lambda>(_, c). c \<le> (limit :: real)) xs of Some best \<Rightarrow> best | None \<Rightarrow> hd xs) = hd xs"
proof (cases xs)
  case (Cons x ys)
  show ?thesis
  proof (cases "snd x \<le> limit")
    case True
    then show ?thesis by (simp add: Cons case_prod_beta)
  next
    case False
    with assms have "\<forall>y \<in> set xs. \<not> snd y \<le> limit" by (fastforce simp: Cons)
    then have "find (\<lambda>(_, c). c \<le> limit) xs = None"
      by (auto simp: find_None_iff)
    then show ?thesis by simp
  qed
qed simp

lemma find_distinct: "distinct (map f xs) \<Longrightarrow> x \<in> set xs \<Longrightarrow> find (\<lambda>y. f y = f x) xs = Some x"
  by (induction xs) auto

lemma cost_optimal:
  assumes "filter_candidate_nodes ctx config \<noteq> []" and "distinct (map nu_node_id (sc_node_usage ctx))"
  shows "\<exists>cheapest \<in> set (filter_candidate_nodes ctx config).
    (\<forall>n \<in> set (filter_candidate_nodes ctx config).
       calculate_placement_cost cheapest \<le> calculate_placement_cost n) \<and>
    (\<forall>increase. \<exists>d. apply_cost_optimized_strategy rnd ctx config increase = Ok d \<and>
       pd_target_node_id d = nu_node_id cheapest)"
proof -
  let ?c = "filter_candidate_nodes ctx config"
  let ?costs = "sort_key snd (map (\<lambda>n. (nu_node_id n, calculate_placement_cost n)) ?c)"
  from assms(1) obtain i cost rest where costs: "?costs = (i, cost) # rest"
    by (cases ?costs) (auto dest: arg_cong [where f = set])
  have sorted: "sorted (map snd ?costs)" by simp
  have set: "set ?costs = (\<lambda>n. (nu_node_id n, calculate_placement_cost n)) ` set ?c" by simp
  have "(i, cost) \<in> set ?costs" by (simp only: costs) simp
  then obtain cheapest where c: "cheapest \<in> set ?c" "i = nu_node_id cheapest"
    "cost = calculate_placement_cost cheapest"
    unfolding set by auto
  have "\<forall>x \<in> set ?costs. cost \<le> snd x" using sorted unfolding costs by auto
  then have least: "\<forall>n \<in> set ?c. calculate_placement_cost cheapest \<le> calculate_placement_cost n"
    unfolding set c(3) by auto
  have best: "(case find (\<lambda>(_, c). c \<le> limit) ?costs of Some best \<Rightarrow> best | None \<Rightarrow> (i, cost)) = (i, cost)" for limit
    using find_cheapest [OF sorted, of limit] by (simp only: costs list.sel)
  have "distinct (map nu_node_id ?c)"
    using assms(2) by (simp add: filter_candidate_nodes_def distinct_map_filter)
  then have found: "find (\<lambda>n. nu_node_id n = i) ?c = Some cheapest"
    unfolding c(2) using c(1) by (rule find_distinct)
  have "\<exists>d. apply_cost_optimized_strategy rnd ctx config increase = Ok d \<and>
      pd_target_node_id d = nu_node_id cheapest" for increase
    using best unfolding apply_cost_optimized_strategy_def Let_def costs list.case prod.case
    by (simp add: costs found)
  with c(1) least show ?thesis by blast
qed

section \<open>The nodes that are read\<close>

lemma u64_be_bytes:
  "length bs = 8 \<Longrightarrow> u64_to_be_bytes (u64_from_be_bytes bs) = bs"
  by (simp add: u64_to_be_bytes_def u64_from_be_bytes_def u64_to_from_le_bytes)

lemma node_of_row_id:
  assumes "node_of_row rnd R K r key b = Ok n"
  shows "u64_to_be_bytes (nu_node_id n) = key"
  using assms
  by (auto simp: node_of_row_def Let_def update_utilization_def u64_be_bytes split: if_splits)

lemma collect_nodes_rows:
  assumes "collect_nodes rnd R K r xs = Ok ns" and "n \<in> set ns"
  obtains k b where "Some (k, b) \<in> set xs" and "key_bytes k = u64_to_be_bytes (nu_node_id n)"
    and "None \<notin> set xs"
proof -
  have "None \<notin> set xs \<and> (\<exists>k b. Some (k, b) \<in> set xs \<and> key_bytes k = u64_to_be_bytes (nu_node_id n))"
    using assms
  proof (induction rnd R K r xs arbitrary: ns rule: collect_nodes.induct)
    case (3 rnd R K r k b xs)
    then obtain m ms where m: "node_of_row rnd R K r (key_bytes k) b = Ok m"
      and ms: "collect_nodes rnd R K r xs = Ok ms" and ns: "ns = m # ms"
      by auto
    have none: "None \<notin> set xs" if "collect_nodes rnd R K r xs = Ok zs" for zs
      using that by (induction rnd R K r xs arbitrary: zs rule: collect_nodes.induct) auto
    show ?case
    proof (cases "n = m")
      case True
      with node_of_row_id [OF m] none [OF ms] show ?thesis by auto
    next
      case False
      with 3 m ms ns show ?thesis by auto
    qed
  qed simp_all
  with that show thesis by blast
qed

text \<open>Every node the scheduler sees is a worker row, its id read from the key with the high byte first.\<close>

lemma cluster_usage_rows:
  assumes "redb_ok R view tview rview" and "get_cluster_resource_usage rnd R K d = Ok nodes"
    and "n \<in> set nodes"
  shows "view d WORKER_TABLE (Bytes (u64_to_be_bytes (nu_node_id n))) \<noteq> None"
proof -
  from assms(2) obtain r xs where r: "begin_read R d = Some r" "iter_read R WORKER_TABLE r = Some xs"
    and ns: "collect_nodes rnd R K r xs = Ok nodes"
    by (auto simp: get_cluster_resource_usage_def or_err_def split: option.splits)
  from collect_nodes_rows [OF ns assms(3)] obtain k b where
    k: "Some (k, b) \<in> set xs" "key_bytes k = u64_to_be_bytes (nu_node_id n)" "None \<notin> set xs" .
  have "lists_rows xs (view d WORKER_TABLE)"
    using assms(1) r k(3) unfolding redb_ok_def by metis
  then obtain kvs where kvs: "xs = map Some kvs" "map_of kvs = view d WORKER_TABLE"
    by (auto simp: lists_rows_def)
  have row: "view d WORKER_TABLE k \<noteq> None"
    using weak_map_of_SomeI [of k b kvs] k(1) kvs by auto
  then have "key_typed WORKER_TABLE k" using conjunct1 [OF assms(1) [unfolded redb_ok_def]] by blast
  then have "k = Bytes (key_bytes k)" by (cases k) simp_all
  with row k(2) show ?thesis by metis
qed

lemma schedule_Ok:
  assumes "schedule_vm_placement rnd hash R K config strategy d = Ok decision"
  obtains ctx where "get_cluster_resource_usage rnd R K d = Ok (sc_node_usage ctx)"
    and "sc_requirements ctx = requirements_of config"
    and "vc_anti_affinity config \<noteq> None \<longrightarrow> (\<exists>checker.
           build_anti_affinity_checker R (s_config K) d = Ok checker \<and>
           sc_anti_affinity_checker ctx = Some checker)"
    and "places ctx config decision"
proof -
  from assms obtain ctx where ctx: "collect_cluster_state rnd R K config d = Ok ctx"
    and placed: "places ctx config decision"
    by (auto simp: schedule_vm_placement_def intro: strategy_places)
  from ctx that [OF _ _ _ placed] show thesis
    by (cases "vc_anti_affinity config") (auto simp: collect_cluster_state_def split: if_splits)
qed

lemma enough_room:
  fixes used capacity required :: "'a::len word"
  assumes "\<not> saturating_sub capacity used < required"
  shows "required = 0 \<or> unat used + unat required \<le> unat capacity"
proof (cases "required = 0")
  case False
  then have "0 < unat required" by (simp add: unat_gt_0)
  with assms show ?thesis unfolding word_less_nat_alt unat_saturating_sub by linarith
qed simp

lemma unat_widened: "unat (ucast m :: u64) = unat (m :: u32)"
proof -
  have "unat m < 2 ^ 64" using unat_bound [of m] by simp
  then show ?thesis by (simp add: unsigned_ucast_eq take_bit_nat_eq_self)
qed

lemma widened_zero: "(ucast m :: u64) = 0 \<longleftrightarrow> (m :: u32) = 0"
  by (metis unat_widened unat_eq_zero)

section \<open>Properties\<close>

text \<open>
  C25. A machine is only placed on a node that passes the scheduler's checks. When the scheduler
  decides, by whatever strategy, the chosen node is one of the workers it read, it is healthy and
  supports micro virtual machines; the vCPUs, memory and disk in use that the scheduler computed for
  it, together with those of the machine (5 GB of disk), do not exceed its capacity as natural numbers,
  where vCPUs and memory are not compared if the machine asks for none of them; and the anti-affinity
  checker accepts the node. The figures in use are those of \<open>get_cluster_resource_usage\<close>, which sums
  over the machines of the whole cluster, and the checker is the one of
  \<open>build_anti_affinity_checker\<close>, which takes every machine to be on node 0.
\<close>

theorem placement_sound:
  assumes "schedule_vm_placement rnd hash R K config strategy d = Ok decision"
  shows "\<exists>nodes n. get_cluster_resource_usage rnd R K d = Ok nodes \<and> n \<in> set nodes \<and>
           pd_target_node_id decision = nu_node_id n \<and> pd_selected_node_id decision = nu_node_id n \<and>
           nu_is_healthy n \<and> ''microvm'' \<in> set (wc_features (nu_capabilities n)) \<and>
           (vc_vcpus config = 0 \<or>
            unat (nu_used_vcpus n) + unat (vc_vcpus config) \<le> unat (wc_cpu_cores (nu_capabilities n))) \<and>
           (vc_memory config = 0 \<or>
            unat (nu_used_memory_mb n) + unat (vc_memory config) \<le> unat (wc_memory_mb (nu_capabilities n))) \<and>
           unat (nu_used_disk_gb n) + 5 \<le> unat (wc_disk_gb (nu_capabilities n)) \<and>
           (\<forall>rules. vc_anti_affinity config = Some rules \<longrightarrow>
              (\<exists>checker. build_anti_affinity_checker R (s_config K) d = Ok checker \<and>
                 check_placement checker (vc_name config) (pd_target_node_id decision) rules = None))"
proof -
  obtain ctx where c: "get_cluster_resource_usage rnd R K d = Ok (sc_node_usage ctx)"
    "sc_requirements ctx = requirements_of config"
    "vc_anti_affinity config \<noteq> None \<longrightarrow> (\<exists>checker.
       build_anti_affinity_checker R (s_config K) d = Ok checker \<and>
       sc_anti_affinity_checker ctx = Some checker)"
    "places ctx config decision"
    by (rule schedule_Ok [OF assms])
  from c(4) obtain n where n: "n \<in> set (sc_node_usage ctx)" "pd_target_node_id decision = nu_node_id n"
    "pd_selected_node_id decision = nu_node_id n"
    and fits: "can_accommodate n (requirements_of config)"
    and allowed: "placement_allowed ctx config (nu_node_id n)"
    by (auto simp: places_def candidate_iff c(2))
  note mem = unat_widened widened_zero
  have "nu_is_healthy n" "''microvm'' \<in> set (wc_features (nu_capabilities n))"
    using fits by (simp_all add: can_accommodate_def requirements_of_def)
  moreover have "vc_vcpus config = 0 \<or>
      unat (nu_used_vcpus n) + unat (vc_vcpus config) \<le> unat (wc_cpu_cores (nu_capabilities n))"
    using fits by (intro enough_room) (simp add: can_accommodate_def requirements_of_def available_vcpus_def)
  moreover have "(ucast (vc_memory config) :: u64) = 0 \<or> unat (nu_used_memory_mb n) +
      unat (ucast (vc_memory config) :: u64) \<le> unat (wc_memory_mb (nu_capabilities n))"
    using fits by (intro enough_room) (simp add: can_accommodate_def requirements_of_def available_memory_mb_def)
  moreover have "(5 :: u64) = 0 \<or>
      unat (nu_used_disk_gb n) + unat (5 :: u64) \<le> unat (wc_disk_gb (nu_capabilities n))"
    using fits by (intro enough_room) (simp add: can_accommodate_def requirements_of_def available_disk_gb_def)
  moreover have "\<exists>checker. build_anti_affinity_checker R (s_config K) d = Ok checker \<and>
      check_placement checker (vc_name config) (nu_node_id n) rules = None"
    if "vc_anti_affinity config = Some rules" for rules
    using c(3) allowed that by (auto simp: placement_allowed_def)
  ultimately show ?thesis using c(1) n unfolding mem by auto
qed

text \<open>
  C26. When some node can take the machine, the scoring strategies return a decision and choose the
  best candidate: the one with the highest availability score, with the lowest one, and with the
  lowest cost. The allowed cost increase has no influence on the last choice.
\<close>

theorem placement_optimal:
  assumes "filter_candidate_nodes ctx config \<noteq> []" and "distinct (map nu_node_id (sc_node_usage ctx))"
  shows "\<exists>most least cheapest.
           {most, least, cheapest} \<subseteq> set (filter_candidate_nodes ctx config) \<and>
           (\<exists>d. apply_placement_strategy rnd hash ctx config MostAvailable = Ok d \<and>
                pd_target_node_id d = nu_node_id most) \<and>
           (\<exists>d. apply_placement_strategy rnd hash ctx config LeastAvailable = Ok d \<and>
                pd_target_node_id d = nu_node_id least) \<and>
           (\<forall>increase network. \<exists>d.
                apply_placement_strategy rnd hash ctx config (CostOptimized increase network) = Ok d \<and>
                pd_target_node_id d = nu_node_id cheapest) \<and>
           (\<forall>n \<in> set (filter_candidate_nodes ctx config).
              calculate_availability_score rnd n \<le> calculate_availability_score rnd most \<and>
              calculate_availability_score rnd least \<le> calculate_availability_score rnd n \<and>
              calculate_placement_cost cheapest \<le> calculate_placement_cost n)"
proof -
  let ?c = "filter_candidate_nodes ctx config" and ?score = "calculate_availability_score rnd"
  obtain most where most: "max_by_key ?score ?c = Some most"
    using assms(1) by (cases "max_by_key ?score ?c") auto
  obtain least where least: "min_by_key ?score ?c = Some least"
    using assms(1) by (cases "min_by_key ?score ?c") auto
  obtain cheapest where cheap: "cheapest \<in> set ?c"
    "\<forall>n \<in> set ?c. calculate_placement_cost cheapest \<le> calculate_placement_cost n"
    "\<forall>increase. \<exists>d. apply_cost_optimized_strategy rnd ctx config increase = Ok d \<and>
       pd_target_node_id d = nu_node_id cheapest"
    using cost_optimal [OF assms] by blast
  show ?thesis
    using max_by_key_Some [OF most] min_by_key_Some [OF least] most least cheap
    by (intro exI [of _ most] exI [of _ least] exI [of _ cheapest])
      (simp add: apply_most_available_strategy_def apply_least_available_strategy_def)
qed

text \<open>
  The chosen node has a row in the worker table, under its id with the high byte first. The state
  machine writes the rows of workers with the low byte first, and reading such a key gives the id back
  only if its bytes read the same both ways.
\<close>

lemma chosen_worker_has_row:
  assumes "redb_ok R view tview rview" and "schedule_vm_placement rnd hash R K config strategy d = Ok decision"
  shows "view d WORKER_TABLE (Bytes (u64_to_be_bytes (pd_target_node_id decision))) \<noteq> None"
proof -
  obtain ctx where "get_cluster_resource_usage rnd R K d = Ok (sc_node_usage ctx)"
    and "places ctx config decision"
    by (rule schedule_Ok [OF assms(2)])
  then show ?thesis
    using cluster_usage_rows [OF assms(1)] by (auto simp: places_def candidate_iff)
qed

lemma worker_key_reversed:
  "u64_from_be_bytes (u64_to_le_bytes n) = n \<longleftrightarrow> u64_to_be_bytes n = u64_to_le_bytes n"
proof
  assume "u64_from_be_bytes (u64_to_le_bytes n) = n"
  then show "u64_to_be_bytes n = u64_to_le_bytes n" using u64_be_bytes [of "u64_to_le_bytes n"] by simp
next
  assume "u64_to_be_bytes n = u64_to_le_bytes n"
  then have "u64_from_be_bytes (u64_to_le_bytes n) = u64_from_le_bytes (rev (rev (u64_to_le_bytes n)))"
    by (simp add: u64_to_be_bytes_def u64_from_be_bytes_def)
  then show "u64_from_be_bytes (u64_to_le_bytes n) = n" by simp
qed

section \<open>Witnesses\<close>

text \<open>A database with one worker row, for a node with four processors.\<close>

definition sample_capabilities :: worker_capabilities where
  "sample_capabilities =
     \<lparr>wc_cpu_cores = 4, wc_memory_mb = 8192, wc_disk_gb = 100, wc_features = [''microvm'']\<rparr>"

definition sample_worker_codec :: codec where
  "sample_worker_codec = sample_codec\<lparr>c_worker := once_serde (''a'', sample_capabilities),
     c_topology := once_serde node_topology_default\<rparr>"

definition sample_scheduler_codec :: scheduler_codec where
  "sample_scheduler_codec =
     \<lparr>s_capabilities = once_serde sample_capabilities, s_status = table_serde [Online], s_config = no_serde\<rparr>"

definition registered_db :: mem_db where
  "registered_db = empty_db(
     WORKER_TABLE := [(Bytes [1, 0, 0, 0, 0, 0, 0, 0], [1])],
     WORKER_STATUS_TABLE := [(Bytes [1, 0, 0, 0, 0, 0, 0, 0], [0])],
     NODE_TOPOLOGY_TABLE := [(Bytes [1, 0, 0, 0, 0, 0, 0, 0], [1])])"

lemma one_le_bytes: "u64_to_le_bytes 1 = [1, 0, 0, 0, 0, 0, 0, 0]"
proof -
  have eight: "(8 :: nat) = Suc (Suc (Suc (Suc (Suc (Suc (Suc (Suc 0)))))))" by simp
  show ?thesis unfolding u64_to_le_bytes_def eight le_bytes.simps by simp
qed

definition sample_node_usage :: node_resource_usage where
  "sample_node_usage =
     \<lparr>nu_node_id = 0x100000000000000, nu_is_healthy = True, nu_capabilities = sample_capabilities,
      nu_used_vcpus = 0, nu_used_memory_mb = 0, nu_used_disk_gb = 0, nu_running_vms = 0,
      nu_topology = None, nu_cost_per_hour = None,
      nu_utilization = \<lparr>cpu_percent = 0, memory_percent = 0, disk_percent = 0\<rparr>\<rparr>"

lemma swapped_one: "u64_from_be_bytes [1, 0, 0, 0, 0, 0, 0, 0] = 0x100000000000000"
  by (simp add: u64_from_be_bytes_def u64_from_le_bytes_def)

lemma swapped_one_bytes: "u64_to_be_bytes 0x100000000000000 = [1, 0, 0, 0, 0, 0, 0, 0]"
  using u64_be_bytes [of "[1, 0, 0, 0, 0, 0, 0, 0]"] by (simp add: swapped_one)

lemma sample_usage:
  "get_cluster_resource_usage (\<lambda>x. x) mem_redb sample_scheduler_codec registered_db = Ok [sample_node_usage]"
  by (simp add: get_cluster_resource_usage_def or_err_def open_for_reading_def mem_redb_def mem_rows_def
      registered_db_def node_of_row_def swapped_one swapped_one_bytes sample_scheduler_codec_def once_serde_def
      mem_view_def table_serde_def calculate_node_resource_usage_def empty_db_def update_utilization_def
      sample_node_usage_def ratio_def)

definition sample_context :: scheduling_context where
  "sample_context = \<lparr>sc_requirements = requirements_of vm_config_default,
     sc_node_usage = [sample_node_usage], sc_anti_affinity_checker = None\<rparr>"

lemma sample_fits: "can_accommodate sample_node_usage (requirements_of vm_config_default)"
  by (simp add: can_accommodate_def requirements_of_def vm_config_default_def sample_node_usage_def
      sample_capabilities_def available_vcpus_def available_memory_mb_def available_disk_gb_def
      saturating_sub_def)

lemma sample_candidates: "filter_candidate_nodes sample_context vm_config_default = [sample_node_usage]"
  by (simp add: filter_candidate_nodes_def sample_context_def sample_fits placement_allowed_def)

lemma sample_scheduled:
  "\<exists>d. schedule_vm_placement (\<lambda>x. x) (\<lambda>_. 0) mem_redb sample_scheduler_codec vm_config_default
         MostAvailable registered_db = Ok d \<and> pd_target_node_id d = 0x100000000000000"
proof -
  have "collect_cluster_state (\<lambda>x. x) mem_redb sample_scheduler_codec vm_config_default registered_db =
      Ok sample_context"
    by (simp add: collect_cluster_state_def sample_usage sample_context_def vm_config_default_def)
  then show ?thesis
    by (simp add: schedule_vm_placement_def apply_most_available_strategy_def sample_candidates Let_def)
      (simp add: sample_node_usage_def)
qed

theorem placement_sound_witness:
  "\<exists>(n :: node_resource_usage) d. schedule_vm_placement (\<lambda>x. x) (\<lambda>_. 0) mem_redb sample_scheduler_codec vm_config_default
         MostAvailable registered_db = Ok d \<and> pd_target_node_id d = nu_node_id n \<and> nu_is_healthy n \<and>
     unat (nu_used_disk_gb n) + 5 \<le> unat (wc_disk_gb (nu_capabilities n))"
proof -
  obtain d where d: "schedule_vm_placement (\<lambda>x. x) (\<lambda>_. 0) mem_redb sample_scheduler_codec
      vm_config_default MostAvailable registered_db = Ok d"
    using sample_scheduled by blast
  from placement_sound [OF d] obtain n :: node_resource_usage where "pd_target_node_id d = nu_node_id n" "nu_is_healthy n"
    "unat (nu_used_disk_gb n) + 5 \<le> unat (wc_disk_gb (nu_capabilities n))"
    by (elim exE conjE) (erule (2) that)
  with d show ?thesis by (intro exI conjI)
qed

theorem placement_optimal_witness:
  "\<exists>d. apply_placement_strategy (\<lambda>x. x) (\<lambda>_. 0) sample_context vm_config_default (CostOptimized 10 True) = Ok d \<and>
     pd_target_node_id d = 0x100000000000000"
proof -
  have "distinct (map nu_node_id (sc_node_usage sample_context))" by (simp add: sample_context_def)
  from placement_optimal [OF _ this, of vm_config_default "\<lambda>x. x" "\<lambda>_. 0"] show ?thesis
    unfolding sample_candidates by (auto simp: sample_node_usage_def)
qed

end
