(* ===== verification/Resource_Management.thy ===== *)
theory Resource_Management
  imports Vm_Scheduler Raft_Codec
begin

text \<open>
  Reservations, overcommit policies and admission control (\<open>resource_management.rs\<close>,
  \<open>resource_admission.rs\<close>): the resource state of a node, the manager of all nodes, and the
  controller that rebuilds the manager from the database before it admits a machine. The theory shows
  that allocations stay within the effective capacity of a node without wrap-around, and that an
  admitted machine fits beside the machines that are recorded for the node. Rounding is an argument;
  the order in which a hash map is traversed is an argument where the code depends on it.
\<close>

section \<open>Policies and states\<close>

record overcommit_policy =
  cpu_overcommit_ratio :: real
  memory_overcommit_ratio :: real
  disk_overcommit_ratio :: real
  enforce_hard_limits :: bool
  system_reserve_percentage :: real

definition overcommit_policy_default :: "(real \<Rightarrow> real) \<Rightarrow> overcommit_policy" where
  "overcommit_policy_default rnd =
     \<lparr>cpu_overcommit_ratio = 1, memory_overcommit_ratio = 1, disk_overcommit_ratio = 1,
      enforce_hard_limits = True, system_reserve_percentage = rnd 0.1\<rparr>"

definition overcommit_policy_conservative :: "(real \<Rightarrow> real) \<Rightarrow> overcommit_policy" where
  "overcommit_policy_conservative rnd = overcommit_policy_default rnd"

definition overcommit_policy_moderate :: "(real \<Rightarrow> real) \<Rightarrow> overcommit_policy" where
  "overcommit_policy_moderate rnd =
     \<lparr>cpu_overcommit_ratio = 2, memory_overcommit_ratio = rnd 1.2, disk_overcommit_ratio = rnd 1.1,
      enforce_hard_limits = True, system_reserve_percentage = rnd 0.15\<rparr>"

definition overcommit_policy_aggressive :: "(real \<Rightarrow> real) \<Rightarrow> overcommit_policy" where
  "overcommit_policy_aggressive rnd =
     \<lparr>cpu_overcommit_ratio = 4, memory_overcommit_ratio = rnd 1.5, disk_overcommit_ratio = rnd 1.3,
      enforce_hard_limits = False, system_reserve_percentage = rnd 0.05\<rparr>"

record resource_reservation =
  rsv_id :: string
  rsv_owner :: string
  rsv_cpu_cores :: u32
  rsv_memory_mb :: u64
  rsv_disk_gb :: u64
  rsv_priority :: u32
  rsv_is_hard :: bool
  rsv_expires_at :: "time option"

text \<open>\<open>PhysicalResources\<close> and \<open>AllocatedResources\<close> have the same fields.\<close>

record node_resources =
  nr_cpu_cores :: u32
  nr_memory_mb :: u64
  nr_disk_gb :: u64

definition no_resources :: node_resources where
  "no_resources = \<lparr>nr_cpu_cores = 0, nr_memory_mb = 0, nr_disk_gb = 0\<rparr>"

record node_resource_state =
  ns_physical :: node_resources
  ns_allocated :: node_resources
  ns_reservations :: "string \<rightharpoonup> resource_reservation"
  ns_policy :: overcommit_policy

definition node_resource_state_new :: "u32 \<Rightarrow> u64 \<Rightarrow> u64 \<Rightarrow> overcommit_policy \<Rightarrow> node_resource_state" where
  "node_resource_state_new cpu_cores memory_mb disk_gb policy =
     \<lparr>ns_physical = \<lparr>nr_cpu_cores = cpu_cores, nr_memory_mb = memory_mb, nr_disk_gb = disk_gb\<rparr>,
      ns_allocated = no_resources, ns_reservations = Map.empty, ns_policy = policy\<rparr>"

definition f64_as_u32 :: "real \<Rightarrow> u32" where
  "f64_as_u32 x = (if x \<le> 0 then 0 else if x \<ge> 2 ^ 32 then - 1 else of_int \<lfloor>x\<rfloor>)"

definition scaled :: "(real \<Rightarrow> real) \<Rightarrow> overcommit_policy \<Rightarrow> real \<Rightarrow> nat \<Rightarrow> real" where
  "scaled rnd policy overcommit n =
     rnd (rnd (rnd (real n) * overcommit) * rnd (1 - system_reserve_percentage policy))"

definition effective_capacity :: "(real \<Rightarrow> real) \<Rightarrow> node_resource_state \<Rightarrow> node_resources" where
  "effective_capacity rnd s =
     (let policy = ns_policy s; physical = ns_physical s
      in \<lparr>nr_cpu_cores = f64_as_u32 (scaled rnd policy (cpu_overcommit_ratio policy) (unat (nr_cpu_cores physical))),
          nr_memory_mb = f64_as_u64 (scaled rnd policy (memory_overcommit_ratio policy) (unat (nr_memory_mb physical))),
          nr_disk_gb = f64_as_u64 (scaled rnd policy (disk_overcommit_ratio policy) (unat (nr_disk_gb physical)))\<rparr>)"

definition available_resources :: "(real \<Rightarrow> real) \<Rightarrow> node_resource_state \<Rightarrow> node_resources" where
  "available_resources rnd s =
     (let effective = effective_capacity rnd s; allocated = ns_allocated s
      in \<lparr>nr_cpu_cores = saturating_sub (nr_cpu_cores effective) (nr_cpu_cores allocated),
          nr_memory_mb = saturating_sub (nr_memory_mb effective) (nr_memory_mb allocated),
          nr_disk_gb = saturating_sub (nr_disk_gb effective) (nr_disk_gb allocated)\<rparr>)"

definition can_allocate :: "(real \<Rightarrow> real) \<Rightarrow> u32 \<Rightarrow> u64 \<Rightarrow> u64 \<Rightarrow> node_resource_state \<Rightarrow> bool" where
  "can_allocate rnd cpu memory disk s \<longleftrightarrow>
     (let available = available_resources rnd s
      in nr_cpu_cores available \<ge> cpu \<and> nr_memory_mb available \<ge> memory \<and> nr_disk_gb available \<ge> disk)"

definition allocate ::
  "(real \<Rightarrow> real) \<Rightarrow> u32 \<Rightarrow> u64 \<Rightarrow> u64 \<Rightarrow> node_resource_state \<Rightarrow> unit outcome \<times> node_resource_state" where
  "allocate rnd cpu memory disk s =
     (if \<not> can_allocate rnd cpu memory disk s then (Err InsufficientResources, s)
      else let a = ns_allocated s
           in (Ok (), s\<lparr>ns_allocated := \<lparr>nr_cpu_cores = nr_cpu_cores a + cpu,
                 nr_memory_mb = nr_memory_mb a + memory, nr_disk_gb = nr_disk_gb a + disk\<rparr>\<rparr>))"

definition release :: "u32 \<Rightarrow> u64 \<Rightarrow> u64 \<Rightarrow> node_resource_state \<Rightarrow> node_resource_state" where
  "release cpu memory disk s =
     (let a = ns_allocated s
      in s\<lparr>ns_allocated := \<lparr>nr_cpu_cores = saturating_sub (nr_cpu_cores a) cpu,
            nr_memory_mb = saturating_sub (nr_memory_mb a) memory,
            nr_disk_gb = saturating_sub (nr_disk_gb a) disk\<rparr>\<rparr>)"

definition add_reservation ::
  "(real \<Rightarrow> real) \<Rightarrow> resource_reservation \<Rightarrow> node_resource_state \<Rightarrow> unit outcome \<times> node_resource_state" where
  "add_reservation rnd v s =
     (if rsv_is_hard v \<and> \<not> can_allocate rnd (rsv_cpu_cores v) (rsv_memory_mb v) (rsv_disk_gb v) s
      then (Err InsufficientResources, s)
      else db_seq (allocate rnd (rsv_cpu_cores v) (rsv_memory_mb v) (rsv_disk_gb v) s) (\<lambda>s.
             (Ok (), s\<lparr>ns_reservations := (ns_reservations s)(rsv_id v \<mapsto> v)\<rparr>)))"

definition remove_reservation ::
  "string \<Rightarrow> node_resource_state \<Rightarrow> resource_reservation option \<times> node_resource_state" where
  "remove_reservation i s =
     (case ns_reservations s i of
        None \<Rightarrow> (None, s)
      | Some v \<Rightarrow>
          (Some v, release (rsv_cpu_cores v) (rsv_memory_mb v) (rsv_disk_gb v)
             (s\<lparr>ns_reservations := (ns_reservations s)(i := None)\<rparr>)))"

definition reservation_expired :: "time \<Rightarrow> node_resource_state \<Rightarrow> string \<Rightarrow> bool" where
  "reservation_expired now s i \<longleftrightarrow>
     (case Option.bind (ns_reservations s i) rsv_expires_at of None \<Rightarrow> False | Some t \<Rightarrow> t < now)"

text \<open>\<open>order\<close> lists the keys of the reservations in the order of the traversal.\<close>

definition cleanup_expired_reservations ::
  "time \<Rightarrow> string list \<Rightarrow> node_resource_state \<Rightarrow> node_resource_state" where
  "cleanup_expired_reservations now order s =
     fold (\<lambda>i s. snd (remove_reservation i s)) (filter (reservation_expired now s) order) s"

definition node_utilization_percentages ::
  "(real \<Rightarrow> real) \<Rightarrow> node_resource_state \<Rightarrow> real \<times> real \<times> real" where
  "node_utilization_percentages rnd s =
     (let p = ns_physical s; a = ns_allocated s
      in (rnd (ratio rnd (nr_cpu_cores a) (nr_cpu_cores p) * 100),
          rnd (ratio rnd (nr_memory_mb a) (nr_memory_mb p) * 100),
          rnd (ratio rnd (nr_disk_gb a) (nr_disk_gb p) * 100)))"

definition is_overcommitted :: "(real \<Rightarrow> real) \<Rightarrow> node_resource_state \<Rightarrow> bool" where
  "is_overcommitted rnd s \<longleftrightarrow>
     (let (cpu, memory, disk) = node_utilization_percentages rnd s; policy = ns_policy s
      in cpu > rnd (cpu_overcommit_ratio policy * 100) \<or>
         memory > rnd (memory_overcommit_ratio policy * 100) \<or>
         disk > rnd (disk_overcommit_ratio policy * 100))"

section \<open>The manager of the cluster\<close>

record cluster_resource_manager =
  cm_node_states :: "u64 \<rightharpoonup> node_resource_state"
  cm_default_policy :: overcommit_policy

definition cluster_resource_manager_new :: "overcommit_policy \<Rightarrow> cluster_resource_manager" where
  "cluster_resource_manager_new policy = \<lparr>cm_node_states = Map.empty, cm_default_policy = policy\<rparr>"

definition register_node ::
  "u64 \<Rightarrow> u32 \<Rightarrow> u64 \<Rightarrow> u64 \<Rightarrow> cluster_resource_manager \<Rightarrow> cluster_resource_manager" where
  "register_node node_id cpu_cores memory_mb disk_gb m =
     m\<lparr>cm_node_states := (cm_node_states m)(node_id \<mapsto>
        node_resource_state_new cpu_cores memory_mb disk_gb (cm_default_policy m))\<rparr>"

definition update_node_policy ::
  "u64 \<Rightarrow> overcommit_policy \<Rightarrow> cluster_resource_manager \<Rightarrow> unit outcome \<times> cluster_resource_manager" where
  "update_node_policy node_id policy m =
     (case cm_node_states m node_id of
        None \<Rightarrow> (Err (NodeNotFound node_id), m)
      | Some s \<Rightarrow> (Ok (), m\<lparr>cm_node_states := (cm_node_states m)(node_id \<mapsto> s\<lparr>ns_policy := policy\<rparr>)\<rparr>))"

definition find_nodes_with_capacity ::
  "(real \<Rightarrow> real) \<Rightarrow> u32 \<Rightarrow> u64 \<Rightarrow> u64 \<Rightarrow> u64 list \<Rightarrow> cluster_resource_manager \<Rightarrow> u64 list" where
  "find_nodes_with_capacity rnd cpu memory disk order m =
     filter (\<lambda>i. case cm_node_states m i of None \<Rightarrow> False | Some s \<Rightarrow> can_allocate rnd cpu memory disk s) order"

record manager_summary =
  ms_total_physical :: node_resources
  ms_total_allocated :: node_resources
  ms_total_reserved :: node_resources
  ms_node_count :: nat

definition add_resources :: "node_resources \<Rightarrow> node_resources \<Rightarrow> node_resources" where
  "add_resources a b = \<lparr>nr_cpu_cores = nr_cpu_cores a + nr_cpu_cores b,
     nr_memory_mb = nr_memory_mb a + nr_memory_mb b, nr_disk_gb = nr_disk_gb a + nr_disk_gb b\<rparr>"

definition reserved_resources :: "resource_reservation \<Rightarrow> node_resources" where
  "reserved_resources v =
     \<lparr>nr_cpu_cores = rsv_cpu_cores v, nr_memory_mb = rsv_memory_mb v, nr_disk_gb = rsv_disk_gb v\<rparr>"

text \<open>\<open>nodes\<close> and \<open>rsvs\<close> list the keys of the two maps in the order of the traversals.\<close>

definition cluster_summary ::
  "u64 list \<Rightarrow> (u64 \<Rightarrow> string list) \<Rightarrow> cluster_resource_manager \<Rightarrow> manager_summary" where
  "cluster_summary nodes rsvs m =
     (let states = List.map_filter (\<lambda>i. map_option (Pair i) (cm_node_states m i)) nodes
      in \<lparr>ms_total_physical = fold (\<lambda>(_, s) a. add_resources a (ns_physical s)) states no_resources,
          ms_total_allocated = fold (\<lambda>(_, s) a. add_resources a (ns_allocated s)) states no_resources,
          ms_total_reserved =
            fold (\<lambda>(i, s). fold (\<lambda>v a. add_resources a (reserved_resources v))
              (List.map_filter (ns_reservations s) (rsvs i))) states no_resources,
          ms_node_count = length states\<rparr>)"

section \<open>Admission control\<close>

record admission_control_config =
  ac_strict_mode :: bool
  ac_default_overcommit_policy :: overcommit_policy
  ac_preemptible_discount :: real
  ac_enable_system_reserve :: bool

definition admission_control_config_default :: "(real \<Rightarrow> real) \<Rightarrow> admission_control_config" where
  "admission_control_config_default rnd =
     \<lparr>ac_strict_mode = False, ac_default_overcommit_policy = overcommit_policy_moderate rnd,
      ac_preemptible_discount = rnd 0.75, ac_enable_system_reserve = True\<rparr>"

text \<open>The resources a machine is charged with.\<close>

definition vm_charge ::
  "(real \<Rightarrow> real) \<Rightarrow> admission_control_config \<Rightarrow> vm_config \<Rightarrow> node_resources" where
  "vm_charge rnd A config =
     (if vc_preemptible config
      then \<lparr>nr_cpu_cores = f64_as_u32 (rnd (real (unat (vc_vcpus config)) * ac_preemptible_discount A)),
            nr_memory_mb = f64_as_u64 (rnd (real (unat (vc_memory config)) * ac_preemptible_discount A)),
            nr_disk_gb = 5\<rparr>
      else \<lparr>nr_cpu_cores = vc_vcpus config, nr_memory_mb = ucast (vc_memory config), nr_disk_gb = 5\<rparr>)"

definition charge_node ::
  "(real \<Rightarrow> real) \<Rightarrow> node_resources \<Rightarrow> node_resource_state \<Rightarrow> unit outcome \<times> node_resource_state" where
  "charge_node rnd c = allocate rnd (nr_cpu_cores c) (nr_memory_mb c) (nr_disk_gb c)"

fun register_workers ::
  "codec \<Rightarrow> (db_key \<times> blob) option list \<Rightarrow> cluster_resource_manager \<Rightarrow>
     unit outcome \<times> cluster_resource_manager" where
  "register_workers C [] m = (Ok (), m)"
| "register_workers C (None # xs) m = (Err (Storage ''storage_operation''), m)"
| "register_workers C (Some (k, b) # xs) m =
     (if length (key_bytes k) \<noteq> 8 then (Err (Serialization ''convert node_id key to 8-byte array''), m)
      else case dec (c_worker C) b of
             None \<Rightarrow> (Err (Serialization ''deserialize worker capabilities''), m)
           | Some (_, c) \<Rightarrow>
               register_workers C xs (register_node (u64_from_le_bytes (key_bytes k))
                 (wc_cpu_cores c) (wc_memory_mb c) (wc_disk_gb c) m))"

definition clear_allocations :: "cluster_resource_manager \<Rightarrow> cluster_resource_manager" where
  "clear_allocations m = m\<lparr>cm_node_states := (\<lambda>i. map_option (\<lambda>s.
     s\<lparr>ns_allocated := no_resources, ns_reservations := Map.empty\<rparr>) (cm_node_states m i))\<rparr>"

text \<open>A machine that is neither stopped nor failed is charged to its node if it fits there.\<close>

definition charge_vm ::
  "(real \<Rightarrow> real) \<Rightarrow> admission_control_config \<Rightarrow> vm_state \<Rightarrow> cluster_resource_manager \<Rightarrow>
     cluster_resource_manager" where
  "charge_vm rnd A v m =
     (if vs_status v = Stopped \<or> vs_status v = Failed then m
      else case cm_node_states m (vs_node_id v) of
             None \<Rightarrow> m
           | Some s \<Rightarrow> m\<lparr>cm_node_states := (cm_node_states m)(vs_node_id v \<mapsto>
                          snd (charge_node rnd (vm_charge rnd A (vs_config v)) s))\<rparr>)"

fun charge_vms ::
  "(real \<Rightarrow> real) \<Rightarrow> admission_control_config \<Rightarrow> codec \<Rightarrow> (db_key \<times> blob) option list \<Rightarrow>
     cluster_resource_manager \<Rightarrow> unit outcome \<times> cluster_resource_manager" where
  "charge_vms rnd A C [] m = (Ok (), m)"
| "charge_vms rnd A C (None # xs) m = (Err (Storage ''storage_operation''), m)"
| "charge_vms rnd A C (Some (_, b) # xs) m =
     charge_vms rnd A C xs (case dec (c_vm_state C) b of None \<Rightarrow> m | Some v \<Rightarrow> charge_vm rnd A v m)"

definition open_reading :: "('d, 't, 'r) redb \<Rightarrow> table_id \<Rightarrow> 'r \<Rightarrow> unit outcome" where
  "open_reading R T r = (if open_read R T r then Ok () else Err StorageTableError)"

definition iterate :: "('d, 't, 'r) redb \<Rightarrow> table_id \<Rightarrow> 'r \<Rightarrow> (db_key \<times> blob) option list outcome" where
  "iterate R T r = or_err (Storage ''storage_operation'') (iter_read R T r)"

definition with_rows ::
  "'a outcome \<Rightarrow> ('a \<Rightarrow> 's \<Rightarrow> unit outcome \<times> 's) \<Rightarrow> 's \<Rightarrow> unit outcome \<times> 's" where
  "with_rows x f s =
     (case x of Ok y \<Rightarrow> f y s | Err e \<Rightarrow> (Err e, s) | Panics \<Rightarrow> (Panics, s) | Blocks \<Rightarrow> (Blocks, s))"

definition sync_resource_state ::
  "(real \<Rightarrow> real) \<Rightarrow> ('d, 't, 'r) redb \<Rightarrow> codec \<Rightarrow> admission_control_config \<Rightarrow> 'd \<Rightarrow>
     cluster_resource_manager \<Rightarrow> unit outcome \<times> cluster_resource_manager" where
  "sync_resource_state rnd R C A d =
     with_rows (obind (read_txn R d) (\<lambda>r.
                obind (open_reading R WORKER_TABLE r) (\<lambda>_.
                obind (open_reading R VM_STATE_TABLE r) (\<lambda>_. Ok r)))) (\<lambda>r.
     with_rows (iterate R WORKER_TABLE r) (\<lambda>workers m.
       db_seq (register_workers C workers m) (\<lambda>m.
         with_rows (iterate R VM_STATE_TABLE r) (charge_vms rnd A C) (clear_allocations m))))"

definition get_worker_capabilities ::
  "('d, 't, 'r) redb \<Rightarrow> codec \<Rightarrow> u64 \<Rightarrow> 'd \<Rightarrow> worker_capabilities outcome" where
  "get_worker_capabilities R C node_id d =
     obind (read_txn R d) (\<lambda>r.
     obind (open_reading R WORKER_TABLE r) (\<lambda>_.
     obind (or_err (Storage ''storage_operation'')
              (get_read R WORKER_TABLE (Bytes (u64_to_le_bytes node_id)) r)) (\<lambda>row.
       case row of
         None \<Rightarrow> Err (NodeNotFound node_id)
       | Some b \<Rightarrow> obind (or_err (Serialization ''deserialize worker capabilities'') (dec (c_worker C) b))
                     (\<lambda>(_, c). Ok c))))"

definition fits_strictly :: "node_resource_state \<Rightarrow> node_resources \<Rightarrow> bool" where
  "fits_strictly s c \<longleftrightarrow>
     \<not> nr_cpu_cores (ns_allocated s) + nr_cpu_cores c > nr_cpu_cores (ns_physical s) \<and>
     \<not> nr_memory_mb (ns_allocated s) + nr_memory_mb c > nr_memory_mb (ns_physical s)"

definition admission_check ::
  "(real \<Rightarrow> real) \<Rightarrow> ('d, 't, 'r) redb \<Rightarrow> codec \<Rightarrow> admission_control_config \<Rightarrow> vm_config \<Rightarrow> u64 \<Rightarrow> 'd \<Rightarrow>
     cluster_resource_manager \<Rightarrow> unit outcome" where
  "admission_check rnd R C A config node_id d m =
     (case cm_node_states m node_id of
        None \<Rightarrow> Err (NodeNotFound node_id)
      | Some s \<Rightarrow>
          let c = vm_charge rnd A config
          in if (if ac_strict_mode A then fits_strictly s c
                 else can_allocate rnd (nr_cpu_cores c) (nr_memory_mb c) (nr_disk_gb c) s)
             then obind (get_worker_capabilities R C node_id d) (\<lambda>caps.
                    if ''microvm'' \<in> set (wc_features caps) then Ok () else Err SchedulingError)
             else Err InsufficientResources)"

text \<open>The database is read twice, as \<open>d\<close> by the synchronization and as \<open>d'\<close> for the features.\<close>

definition controller_validate ::
  "(real \<Rightarrow> real) \<Rightarrow> ('d, 't, 'r) redb \<Rightarrow> codec \<Rightarrow> admission_control_config \<Rightarrow> vm_config \<Rightarrow> u64 \<Rightarrow>
     'd \<Rightarrow> 'd \<Rightarrow> cluster_resource_manager \<Rightarrow> unit outcome \<times> cluster_resource_manager" where
  "controller_validate rnd R C A config node_id d d' m =
     db_seq (sync_resource_state rnd R C A d m) (\<lambda>m.
       (admission_check rnd R C A config node_id d' m, m))"

definition allocate_vm_resources ::
  "(real \<Rightarrow> real) \<Rightarrow> admission_control_config \<Rightarrow> vm_config \<Rightarrow> u64 \<Rightarrow> cluster_resource_manager \<Rightarrow>
     unit outcome \<times> cluster_resource_manager" where
  "allocate_vm_resources rnd A config node_id m =
     (case cm_node_states m node_id of
        None \<Rightarrow> (Err (NodeNotFound node_id), m)
      | Some s \<Rightarrow>
          (case charge_node rnd (vm_charge rnd A config) s of
             (r, s') \<Rightarrow> (r, m\<lparr>cm_node_states := (cm_node_states m)(node_id \<mapsto> s')\<rparr>)))"

definition release_vm_resources ::
  "(real \<Rightarrow> real) \<Rightarrow> admission_control_config \<Rightarrow> vm_config \<Rightarrow> u64 \<Rightarrow> cluster_resource_manager \<Rightarrow>
     unit outcome \<times> cluster_resource_manager" where
  "release_vm_resources rnd A config node_id m =
     (case cm_node_states m node_id of
        None \<Rightarrow> (Ok (), m)
      | Some s \<Rightarrow>
          let c = vm_charge rnd A config
          in (Ok (), m\<lparr>cm_node_states := (cm_node_states m)(node_id \<mapsto>
                release (nr_cpu_cores c) (nr_memory_mb c) (nr_disk_gb c) s)\<rparr>))"

record resource_utilization_summary =
  us_total :: node_resources
  us_allocated :: node_resources
  us_cpu_utilization_percent :: real
  us_memory_utilization_percent :: real
  us_disk_utilization_percent :: real
  us_node_count :: nat

definition get_resource_summary ::
  "(real \<Rightarrow> real) \<Rightarrow> ('d, 't, 'r) redb \<Rightarrow> codec \<Rightarrow> admission_control_config \<Rightarrow> u64 list \<Rightarrow>
     (u64 \<Rightarrow> string list) \<Rightarrow> 'd \<Rightarrow> cluster_resource_manager \<Rightarrow>
     resource_utilization_summary outcome \<times> cluster_resource_manager" where
  "get_resource_summary rnd R C A nodes rsvs d m =
     (case sync_resource_state rnd R C A d m of
        (r, m') \<Rightarrow> (obind r (\<lambda>_.
          let u = cluster_summary nodes rsvs m'; p = ms_total_physical u; a = ms_total_allocated u
          in Ok \<lparr>us_total = p, us_allocated = a,
                us_cpu_utilization_percent = rnd (ratio rnd (nr_cpu_cores a) (nr_cpu_cores p) * 100),
                us_memory_utilization_percent = rnd (ratio rnd (nr_memory_mb a) (nr_memory_mb p) * 100),
                us_disk_utilization_percent = rnd (ratio rnd (nr_disk_gb a) (nr_disk_gb p) * 100),
                us_node_count = ms_node_count u\<rparr>), m'))"

section \<open>The ledger of a node\<close>

text \<open>The amount of each resource as a number, and the recorded load of a node.\<close>

datatype resource_dim = DCpu | DMemory | DDisk

fun units :: "resource_dim \<Rightarrow> node_resources \<Rightarrow> nat" where
  "units DCpu a = unat (nr_cpu_cores a)"
| "units DMemory a = unat (nr_memory_mb a)"
| "units DDisk a = unat (nr_disk_gb a)"

datatype node_event =
    NAllocate node_resources
  | NRelease node_resources
  | NAddReservation resource_reservation
  | NRemoveReservation string
  | NCleanup time "string list"

fun node_step :: "(real \<Rightarrow> real) \<Rightarrow> node_resource_state \<Rightarrow> node_event \<Rightarrow> node_resource_state" where
  "node_step rnd s (NAllocate c) = snd (charge_node rnd c s)"
| "node_step rnd s (NRelease c) = release (nr_cpu_cores c) (nr_memory_mb c) (nr_disk_gb c) s"
| "node_step rnd s (NAddReservation v) = snd (add_reservation rnd v s)"
| "node_step rnd s (NRemoveReservation i) = snd (remove_reservation i s)"
| "node_step rnd s (NCleanup now order) = cleanup_expired_reservations now order s"

text \<open>The ledger: a step together with the multiset of the allocations that are still in use.\<close>

fun ledger_step ::
  "(real \<Rightarrow> real) \<Rightarrow> node_resource_state \<times> node_resources multiset \<Rightarrow> node_event \<Rightarrow>
     node_resource_state \<times> node_resources multiset" where
  "ledger_step rnd (s, live) (NAllocate c) =
     (node_step rnd s (NAllocate c), if is_ok (fst (charge_node rnd c s)) then add_mset c live else live)"
| "ledger_step rnd (s, live) (NRelease c) = (node_step rnd s (NRelease c), live - {#c#})"
| "ledger_step rnd (s, live) e = (node_step rnd s e, live)"

text \<open>The callers release what they hold, and give every reservation an identifier of its own.\<close>

fun ledger_enabled :: "node_resource_state \<times> node_resources multiset \<Rightarrow> node_event \<Rightarrow> bool" where
  "ledger_enabled (s, live) (NRelease c) \<longleftrightarrow> c \<in># live"
| "ledger_enabled (s, live) (NAddReservation v) \<longleftrightarrow> ns_reservations s (rsv_id v) = None"
| "ledger_enabled (s, live) (NCleanup now order) \<longleftrightarrow> distinct order"
| "ledger_enabled (s, live) e \<longleftrightarrow> True"

definition reserved_units :: "resource_dim \<Rightarrow> (string \<rightharpoonup> resource_reservation) \<Rightarrow> nat" where
  "reserved_units k m = (\<Sum>i \<in> dom m. units k (reserved_resources (the (m i))))"

definition held_units :: "resource_dim \<Rightarrow> node_resources multiset \<Rightarrow> nat" where
  "held_units k live = (\<Sum>c \<in># live. units k c)"

definition within_capacity :: "(real \<Rightarrow> real) \<Rightarrow> node_resource_state \<Rightarrow> bool" where
  "within_capacity rnd s \<longleftrightarrow> (\<forall>k. units k (ns_allocated s) \<le> units k (effective_capacity rnd s))"

definition ledger_inv :: "node_resource_state \<times> node_resources multiset \<Rightarrow> bool" where
  "ledger_inv = (\<lambda>(s, live). finite (dom (ns_reservations s)) \<and>
     (\<forall>k. units k (ns_allocated s) = held_units k live + reserved_units k (ns_reservations s)))"

text \<open>What the row of a machine asks of node \<open>n\<close>, and the sum over the rows of a table.\<close>

definition row_units ::
  "(real \<Rightarrow> real) \<Rightarrow> admission_control_config \<Rightarrow> codec \<Rightarrow> u64 \<Rightarrow> resource_dim \<Rightarrow> blob \<Rightarrow> nat" where
  "row_units rnd A C n k b =
     (case dec (c_vm_state C) b of
        None \<Rightarrow> 0
      | Some v \<Rightarrow> if vs_status v = Stopped \<or> vs_status v = Failed \<or> vs_node_id v \<noteq> n then 0
                  else units k (vm_charge rnd A (vs_config v)))"

definition recorded_load ::
  "(real \<Rightarrow> real) \<Rightarrow> admission_control_config \<Rightarrow> codec \<Rightarrow> u64 \<Rightarrow> (db_key \<rightharpoonup> blob) \<Rightarrow> resource_dim \<Rightarrow> nat" where
  "recorded_load rnd A C n rows k = (\<Sum>i \<in> dom rows. row_units rnd A C n k (the (rows i)))"

section \<open>Lemmas\<close>

lemma all_dims: "(\<forall>k. P k) \<longleftrightarrow> P DCpu \<and> P DMemory \<and> P DDisk"
  by (metis resource_dim.exhaust)

lemma units_no_resources [simp]: "units k no_resources = 0"
  by (cases k) (simp_all add: no_resources_def)

lemma effective_capacity_cong:
  "ns_physical s = ns_physical s' \<Longrightarrow> ns_policy s = ns_policy s' \<Longrightarrow>
     effective_capacity rnd s = effective_capacity rnd s'"
  by (simp add: effective_capacity_def)

lemma effective_capacity_upd [simp]:
  "effective_capacity rnd (s\<lparr>ns_allocated := a\<rparr>) = effective_capacity rnd s"
  "effective_capacity rnd (s\<lparr>ns_reservations := v\<rparr>) = effective_capacity rnd s"
  by (simp_all add: effective_capacity_def)

lemma can_allocate_units:
  "can_allocate rnd (nr_cpu_cores c) (nr_memory_mb c) (nr_disk_gb c) s \<longleftrightarrow>
     (\<forall>k. units k c \<le> units k (effective_capacity rnd s) - units k (ns_allocated s))"
  by (simp add: can_allocate_def available_resources_def all_dims Let_def word_le_nat_alt unat_saturating_sub)

lemma unat_add_fits:
  fixes a b c :: "'a::len word"
  assumes "unat b \<le> unat c - unat a"
  shows "unat (a + b) = unat a + unat b"
proof -
  have "unat a + unat b < 2 ^ LENGTH('a)"
  proof (cases "unat a \<le> unat c")
    case True
    then have "unat a + unat b \<le> unat c" using assms by simp
    then show ?thesis using unat_bound [of c] by linarith
  next
    case False
    then show ?thesis using assms unat_bound [of a] by simp
  qed
  then show ?thesis by (simp add: unat_word_ariths)
qed

lemma charge_node_cases:
  obtains (charged) s' where "charge_node rnd c s = (Ok (), s')"
      "\<forall>k. units k c \<le> units k (effective_capacity rnd s) - units k (ns_allocated s)"
      "\<forall>k. units k (ns_allocated s') = units k (ns_allocated s) + units k c"
      "ns_physical s' = ns_physical s" "ns_policy s' = ns_policy s" "ns_reservations s' = ns_reservations s"
    | (refused) "charge_node rnd c s = (Err InsufficientResources, s)"
      "\<not> (\<forall>k. units k c \<le> units k (effective_capacity rnd s) - units k (ns_allocated s))"
proof (cases "can_allocate rnd (nr_cpu_cores c) (nr_memory_mb c) (nr_disk_gb c) s")
  case True
  then have fit: "\<forall>k. units k c \<le> units k (effective_capacity rnd s) - units k (ns_allocated s)"
    by (simp add: can_allocate_units)
  then have "\<forall>k. units k (ns_allocated (snd (charge_node rnd c s))) = units k (ns_allocated s) + units k c"
    using True by (auto simp: all_dims charge_node_def allocate_def Let_def intro: unat_add_fits)
  with fit True show thesis by (intro charged [of "snd (charge_node rnd c s)"]) (auto simp: charge_node_def allocate_def Let_def)
next
  case False
  then show thesis by (intro refused) (simp_all add: charge_node_def allocate_def can_allocate_units)
qed

lemma add_reservation_alt:
  "add_reservation rnd v s = db_seq (charge_node rnd (reserved_resources v) s)
     (\<lambda>s. (Ok (), s\<lparr>ns_reservations := (ns_reservations s)(rsv_id v \<mapsto> v)\<rparr>))"
  by (simp add: add_reservation_def charge_node_def reserved_resources_def allocate_def db_seq_def)

lemma units_release [simp]:
  "units k (ns_allocated (release (nr_cpu_cores c) (nr_memory_mb c) (nr_disk_gb c) s)) =
     units k (ns_allocated s) - units k c"
  by (cases k) (simp_all add: release_def Let_def unat_saturating_sub)

lemma release_keeps [simp]:
  "ns_physical (release x y z s) = ns_physical s" "ns_policy (release x y z s) = ns_policy s"
  "ns_reservations (release x y z s) = ns_reservations s"
  by (simp_all add: release_def Let_def)

lemma remove_reservation_Some:
  assumes "ns_reservations s i = Some v"
  shows "units k (ns_allocated (snd (remove_reservation i s))) =
      units k (ns_allocated s) - units k (reserved_resources v)"
    and "ns_reservations (snd (remove_reservation i s)) = (ns_reservations s)(i := None)"
  using assms units_release [of k "reserved_resources v"]
  by (simp_all add: remove_reservation_def reserved_resources_def)

lemma remove_reservation_keeps [simp]:
  "ns_physical (snd (remove_reservation i s)) = ns_physical s"
  "ns_policy (snd (remove_reservation i s)) = ns_policy s"
  by (simp_all add: remove_reservation_def split: option.split)

lemma remove_reservation_le: "units k (ns_allocated (snd (remove_reservation i s))) \<le> units k (ns_allocated s)"
proof (cases "ns_reservations s i")
  case None
  then show ?thesis by (simp add: remove_reservation_def)
next
  case (Some v)
  then show ?thesis by (simp add: remove_reservation_Some)
qed

text \<open>The removals only lower the allocation.\<close>

lemma removals_keep:
  "ns_physical (fold (\<lambda>i s. snd (remove_reservation i s)) is s) = ns_physical s \<and>
   ns_policy (fold (\<lambda>i s. snd (remove_reservation i s)) is s) = ns_policy s \<and>
   units k (ns_allocated (fold (\<lambda>i s. snd (remove_reservation i s)) is s)) \<le> units k (ns_allocated s)"
proof (induction "is" arbitrary: s)
  case (Cons i "is")
  show ?case using Cons.IH [of "snd (remove_reservation i s)"] remove_reservation_le [of k i s] by auto
qed simp

lemma node_step_keeps:
  "ns_physical (node_step rnd s e) = ns_physical s \<and> ns_policy (node_step rnd s e) = ns_policy s"
proof (cases e)
  case (NAllocate c)
  then show ?thesis by (cases rule: charge_node_cases [of rnd c s]) simp_all
next
  case (NAddReservation v)
  then show ?thesis
    by (cases rule: charge_node_cases [of rnd "reserved_resources v" s])
       (simp_all add: add_reservation_alt db_seq_def)
qed (simp_all add: cleanup_expired_reservations_def removals_keep)

lemma within_capacity_charge: "within_capacity rnd s \<Longrightarrow> within_capacity rnd (snd (charge_node rnd c s))"
proof (cases rule: charge_node_cases [of rnd c s])
  case (charged s')
  assume "within_capacity rnd s"
  with charged(2,3) have "units k (ns_allocated s') \<le> units k (effective_capacity rnd s)" for k
    by (simp add: within_capacity_def) (metis add.commute le_diff_conv2)
  with charged effective_capacity_cong [of s' s rnd] show ?thesis by (simp add: within_capacity_def)
qed simp

lemma within_capacity_step: "within_capacity rnd s \<Longrightarrow> within_capacity rnd (node_step rnd s e)"
proof -
  assume w: "within_capacity rnd s"
  have eff: "effective_capacity rnd (node_step rnd s e) = effective_capacity rnd s"
    using node_step_keeps by (blast intro: effective_capacity_cong)
  have le: "within_capacity rnd (node_step rnd s e)"
    if "\<And>k. units k (ns_allocated (node_step rnd s e)) \<le> units k (ns_allocated s)"
    using w that unfolding within_capacity_def eff by (meson le_trans)
  show ?thesis
  proof (cases e)
    case (NAllocate c)
    then show ?thesis using within_capacity_charge [OF w] by simp
  next
    case (NAddReservation v)
    then show ?thesis using within_capacity_charge [OF w, of "reserved_resources v"]
      by (cases rule: charge_node_cases [of rnd "reserved_resources v" s])
         (simp_all add: add_reservation_alt db_seq_def within_capacity_def)
  next
    case (NRelease c)
    then show ?thesis by (intro le) simp
  next
    case (NRemoveReservation i)
    then show ?thesis by (intro le) (simp add: remove_reservation_le)
  next
    case (NCleanup now order)
    then show ?thesis by (intro le) (simp add: cleanup_expired_reservations_def removals_keep)
  qed
qed

interpretation node_capacity: event_machine "node_step rnd" "\<lambda>_ _. True" "within_capacity rnd" for rnd
  by unfold_locales (rule within_capacity_step)

lemma within_capacity_new [simp]: "within_capacity rnd (node_resource_state_new x y z p)"
  by (simp add: within_capacity_def node_resource_state_new_def)

lemma reserved_units_remove:
  "finite (dom m) \<Longrightarrow> m i = Some v \<Longrightarrow>
     reserved_units k m = units k (reserved_resources v) + reserved_units k (m(i := None))"
  unfolding reserved_units_def
  by (subst sum.remove [of _ i]) (auto intro!: sum.cong)

lemma ledger_remove:
  "ledger_inv (s, live) \<Longrightarrow> ledger_inv (snd (remove_reservation i s), live)"
proof (cases "ns_reservations s i")
  case None
  assume "ledger_inv (s, live)"
  with None show ?thesis by (simp add: remove_reservation_def)
next
  case (Some v)
  assume inv: "ledger_inv (s, live)"
  then have fin: "finite (dom (ns_reservations s))" by (simp add: ledger_inv_def)
  show ?thesis using inv reserved_units_remove [OF fin Some] fin
    by (simp add: ledger_inv_def remove_reservation_Some [OF Some])
qed

lemma ledger_removals:
  "ledger_inv (s, live) \<Longrightarrow> ledger_inv (fold (\<lambda>i s. snd (remove_reservation i s)) is s, live)"
  by (induction "is" arbitrary: s) (auto intro: ledger_remove)

lemma ledger_step_inv: "ledger_inv p \<Longrightarrow> ledger_enabled p e \<Longrightarrow> ledger_inv (ledger_step rnd p e)"
proof -
  assume inv: "ledger_inv p" and en: "ledger_enabled p e"
  obtain s live where p: "p = (s, live)" by (cases p)
  show ?thesis
  proof (cases e)
    case (NAllocate c)
    then show ?thesis using inv p
      by (cases rule: charge_node_cases [of rnd c s]) (auto simp: ledger_inv_def held_units_def)
  next
    case (NRelease c)
    with en p obtain rest where "live = add_mset c rest" by (auto dest: multi_member_split)
    then show ?thesis using NRelease inv p by (auto simp: ledger_inv_def held_units_def)
  next
    case (NAddReservation v)
    with en p have new: "ns_reservations s (rsv_id v) = None" by simp
    then show ?thesis using NAddReservation inv p
        reserved_units_remove [of "(ns_reservations s)(rsv_id v \<mapsto> v)" "rsv_id v" v]
      by (cases rule: charge_node_cases [of rnd "reserved_resources v" s])
         (auto simp: ledger_inv_def add_reservation_alt db_seq_def fun_upd_idem)
  next
    case (NRemoveReservation i)
    then show ?thesis using inv p by (simp add: ledger_remove)
  next
    case (NCleanup now order)
    then show ?thesis using inv p by (simp add: ledger_removals cleanup_expired_reservations_def)
  qed
qed

interpretation node_ledger: event_machine "ledger_step rnd" ledger_enabled ledger_inv for rnd
  by unfold_locales (rule ledger_step_inv)

lemma with_rows_Ok: "with_rows x f m = (Ok (), m') \<longleftrightarrow> (\<exists>y. x = Ok y \<and> f y m = (Ok (), m'))"
  by (cases x) (auto simp: with_rows_def)

lemma key_before_distinct: "sorted_wrt key_before (map fst kvs) \<Longrightarrow> distinct (map fst kvs)"
  by (induction kvs) auto

lemma register_workers_items: "register_workers C xs m = (Ok (), m') \<Longrightarrow> None \<notin> set xs"
  by (induction C xs m rule: register_workers.induct) (auto split: if_splits option.splits)

lemma charge_vms_items: "charge_vms rnd A C xs m = (Ok (), m') \<Longrightarrow> None \<notin> set xs"
  by (induction rnd A C xs m rule: charge_vms.induct) auto

lemma register_node_simps [simp]:
  "cm_default_policy (register_node i x y z m) = cm_default_policy m"
  "cm_node_states (register_node i x y z m) =
     (cm_node_states m)(i \<mapsto> node_resource_state_new x y z (cm_default_policy m))"
  by (simp_all add: register_node_def)

lemma register_workers_other:
  assumes "register_workers C (map Some kvs) m = (Ok (), m')" and "\<forall>k \<in> fst ` set kvs. \<exists>b. k = Bytes b"
  shows "cm_default_policy m' = cm_default_policy m"
    and "Bytes (u64_to_le_bytes n) \<notin> fst ` set kvs \<Longrightarrow> cm_node_states m' n = cm_node_states m n"
  using assms
  by (induction kvs arbitrary: m) (auto split: if_splits option.splits simp: u64_to_from_le_bytes)

lemma register_workers_node:
  assumes "register_workers C (map Some kvs) m = (Ok (), m')" and "\<forall>k \<in> fst ` set kvs. \<exists>b. k = Bytes b"
    and "distinct (map fst kvs)" and "map_of kvs (Bytes (u64_to_le_bytes n)) = Some b"
    and "dec (c_worker C) b = Some (a, c)"
  shows "cm_node_states m' n =
    Some (node_resource_state_new (wc_cpu_cores c) (wc_memory_mb c) (wc_disk_gb c) (cm_default_policy m))"
  using assms
proof (induction kvs arbitrary: m)
  case (Cons kv kvs)
  obtain k v where kv: "kv = (k, v)" by (cases kv)
  show ?case
  proof (cases "k = Bytes (u64_to_le_bytes n)")
    case True
    with Cons.prems kv have "v = b" "Bytes (u64_to_le_bytes n) \<notin> fst ` set kvs" by auto
    with True Cons.prems kv show ?thesis
      by (auto dest!: register_workers_other(2) [where n = n])
  next
    case False
    with Cons.prems kv show ?thesis
      using Cons.IH by (auto split: if_splits option.splits)
  qed
qed simp

lemma charge_vms_node:
  assumes "charge_vms rnd A C (map Some kvs) m = (Ok (), m')" and "cm_node_states m n = Some s"
    and "\<forall>k. units k (ns_allocated s) + (\<Sum>(_, b) \<leftarrow> kvs. row_units rnd A C n k b) \<le> units k (effective_capacity rnd s)"
  shows "\<exists>s'. cm_node_states m' n = Some s' \<and> effective_capacity rnd s' = effective_capacity rnd s \<and>
    (\<forall>k. units k (ns_allocated s') = units k (ns_allocated s) + (\<Sum>(_, b) \<leftarrow> kvs. row_units rnd A C n k b))"
  using assms
proof (induction kvs arbitrary: m s)
  case (Cons kv kvs)
  obtain i b where kv: "kv = (i, b)" by (cases kv)
  let ?m = "case dec (c_vm_state C) b of None \<Rightarrow> m | Some v \<Rightarrow> charge_vm rnd A v m"
  have rest: "charge_vms rnd A C (map Some kvs) ?m = (Ok (), m')" using Cons.prems(1) kv by simp
  have "\<exists>s1. cm_node_states ?m n = Some s1 \<and> effective_capacity rnd s1 = effective_capacity rnd s \<and>
      (\<forall>k. units k (ns_allocated s1) = units k (ns_allocated s) + row_units rnd A C n k b)"
  proof (cases "\<exists>v. dec (c_vm_state C) b = Some v \<and> vs_status v \<noteq> Stopped \<and> vs_status v \<noteq> Failed \<and> vs_node_id v = n")
    case True
    then obtain v where v: "dec (c_vm_state C) b = Some v" "vs_status v \<noteq> Stopped"
      "vs_status v \<noteq> Failed" "vs_node_id v = n" by blast
    have u: "row_units rnd A C n k b = units k (vm_charge rnd A (vs_config v))" for k
      using v by (simp add: row_units_def)
    have fit: "units k (vm_charge rnd A (vs_config v)) \<le> units k (effective_capacity rnd s) - units k (ns_allocated s)" for k
      using Cons.prems(3) kv u [of k] by (simp add: le_diff_conv2 add_leD1) (metis add.assoc add.commute add_leD1 le_diff_conv2)
    show ?thesis
    proof (cases rule: charge_node_cases [of rnd "vm_charge rnd A (vs_config v)" s])
      case (charged s1)
      then show ?thesis using v u Cons.prems(2) effective_capacity_cong [of s1 s rnd]
        by (simp add: charge_vm_def)
    next
      case refused
      with fit show ?thesis by blast
    qed
  next
    case False
    then show ?thesis using Cons.prems(2)
      by (auto simp: charge_vm_def row_units_def split: option.splits)
  qed
  then obtain s1 where s1: "cm_node_states ?m n = Some s1" "effective_capacity rnd s1 = effective_capacity rnd s"
    "\<forall>k. units k (ns_allocated s1) = units k (ns_allocated s) + row_units rnd A C n k b" by blast
  have "\<forall>k. units k (ns_allocated s1) + (\<Sum>(_, b) \<leftarrow> kvs. row_units rnd A C n k b) \<le> units k (effective_capacity rnd s1)"
    using Cons.prems(3) s1(2,3) kv by (simp add: add.assoc)
  from Cons.IH [OF rest s1(1) this] s1(2,3) kv show ?case by (auto simp: add.assoc)
qed simp

lemma sum_rows:
  "distinct (map fst kvs) \<Longrightarrow> (\<Sum>(_, b) \<leftarrow> kvs. f b) = (\<Sum>i \<in> dom (map_of kvs). f (the (map_of kvs i)))"
proof (induction kvs)
  case (Cons kv kvs)
  obtain i b where kv: "kv = (i, b)" by (cases kv)
  with Cons.prems have i: "i \<notin> dom (map_of kvs)" by (simp add: dom_map_of_conv_image_fst)
  have "(\<Sum>j \<in> dom (map_of kvs). f (the (map_of (kv # kvs) j))) = (\<Sum>j \<in> dom (map_of kvs). f (the (map_of kvs j)))"
    using i kv by (intro sum.cong) auto
  moreover have "dom (map_of (kv # kvs)) = insert i (dom (map_of kvs))" using kv by auto
  ultimately show ?case using Cons i kv by (simp del: map_of.simps add: finite_dom_map_of) (simp add: kv)
qed simp

lemma clear_allocations_node:
  "cm_node_states m n = Some (node_resource_state_new x y z p) \<Longrightarrow>
     cm_node_states (clear_allocations m) n = Some (node_resource_state_new x y z p)"
  by (simp add: clear_allocations_def node_resource_state_new_def)

lemma sync_resource_state_exact:
  assumes R: "redb_ok R view tview rview" and sync: "sync_resource_state rnd R C A d m = (Ok (), m')"
    and row: "view d WORKER_TABLE (Bytes (u64_to_le_bytes n)) = Some b" "dec (c_worker C) b = Some (a, c)"
    and s: "s = node_resource_state_new (wc_cpu_cores c) (wc_memory_mb c) (wc_disk_gb c) (cm_default_policy m)"
    and fits: "\<forall>k. recorded_load rnd A C n (view d VM_STATE_TABLE) k \<le> units k (effective_capacity rnd s)"
  shows "\<exists>s'. cm_node_states m' n = Some s' \<and> effective_capacity rnd s' = effective_capacity rnd s \<and>
    (\<forall>k. units k (ns_allocated s') = recorded_load rnd A C n (view d VM_STATE_TABLE) k)"
proof -
  obtain r where r: "begin_read R d = Some r" and
    body: "with_rows (iterate R WORKER_TABLE r) (\<lambda>workers m.
       db_seq (register_workers C workers m) (\<lambda>m.
         with_rows (iterate R VM_STATE_TABLE r) (charge_vms rnd A C) (clear_allocations m))) m = (Ok (), m')"
    using sync by (auto simp: sync_resource_state_def with_rows_Ok read_txn_def open_reading_def split: if_splits)
  from body obtain ws vs m1 where ws: "iter_read R WORKER_TABLE r = Some ws" "register_workers C ws m = (Ok (), m1)"
    and vs: "iter_read R VM_STATE_TABLE r = Some vs" "charge_vms rnd A C vs (clear_allocations m1) = (Ok (), m')"
    by (auto simp: with_rows_Ok db_seq_Ok iterate_def)
  have v: "rview r = view d" using redb_begin_read [OF R r] .
  have "lists_rows ws (view d WORKER_TABLE)"
    using redb_iter_read [OF R ws(1) register_workers_items [OF ws(2)]] v by simp
  then obtain wk where wk: "ws = map Some wk" "distinct (map fst wk)" "map_of wk = view d WORKER_TABLE"
    by (auto simp: lists_rows_def key_before_distinct)
  have "lists_rows vs (view d VM_STATE_TABLE)"
    using redb_iter_read [OF R vs(1) charge_vms_items [OF vs(2)]] v by simp
  then obtain vk where vk: "vs = map Some vk" "distinct (map fst vk)" "map_of vk = view d VM_STATE_TABLE"
    by (auto simp: lists_rows_def key_before_distinct)
  have load: "(\<Sum>(_, b) \<leftarrow> vk. row_units rnd A C n k b) = recorded_load rnd A C n (view d VM_STATE_TABLE) k" for k
    by (simp add: sum_rows [OF vk(2)] recorded_load_def vk(3))
  have "\<exists>b. k = Bytes b" if "k \<in> fst ` set wk" for k
  proof -
    have "view d WORKER_TABLE k \<noteq> None" using that wk(3) by (simp flip: wk(3) add: map_of_eq_None_iff)
    from redb_typed [OF R this] show ?thesis by (cases k) auto
  qed
  then have "cm_node_states m1 n = Some s"
    using register_workers_node [of C wk m m1 n b a c] ws(2) wk row s by simp
  then have "cm_node_states (clear_allocations m1) n = Some s" unfolding s by (rule clear_allocations_node)
  moreover have "units k (ns_allocated s) = 0" for k by (simp add: s node_resource_state_new_def)
  ultimately show ?thesis
    using charge_vms_node [of rnd A C vk "clear_allocations m1" m' n s] vs(2) vk(1) fits load by simp
qed

lemma admission_check_Ok:
  "admission_check rnd R C A config n d m = Ok () \<longleftrightarrow>
     (\<exists>s caps. cm_node_states m n = Some s \<and> get_worker_capabilities R C n d = Ok caps \<and>
        ''microvm'' \<in> set (wc_features caps) \<and>
        (if ac_strict_mode A then fits_strictly s (vm_charge rnd A config)
         else \<forall>k. units k (vm_charge rnd A config) \<le> units k (effective_capacity rnd s) - units k (ns_allocated s)))"
  by (auto simp: admission_check_def Let_def can_allocate_units split: option.splits if_splits)

lemma get_worker_capabilities_Ok:
  assumes "redb_ok R view tview rview" and "get_worker_capabilities R C n d = Ok caps"
  shows "\<exists>b a. view d WORKER_TABLE (Bytes (u64_to_le_bytes n)) = Some b \<and> dec (c_worker C) b = Some (a, caps)"
proof -
  obtain r b a where r: "read_txn R d = Ok r" "get_read R WORKER_TABLE (Bytes (u64_to_le_bytes n)) r = Some (Some b)"
    "dec (c_worker C) b = Some (a, caps)"
    using assms(2) by (auto simp: get_worker_capabilities_def split: option.splits)
  have "view d WORKER_TABLE (Bytes (u64_to_le_bytes n)) = Some b"
    using redb_get_read [OF assms(1) r(2)] read_txn_Ok [OF assms(1) r(1)] by simp
  with r(3) show ?thesis by blast
qed

section \<open>Properties\<close>

text \<open>C28. Whatever sequence of allocations, releases, reservations and clean-ups a node goes through,
  the allocated amount of every resource stays within the effective capacity of the node; in such a
  state an allocation succeeds exactly if the sum still fits, and then the counters are increased by the
  requested amounts without wrap-around.\<close>

theorem node_capacity_respected:
  assumes "s0 = node_resource_state_new cpu_cores memory_mb disk_gb policy"
    and "reach (node_step rnd) (\<lambda>_ _. True) s0 s"
  shows "units k (ns_allocated s) \<le> units k (effective_capacity rnd s0) \<and>
    (fst (charge_node rnd c s) = Ok () \<longleftrightarrow>
       (\<forall>k. units k (ns_allocated s) + units k c \<le> units k (effective_capacity rnd s0))) \<and>
    units k (ns_allocated (snd (charge_node rnd c s))) =
      (if fst (charge_node rnd c s) = Ok () then units k (ns_allocated s) + units k c else units k (ns_allocated s))"
proof -
  have keep: "ns_physical s = ns_physical s0 \<and> ns_policy s = ns_policy s0"
    using assms(2) by (induction rule: reach.induct) (simp_all add: node_step_keeps)
  then have eff: "effective_capacity rnd s = effective_capacity rnd s0" by (blast intro: effective_capacity_cong)
  have "within_capacity rnd s" using node_capacity.reach_inv [OF assms(2)] assms(1) by simp
  then have le: "units k (ns_allocated s) \<le> units k (effective_capacity rnd s0)" for k
    by (simp add: within_capacity_def eff)
  then have fit: "units k c \<le> units k (effective_capacity rnd s) - units k (ns_allocated s) \<longleftrightarrow>
      units k (ns_allocated s) + units k c \<le> units k (effective_capacity rnd s0)" for k
    using le [of k] eff by (simp add: le_diff_conv2 add.commute)
  show ?thesis
    by (cases rule: charge_node_cases [of rnd c s]) (use le fit in simp_all)
qed

text \<open>C29. The counters of a node are exact: if callers release only what they were granted and every
  reservation has an identifier of its own, the allocated amount of every resource is the sum of the
  granted allocations that are still held and of the reservations that are on record.\<close>

theorem node_ledger_exact:
  assumes "reach (ledger_step rnd) ledger_enabled
    (node_resource_state_new cpu_cores memory_mb disk_gb policy, {#}) (s, live)"
  shows "finite (dom (ns_reservations s)) \<and>
    units k (ns_allocated s) = held_units k live + reserved_units k (ns_reservations s)"
proof -
  have "ledger_inv (node_resource_state_new cpu_cores memory_mb disk_gb policy, {#})"
    by (simp add: ledger_inv_def node_resource_state_new_def held_units_def reserved_units_def)
  from node_ledger.reach_inv [OF assms this] show ?thesis by (simp add: ledger_inv_def)
qed

text \<open>C27. Admission under the overcommit policy is sound: when the active machines recorded for a node
  fit its effective capacity, an admitted machine fits beside them in every resource, the node is a
  registered worker with the microvm feature, the counters of the controller are exactly the recorded
  load, and the allocation that follows the admission succeeds.\<close>

theorem admission_sound:
  assumes "redb_ok R view tview rview" and "\<not> ac_strict_mode A"
    and "controller_validate rnd R C A config n d d m = (Ok (), m')"
    and "\<forall>b a c. view d WORKER_TABLE (Bytes (u64_to_le_bytes n)) = Some b \<longrightarrow> dec (c_worker C) b = Some (a, c) \<longrightarrow>
      (\<forall>k. recorded_load rnd A C n (view d VM_STATE_TABLE) k \<le> units k (effective_capacity rnd
         (node_resource_state_new (wc_cpu_cores c) (wc_memory_mb c) (wc_disk_gb c) (cm_default_policy m))))"
  shows "\<exists>b a c s. view d WORKER_TABLE (Bytes (u64_to_le_bytes n)) = Some b \<and> dec (c_worker C) b = Some (a, c) \<and>
    ''microvm'' \<in> set (wc_features c) \<and> cm_node_states m' n = Some s \<and>
    (\<forall>k. units k (ns_allocated s) = recorded_load rnd A C n (view d VM_STATE_TABLE) k \<and>
       recorded_load rnd A C n (view d VM_STATE_TABLE) k + units k (vm_charge rnd A config) \<le>
         units k (effective_capacity rnd
           (node_resource_state_new (wc_cpu_cores c) (wc_memory_mb c) (wc_disk_gb c) (cm_default_policy m)))) \<and>
    fst (allocate_vm_resources rnd A config n m') = Ok ()"
proof -
  from assms(3) have sync: "sync_resource_state rnd R C A d m = (Ok (), m')"
    and check: "admission_check rnd R C A config n d m' = Ok ()"
    by (auto simp: controller_validate_def db_seq_Ok)
  from check assms(2) obtain s caps where s: "cm_node_states m' n = Some s" "''microvm'' \<in> set (wc_features caps)"
      "get_worker_capabilities R C n d = Ok caps"
    and fit: "\<forall>k. units k (vm_charge rnd A config) \<le> units k (effective_capacity rnd s) - units k (ns_allocated s)"
    by (auto simp: admission_check_Ok)
  obtain b a where b: "view d WORKER_TABLE (Bytes (u64_to_le_bytes n)) = Some b" "dec (c_worker C) b = Some (a, caps)"
    using get_worker_capabilities_Ok [OF assms(1) s(3)] by blast
  let ?s = "node_resource_state_new (wc_cpu_cores caps) (wc_memory_mb caps) (wc_disk_gb caps) (cm_default_policy m)"
  have rec: "\<forall>k. recorded_load rnd A C n (view d VM_STATE_TABLE) k \<le> units k (effective_capacity rnd ?s)"
    using assms(4) b by blast
  from sync_resource_state_exact [OF assms(1) sync b refl rec] s(1)
  have e: "effective_capacity rnd s = effective_capacity rnd ?s"
    and l: "\<forall>k. units k (ns_allocated s) = recorded_load rnd A C n (view d VM_STATE_TABLE) k" by auto
  have "recorded_load rnd A C n (view d VM_STATE_TABLE) k + units k (vm_charge rnd A config) \<le>
      units k (effective_capacity rnd ?s)" for k
    using fit rec l unfolding e by (metis add.commute le_diff_conv2)
  moreover have "fst (allocate_vm_resources rnd A config n m') = Ok ()"
    using fit s(1)
    by (cases rule: charge_node_cases [of rnd "vm_charge rnd A config" s]) (auto simp: allocate_vm_resources_def)
  ultimately show ?thesis using b s l by blast
qed

section \<open>A worker with one machine\<close>

definition policy_node :: node_resource_state where
  "policy_node = node_resource_state_new 4 8192 100
     \<lparr>cpu_overcommit_ratio = 1, memory_overcommit_ratio = 1, disk_overcommit_ratio = 1,
      enforce_hard_limits = True, system_reserve_percentage = 1 / 2\<rparr>"

definition sample_charge :: node_resources where
  "sample_charge = \<lparr>nr_cpu_cores = 1, nr_memory_mb = 1024, nr_disk_gb = 5\<rparr>"

definition sample_reservation :: resource_reservation where
  "sample_reservation = \<lparr>rsv_id = ''r'', rsv_owner = ''o'', rsv_cpu_cores = 1, rsv_memory_mb = 512,
     rsv_disk_gb = 1, rsv_priority = 0, rsv_is_hard = True, rsv_expires_at = Some 5\<rparr>"

lemma sample_capacity: "effective_capacity (\<lambda>x. x) policy_node = \<lparr>nr_cpu_cores = 2, nr_memory_mb = 4096, nr_disk_gb = 50\<rparr>"
  by (simp add: effective_capacity_def policy_node_def node_resource_state_new_def scaled_def f64_as_u32_def f64_as_u64_def)

lemmas policy_node_facts = sample_capacity charge_node_def allocate_def can_allocate_def available_resources_def
  saturating_sub_def sample_charge_def Let_def

theorem node_capacity_respected_witness:
  "units DCpu (ns_allocated (node_step (\<lambda>x. x) policy_node (NAllocate sample_charge))) \<le> 2"
proof -
  have "reach (node_step (\<lambda>x. x)) (\<lambda>_ _. True) policy_node (node_step (\<lambda>x. x) policy_node (NAllocate sample_charge))"
    by (blast intro: reach.intros)
  from node_capacity_respected [OF policy_node_def this, of DCpu] show ?thesis
    by (simp add: sample_capacity flip: policy_node_def)
qed

theorem node_ledger_exact_witness:
  "units DMemory (ns_allocated (fst (run (ledger_step (\<lambda>x. x)) (policy_node, {#})
     [NAllocate sample_charge, NAddReservation sample_reservation, NRelease sample_charge]))) = 512"
proof -
  let ?es = "[NAllocate sample_charge, NAddReservation sample_reservation, NRelease sample_charge]"
  obtain s live where r: "run (ledger_step (\<lambda>x. x)) (policy_node, {#}) ?es = (s, live)" by fastforce
  have new: "ns_allocated policy_node = no_resources" "ns_reservations policy_node = Map.empty"
    by (simp_all add: policy_node_def node_resource_state_new_def)
  have "admissible (ledger_step (\<lambda>x. x)) ledger_enabled (policy_node, {#}) ?es" and
    final: "live = {#}" "ns_reservations s = [''r'' \<mapsto> sample_reservation]"
    using r by (auto simp: policy_node_facts new no_resources_def add_reservation_def sample_reservation_def
        db_seq_def release_def)
  then have "reach (ledger_step (\<lambda>x. x)) ledger_enabled (policy_node, {#}) (s, live)"
    using run_reach [of "ledger_step (\<lambda>x. x)" ledger_enabled "(policy_node, {#})" ?es] r by simp
  from node_ledger_exact [OF this [unfolded policy_node_def], of DMemory] r final show ?thesis
    by (simp add: held_units_def reserved_units_def reserved_resources_def sample_reservation_def)
qed

definition admission_request :: vm_config where
  "admission_request = vm_config_default\<lparr>vc_preemptible := False\<rparr>"

definition sample_running :: vm_state where
  "sample_running = \<lparr>vs_name = ''v'', vs_config = admission_request, vs_status = Running, vs_node_id = 1,
     vs_created_at = 0, vs_updated_at = 0\<rparr>"

definition admission_codec :: codec where
  "admission_codec = sample_worker_codec\<lparr>c_vm_state := once_serde sample_running\<rparr>"

definition admission_db :: mem_db where
  "admission_db = registered_db(VM_STATE_TABLE := [(Str ''v'', [1])])"

definition sample_admission :: admission_control_config where
  "sample_admission = admission_control_config_default (\<lambda>x. x)"

definition admission_manager :: cluster_resource_manager where
  "admission_manager = cluster_resource_manager_new (ns_policy policy_node)"

lemma le_bytes_one: "u64_from_le_bytes [1, 0, 0, 0, 0, 0, 0, 0] = 1"
  using u64_from_to_le_bytes [of 1] by (simp only: one_le_bytes)

lemma admission_codec_dec [simp]:
  "dec (c_worker admission_codec) [1] = Some (''a'', sample_capabilities)"
  "dec (c_vm_state admission_codec) [1] = Some sample_running"
  by (simp_all add: admission_codec_def sample_worker_codec_def once_serde_def)

lemma admission_db_rows [simp]:
  "mem_rows admission_db WORKER_TABLE = [(Bytes [1, 0, 0, 0, 0, 0, 0, 0], [1])]"
  "mem_rows admission_db VM_STATE_TABLE = [(Str ''v'', [1])]"
  by (simp_all add: mem_rows_def admission_db_def registered_db_def empty_db_def)

lemma admission_db_view [simp]:
  "mem_view admission_db WORKER_TABLE (Bytes [1, 0, 0, 0, 0, 0, 0, 0]) = Some [1]"
  "mem_view admission_db VM_STATE_TABLE = [Str ''v'' \<mapsto> [1]]"
  by (auto simp: mem_view_def admission_db_def registered_db_def empty_db_def)

lemma default_charge: "vm_charge (\<lambda>x. x) A admission_request = sample_charge"
  by (simp add: vm_charge_def admission_request_def vm_config_default_def sample_charge_def)

definition charged_node :: node_resource_state where
  "charged_node = policy_node\<lparr>ns_allocated := sample_charge\<rparr>"

lemma sample_charged: "charge_node (\<lambda>x. x) sample_charge policy_node = (Ok (), charged_node)"
  by (simp add: policy_node_facts charged_node_def)
     (simp add: policy_node_def node_resource_state_new_def no_resources_def)

lemma sample_registered_node:
  "node_resource_state_new (wc_cpu_cores sample_capabilities) (wc_memory_mb sample_capabilities)
     (wc_disk_gb sample_capabilities) (cm_default_policy admission_manager) = policy_node"
  by (simp add: sample_capabilities_def admission_manager_def cluster_resource_manager_new_def policy_node_def
      node_resource_state_new_def)

lemma sample_synced:
  "sync_resource_state (\<lambda>x. x) mem_redb admission_codec sample_admission admission_db admission_manager =
     (Ok (), admission_manager\<lparr>cm_node_states := [1 \<mapsto> charged_node]\<rparr>)"
proof -
  have r: "register_workers admission_codec [Some (Bytes [1, 0, 0, 0, 0, 0, 0, 0], [1])] admission_manager =
      (Ok (), admission_manager\<lparr>cm_node_states := [1 \<mapsto> policy_node]\<rparr>)"
    by (simp add: le_bytes_one register_node_def sample_registered_node)
       (simp add: admission_manager_def cluster_resource_manager_new_def)
  have c: "clear_allocations (admission_manager\<lparr>cm_node_states := [1 \<mapsto> policy_node]\<rparr>) =
      admission_manager\<lparr>cm_node_states := [1 \<mapsto> policy_node]\<rparr>"
    by (auto simp: clear_allocations_def policy_node_def node_resource_state_new_def fun_eq_iff)
  have v: "charge_vms (\<lambda>x. x) sample_admission admission_codec [Some (Str ''v'', [1])]
      (admission_manager\<lparr>cm_node_states := [1 \<mapsto> policy_node]\<rparr>) =
      (Ok (), admission_manager\<lparr>cm_node_states := [1 \<mapsto> charged_node]\<rparr>)"
    by (simp add: charge_vm_def sample_running_def default_charge sample_charged)
  show ?thesis
    by (simp add: sync_resource_state_def with_rows_def read_txn_def open_reading_def iterate_def or_err_def
        mem_redb_def db_seq_def r c v del: register_workers.simps charge_vms.simps)
qed

lemma sample_worker: "get_worker_capabilities mem_redb admission_codec 1 admission_db = Ok sample_capabilities"
  by (simp add: get_worker_capabilities_def read_txn_def open_reading_def one_le_bytes mem_redb_def)

lemma sample_admitted:
  "controller_validate (\<lambda>x. x) mem_redb admission_codec sample_admission admission_request 1
     admission_db admission_db admission_manager = (Ok (), admission_manager\<lparr>cm_node_states := [1 \<mapsto> charged_node]\<rparr>)"
proof -
  have "\<not> ac_strict_mode sample_admission" "''microvm'' \<in> set (wc_features sample_capabilities)"
    by (simp_all add: sample_admission_def admission_control_config_default_def sample_capabilities_def)
  then show ?thesis
    by (simp add: controller_validate_def sample_synced db_seq_def admission_check_def default_charge
      sample_worker) (simp add: policy_node_facts charged_node_def)
qed

lemma sample_load:
  "recorded_load (\<lambda>x. x) sample_admission admission_codec 1 [Str ''v'' \<mapsto> [1]] k = units k sample_charge"
  by (simp add: recorded_load_def row_units_def) (simp add: sample_running_def default_charge)

theorem admission_sound_witness:
  "fst (controller_validate (\<lambda>x. x) mem_redb admission_codec sample_admission admission_request 1
     admission_db admission_db admission_manager) = Ok () \<and>
   recorded_load (\<lambda>x. x) sample_admission admission_codec 1 (mem_view admission_db VM_STATE_TABLE) DCpu +
     units DCpu (vm_charge (\<lambda>x. x) sample_admission admission_request) \<le>
     units DCpu (effective_capacity (\<lambda>x. x) policy_node)"
proof -
  have "\<not> ac_strict_mode sample_admission"
    by (simp add: sample_admission_def admission_control_config_default_def)
  moreover have "units k sample_charge \<le> units k (effective_capacity (\<lambda>x. x) policy_node)" for k
    by (cases k) (simp_all add: sample_capacity sample_charge_def)
  ultimately show ?thesis
    using admission_sound [OF mem_redb_ok _ sample_admitted]
    by (simp add: sample_admitted sample_load one_le_bytes sample_registered_node all_dims default_charge)
       (simp add: sample_capacity sample_charge_def)
qed

end
