(* ===== verification/Resource_Manager.thy ===== *)
theory Resource_Manager
  imports Ip_Pool_Manager
begin

text \<open>
  The \<open>ResourceManager\<close> trait (\<open>resource_manager.rs\<close>) and its implementation for memory
  (\<open>resource_managers/memory_manager.rs\<close>). The contract of the trait is a locale; the theory
  interprets it for the memory manager and shows that the granted memory stays within the capacity
  left by the system reserve. An operation runs without interleaving with another one; the clock,
  the elapsed time of a call and the random estimate of the used memory are arguments.
\<close>

section \<open>Types of the trait\<close>

datatype resource_type = Memory | Cpu | Disk | Network | Gpu | Custom string

record allocation_request =
  ar_request_id :: string
  ar_tenant_id :: string
  ar_resource_type :: resource_type
  ar_amount :: u64
  ar_priority :: u32
  ar_is_temporary :: bool
  ar_expires_at :: "time option"
  ar_metadata :: "string \<rightharpoonup> string"

datatype allocation_status = Active | Reserved | Releasing | Released | AllocationFailed string

record resource_allocation =
  al_allocation_id :: string
  al_request :: allocation_request
  al_allocated_amount :: u64
  al_allocated_on :: "string option"
  al_allocated_at :: time
  al_status :: allocation_status

record resource_usage =
  ru_resource_type :: resource_type
  ru_total_capacity :: u64
  ru_allocated_amount :: u64
  ru_used_amount :: u64
  ru_allocation_count :: u64
  ru_updated_at :: time

definition usage_percent :: "(real \<Rightarrow> real) \<Rightarrow> u64 \<Rightarrow> u64 \<Rightarrow> real" where
  "usage_percent rnd part whole =
     (if whole = 0 then 0 else rnd (rnd (rnd (real (unat part)) / rnd (real (unat whole))) * 100))"

definition ru_utilization_percent :: "(real \<Rightarrow> real) \<Rightarrow> resource_usage \<Rightarrow> real" where
  "ru_utilization_percent rnd u = usage_percent rnd (ru_used_amount u) (ru_total_capacity u)"

definition ru_allocation_percent :: "(real \<Rightarrow> real) \<Rightarrow> resource_usage \<Rightarrow> real" where
  "ru_allocation_percent rnd u = usage_percent rnd (ru_allocated_amount u) (ru_total_capacity u)"

definition is_overallocated :: "resource_usage \<Rightarrow> bool" where
  "is_overallocated u \<longleftrightarrow> ru_allocated_amount u > ru_total_capacity u"

record resource_limits =
  rl_resource_type :: resource_type
  rl_hard_limit :: u64
  rl_soft_limit :: u64
  rl_allow_overcommit :: bool
  rl_overcommit_ratio :: real
  rl_system_reserve :: u64

definition resource_limits_default :: resource_limits where
  "resource_limits_default =
     \<lparr>rl_resource_type = Memory, rl_hard_limit = - 1, rl_soft_limit = (- 1) div 2,
      rl_allow_overcommit = False, rl_overcommit_ratio = 1, rl_system_reserve = 0\<rparr>"

datatype manager_health = MHealthy | MDegraded | MUnhealthy | MStopped

record manager_config =
  mc_resource_type :: resource_type
  mc_limits :: resource_limits
  mc_enable_monitoring :: bool
  mc_enable_health_checks :: bool

definition manager_config_new :: "resource_type \<Rightarrow> manager_config" where
  "manager_config_new t = \<lparr>mc_resource_type = t, mc_limits = resource_limits_default,
     mc_enable_monitoring = True, mc_enable_health_checks = True\<rparr>"

record manager_state =
  st_is_running :: bool
  st_health :: manager_health
  st_last_health_check :: time
  st_total_allocations :: u64
  st_total_deallocations :: u64
  st_failed_allocations :: u64
  st_allocation_times :: "time list"

definition manager_state_default :: "time \<Rightarrow> manager_state" where
  "manager_state_default now =
     \<lparr>st_is_running = False, st_health = MStopped, st_last_health_check = now, st_total_allocations = 0,
      st_total_deallocations = 0, st_failed_allocations = 0, st_allocation_times = []\<rparr>"

text \<open>The last hundred durations; \<open>elapsed\<close> is missing when the clock went backwards.\<close>

definition count_allocation :: "time option \<Rightarrow> manager_state \<Rightarrow> manager_state" where
  "count_allocation elapsed st =
     (let st = st\<lparr>st_total_allocations := st_total_allocations st + 1\<rparr>
      in case elapsed of
           None \<Rightarrow> st
         | Some t \<Rightarrow>
             let ts = st_allocation_times st @ [t]
             in st\<lparr>st_allocation_times := if length ts > 100 then tl ts else ts\<rparr>)"

text \<open>What a call takes from its environment.\<close>

record call_env =
  ce_now :: time
  ce_stamp :: int
  ce_elapsed :: "time option"
  ce_random :: real

definition show_int :: "int \<Rightarrow> string" where
  "show_int i = (if i < 0 then ''-'' @ show_nat (nat (- i)) else show_nat (nat i))"

definition allocation_key :: "string \<Rightarrow> string \<Rightarrow> int \<Rightarrow> string" where
  "allocation_key prefix tenant_id stamp = prefix @ tenant_id @ ''-'' @ show_int stamp"

definition counts :: "allocation_status \<Rightarrow> bool" where
  "counts s \<longleftrightarrow> s = Active \<or> s = Reserved"

section \<open>The memory manager\<close>

record memory_manager =
  mm_config :: manager_config
  mm_allocations :: "string \<rightharpoonup> resource_allocation"
  mm_usage :: resource_usage
  mm_state :: manager_state

definition memory_manager_new :: "time \<Rightarrow> manager_config \<Rightarrow> memory_manager" where
  "memory_manager_new now config =
     (let config = config\<lparr>mc_resource_type := Memory\<rparr>
      in \<lparr>mm_config = config, mm_allocations = Map.empty,
          mm_usage = \<lparr>ru_resource_type = Memory, ru_total_capacity = rl_hard_limit (mc_limits config),
            ru_allocated_amount = 0, ru_used_amount = 0, ru_allocation_count = 0, ru_updated_at = now\<rparr>,
          mm_state = manager_state_default now\<rparr>)"

definition memory_effective_capacity :: "(real \<Rightarrow> real) \<Rightarrow> memory_manager \<Rightarrow> u64" where
  "memory_effective_capacity rnd m =
     (let limits = mc_limits (mm_config m)
      in if rl_allow_overcommit limits
         then f64_as_u64 (rnd (rnd (real (unat (rl_hard_limit limits))) * rl_overcommit_ratio limits))
         else rl_hard_limit limits)"

definition memory_available_capacity :: "(real \<Rightarrow> real) \<Rightarrow> u64 \<Rightarrow> memory_manager \<Rightarrow> u64" where
  "memory_available_capacity rnd current_allocated m =
     saturating_sub (saturating_sub (memory_effective_capacity rnd m) current_allocated)
       (rl_system_reserve (mc_limits (mm_config m)))"

definition memory_validate_request ::
  "(real \<Rightarrow> real) \<Rightarrow> allocation_request \<Rightarrow> memory_manager \<Rightarrow> unit outcome" where
  "memory_validate_request rnd q m =
     (if ar_resource_type q \<noteq> Memory then Err (ConfigurationError ''memory_manager.allocation.resource_type'')
      else if ar_amount q > memory_available_capacity rnd (ru_allocated_amount (mm_usage m)) m
      then Err InsufficientResources
      else Ok ())"

definition total_allocated :: "(string \<rightharpoonup> resource_allocation) \<Rightarrow> u64" where
  "total_allocated as = (\<Sum>i \<in> {i \<in> dom as. counts (al_status (the (as i)))}. al_allocated_amount (the (as i)))"

definition estimate_actual_usage :: "(real \<Rightarrow> real) \<Rightarrow> real \<Rightarrow> u64 \<Rightarrow> u64" where
  "estimate_actual_usage rnd r allocated =
     f64_as_u64 (rnd (rnd (real (unat allocated)) * rnd (rnd 0.75 + rnd (r * rnd 0.15))))"

definition memory_update_usage_stats :: "(real \<Rightarrow> real) \<Rightarrow> call_env \<Rightarrow> memory_manager \<Rightarrow> memory_manager" where
  "memory_update_usage_stats rnd e m =
     (let as = mm_allocations m; amount = total_allocated as
      in m\<lparr>mm_usage := (mm_usage m)\<lparr>ru_allocated_amount := amount,
            ru_allocation_count := of_nat (card {i \<in> dom as. counts (al_status (the (as i)))}),
            ru_updated_at := ce_now e,
            ru_used_amount := estimate_actual_usage rnd (ce_random e) amount\<rparr>\<rparr>)"

definition memory_allocate ::
  "(real \<Rightarrow> real) \<Rightarrow> call_env \<Rightarrow> allocation_request \<Rightarrow> memory_manager \<Rightarrow>
     resource_allocation outcome \<times> memory_manager" where
  "memory_allocate rnd e q m =
     (case memory_validate_request rnd q m of
        Ok _ \<Rightarrow>
          let a = \<lparr>al_allocation_id = allocation_key ''mem-'' (ar_tenant_id q) (ce_stamp e), al_request = q,
                   al_allocated_amount = ar_amount q, al_allocated_on = Some ''memory'',
                   al_allocated_at = ce_now e, al_status = Active\<rparr>;
              m = m\<lparr>mm_allocations := (mm_allocations m)(al_allocation_id a \<mapsto> a)\<rparr>;
              m = memory_update_usage_stats rnd e m
          in (Ok a, m\<lparr>mm_state := count_allocation (ce_elapsed e) (mm_state m)\<rparr>)
      | Err x \<Rightarrow> (Err x, m) | Panics \<Rightarrow> (Panics, m) | Blocks \<Rightarrow> (Blocks, m))"

definition memory_deallocate ::
  "(real \<Rightarrow> real) \<Rightarrow> call_env \<Rightarrow> string \<Rightarrow> memory_manager \<Rightarrow> unit outcome \<times> memory_manager" where
  "memory_deallocate rnd e i m =
     (case mm_allocations m i of
        None \<Rightarrow> (Err ResourceUnavailable, m)
      | Some _ \<Rightarrow>
          let m = memory_update_usage_stats rnd e (m\<lparr>mm_allocations := (mm_allocations m)(i := None)\<rparr>)
          in (Ok (), m\<lparr>mm_state := (mm_state m)\<lparr>st_total_deallocations := st_total_deallocations (mm_state m) + 1\<rparr>\<rparr>))"

definition memory_check_availability ::
  "(real \<Rightarrow> real) \<Rightarrow> allocation_request \<Rightarrow> memory_manager \<Rightarrow> bool outcome" where
  "memory_check_availability rnd q m =
     (case memory_validate_request rnd q m of
        Ok _ \<Rightarrow> Ok True | Err x \<Rightarrow> (if x = InsufficientResources then Ok False else Err x)
      | Panics \<Rightarrow> Panics | Blocks \<Rightarrow> Blocks)"

definition memory_get_allocation :: "memory_manager \<Rightarrow> string \<rightharpoonup> resource_allocation" where
  "memory_get_allocation m i = mm_allocations m i"

definition memory_initialize :: "time \<Rightarrow> memory_manager \<Rightarrow> memory_manager" where
  "memory_initialize now m =
     m\<lparr>mm_usage := (mm_usage m)\<lparr>ru_total_capacity := rl_hard_limit (mc_limits (mm_config m)), ru_updated_at := now\<rparr>,
       mm_state := (mm_state m)\<lparr>st_health := MHealthy, st_last_health_check := now\<rparr>\<rparr>"

definition memory_start :: "memory_manager \<Rightarrow> memory_manager" where
  "memory_start m = m\<lparr>mm_state := (mm_state m)\<lparr>st_is_running := True, st_health := MHealthy\<rparr>\<rparr>"

definition memory_stop :: "memory_manager \<Rightarrow> memory_manager" where
  "memory_stop m = m\<lparr>mm_state := (mm_state m)\<lparr>st_is_running := False, st_health := MStopped\<rparr>\<rparr>"

text \<open>One round of the two background tasks.\<close>

definition memory_monitor :: "(real \<Rightarrow> real) \<Rightarrow> time \<Rightarrow> memory_manager \<Rightarrow> memory_manager" where
  "memory_monitor rnd now m =
     (let as = mm_allocations m; allocated = total_allocated as
      in m\<lparr>mm_usage := (mm_usage m)\<lparr>ru_allocated_amount := allocated,
            ru_allocation_count := of_nat (card (dom as)), ru_updated_at := now,
            ru_used_amount := f64_as_u64 (rnd (rnd (real (unat allocated)) * rnd 0.8))\<rparr>\<rparr>)"

definition memory_health_round :: "(real \<Rightarrow> real) \<Rightarrow> time \<Rightarrow> memory_manager \<Rightarrow> memory_manager" where
  "memory_health_round rnd now m =
     (let utilization = ru_utilization_percent rnd (mm_usage m);
          h = if utilization > 95 then MUnhealthy
              else if utilization > 85 \<or> is_overallocated (mm_usage m) then MDegraded else MHealthy
      in m\<lparr>mm_state := (mm_state m)\<lparr>st_health := h, st_last_health_check := now\<rparr>\<rparr>)"

definition memory_update_limits ::
  "time \<Rightarrow> resource_limits \<Rightarrow> memory_manager \<Rightarrow> unit outcome \<times> memory_manager" where
  "memory_update_limits now limits m =
     (if rl_resource_type limits \<noteq> Memory then (Err (ConfigurationError ''memory_manager.limits.resource_type''), m)
      else (Ok (), m\<lparr>mm_usage := (mm_usage m)\<lparr>ru_total_capacity := rl_hard_limit limits, ru_updated_at := now\<rparr>\<rparr>))"

definition memory_validate_config :: "manager_config \<Rightarrow> unit outcome" where
  "memory_validate_config config =
     (let limits = mc_limits config
      in if mc_resource_type config \<noteq> Memory then Err (ConfigurationError ''memory_manager.config.resource_type'')
         else if rl_hard_limit limits = 0 then Err (ConfigurationError ''memory_manager.config.hard_limit'')
         else if rl_soft_limit limits > rl_hard_limit limits
         then Err (ConfigurationError ''memory_manager.config.soft_limit'')
         else if rl_overcommit_ratio limits < 1
         then Err (ConfigurationError ''memory_manager.config.overcommit_ratio'')
         else Ok ())"

datatype memory_event =
    MAllocate call_env allocation_request
  | MDeallocate call_env string
  | MInitialize time
  | MStart
  | MStop
  | MMonitor time
  | MHealthRound time
  | MUpdateLimits time resource_limits

fun memory_step :: "(real \<Rightarrow> real) \<Rightarrow> memory_manager \<Rightarrow> memory_event \<Rightarrow> memory_manager" where
  "memory_step rnd m (MAllocate e q) = snd (memory_allocate rnd e q m)"
| "memory_step rnd m (MDeallocate e i) = snd (memory_deallocate rnd e i m)"
| "memory_step rnd m (MInitialize now) = memory_initialize now m"
| "memory_step rnd m MStart = memory_start m"
| "memory_step rnd m MStop = memory_stop m"
| "memory_step rnd m (MMonitor now) = memory_monitor rnd now m"
| "memory_step rnd m (MHealthRound now) = memory_health_round rnd now m"
| "memory_step rnd m (MUpdateLimits now l) = snd (memory_update_limits now l m)"

section \<open>The contract of the trait\<close>

text \<open>
  What callers rely on: a granted allocation can be looked up, a refused one changes nothing, an
  allocation on record can be released exactly once. \<open>inv\<close> is the invariant of the implementation.
\<close>

locale resource_manager =
  fixes alloc :: "'e \<Rightarrow> allocation_request \<Rightarrow> 's \<Rightarrow> resource_allocation outcome \<times> 's"
    and dealloc :: "'e \<Rightarrow> string \<Rightarrow> 's \<Rightarrow> unit outcome \<times> 's"
    and lookup :: "'s \<Rightarrow> string \<rightharpoonup> resource_allocation"
    and inv :: "'s \<Rightarrow> bool"
  assumes alloc_ok: "inv s \<Longrightarrow> alloc e q s = (Ok a, s') \<Longrightarrow> lookup s (al_allocation_id a) = None \<Longrightarrow>
      inv s' \<and> lookup s' = (lookup s)(al_allocation_id a \<mapsto> a) \<and> al_request a = q"
    and alloc_fails: "inv s \<Longrightarrow> alloc e q s = (r, s') \<Longrightarrow> \<not> is_ok r \<Longrightarrow> s' = s"
    and dealloc_ok: "inv s \<Longrightarrow> lookup s i \<noteq> None \<Longrightarrow>
      \<exists>s'. dealloc e i s = (Ok (), s') \<and> inv s' \<and> lookup s' = (lookup s)(i := None)"
    and dealloc_fails: "inv s \<Longrightarrow> lookup s i = None \<Longrightarrow> dealloc e i s = (Err ResourceUnavailable, s)"
begin

lemma dealloc_cases:
  assumes "inv s" and "dealloc e i s = (r, s')"
  shows "inv s' \<and> lookup s' = (lookup s)(i := None) \<and> r = (if lookup s i = None then Err ResourceUnavailable else Ok ())"
proof (cases "lookup s i")
  case None
  with assms dealloc_fails [of s i e] show ?thesis by (auto simp: fun_upd_idem)
next
  case (Some a)
  with assms dealloc_ok [of s i e] show ?thesis by auto
qed

lemma grant_release_once:
  assumes "inv s" and "alloc e q s = (Ok a, s1)" and "lookup s (al_allocation_id a) = None"
    and "dealloc e1 (al_allocation_id a) s1 = (r2, s2)" and "dealloc e2 (al_allocation_id a) s2 = (r3, s3)"
  shows "lookup s1 (al_allocation_id a) = Some a \<and> al_request a = q \<and> r2 = Ok () \<and> lookup s2 = lookup s \<and>
    r3 = Err ResourceUnavailable \<and> lookup s3 = lookup s"
proof -
  have 1: "inv s1" "lookup s1 = (lookup s)(al_allocation_id a \<mapsto> a)" "al_request a = q"
    using alloc_ok [OF assms(1-3)] by auto
  have 2: "inv s2" "lookup s2 = lookup s" "r2 = Ok ()"
    using dealloc_cases [OF 1(1) assms(4)] 1(2) assms(3) by auto
  show ?thesis using dealloc_cases [OF 2(1) assms(5)] 1 2 assms(3) by (simp add: fun_upd_idem)
qed

end

section \<open>The memory manager\<close>

definition memory_units :: "(string \<rightharpoonup> resource_allocation) \<Rightarrow> nat" where
  "memory_units as = (\<Sum>i \<in> dom as. unat (al_allocated_amount (the (as i))))"

definition memory_inv :: "(real \<Rightarrow> real) \<Rightarrow> memory_manager \<Rightarrow> bool" where
  "memory_inv rnd m \<longleftrightarrow> finite (dom (mm_allocations m)) \<and>
     (\<forall>i a. mm_allocations m i = Some a \<longrightarrow> al_status a = Active) \<and>
     ru_allocated_amount (mm_usage m) = total_allocated (mm_allocations m) \<and>
     (memory_units (mm_allocations m) = 0 \<or>
      memory_units (mm_allocations m) + unat (rl_system_reserve (mc_limits (mm_config m))) \<le>
        unat (memory_effective_capacity rnd m))"

lemma memory_update_usage_stats_simps [simp]:
  "mm_allocations (memory_update_usage_stats rnd e m) = mm_allocations m"
  "mm_config (memory_update_usage_stats rnd e m) = mm_config m"
  "mm_state (memory_update_usage_stats rnd e m) = mm_state m"
  "ru_allocated_amount (mm_usage (memory_update_usage_stats rnd e m)) = total_allocated (mm_allocations m)"
  by (simp_all add: memory_update_usage_stats_def Let_def)

lemma memory_effective_capacity_cong:
  "mm_config m = mm_config m' \<Longrightarrow> memory_effective_capacity rnd m = memory_effective_capacity rnd m'"
  by (simp add: memory_effective_capacity_def)

lemma unat_sum_fits:
  fixes f :: "'b \<Rightarrow> 'a::len word"
  assumes "finite A" and "(\<Sum>i \<in> A. unat (f i)) < 2 ^ LENGTH('a)"
  shows "unat (\<Sum>i \<in> A. f i) = (\<Sum>i \<in> A. unat (f i))"
  using assms
proof (induction A)
  case (insert i A)
  then have "unat (sum f A) = (\<Sum>i \<in> A. unat (f i))" by simp
  with insert show ?case by (simp add: unat_word_ariths)
qed simp

lemma memory_inv_units:
  assumes "memory_inv rnd m"
  shows "unat (ru_allocated_amount (mm_usage m)) = memory_units (mm_allocations m)"
proof -
  have live: "{i \<in> dom (mm_allocations m). counts (al_status (the (mm_allocations m i)))} = dom (mm_allocations m)"
    using assms by (force simp: memory_inv_def counts_def)
  have "memory_units (mm_allocations m) < 2 ^ LENGTH(64)"
    using assms unat_bound [of "memory_effective_capacity rnd m"] by (auto simp: memory_inv_def)
  then show ?thesis using assms live
    by (simp add: memory_inv_def total_allocated_def memory_units_def unat_sum_fits)
qed

lemma memory_units_upd:
  "finite (dom as) \<Longrightarrow> memory_units (as(i \<mapsto> a)) \<le> memory_units as + unat (al_allocated_amount a)"
proof -
  assume fin: "finite (dom as)"
  have "memory_units (as(i \<mapsto> a)) = unat (al_allocated_amount a) +
      (\<Sum>j \<in> dom as - {i}. unat (al_allocated_amount (the (as j))))"
    unfolding memory_units_def using fin by (simp add: sum.insert_remove)
  also have "(\<Sum>j \<in> dom as - {i}. unat (al_allocated_amount (the (as j)))) \<le> memory_units as"
    unfolding memory_units_def using fin by (intro sum_mono2) auto
  finally show ?thesis by simp
qed

lemma memory_units_remove: "finite (dom as) \<Longrightarrow> memory_units (as(i := None)) \<le> memory_units as"
proof -
  assume fin: "finite (dom as)"
  have "memory_units (as(i := None)) = (\<Sum>j \<in> dom as - {i}. unat (al_allocated_amount (the (as j))))"
    unfolding memory_units_def by (intro sum.cong) auto
  also have "\<dots> \<le> memory_units as" unfolding memory_units_def using fin by (intro sum_mono2) auto
  finally show ?thesis .
qed

lemma memory_allocate_Ok:
  "memory_allocate rnd e q m = (Ok a, m') \<longleftrightarrow> memory_validate_request rnd q m = Ok () \<and>
     a = \<lparr>al_allocation_id = allocation_key ''mem-'' (ar_tenant_id q) (ce_stamp e), al_request = q,
          al_allocated_amount = ar_amount q, al_allocated_on = Some ''memory'',
          al_allocated_at = ce_now e, al_status = Active\<rparr> \<and>
     m' = (let n = memory_update_usage_stats rnd e (m\<lparr>mm_allocations := (mm_allocations m)(al_allocation_id a \<mapsto> a)\<rparr>)
           in n\<lparr>mm_state := count_allocation (ce_elapsed e) (mm_state n)\<rparr>)"
  by (cases "memory_validate_request rnd q m") (auto simp: memory_allocate_def Let_def)

lemma memory_allocate_fails: "memory_allocate rnd e q m = (r, m') \<Longrightarrow> \<not> is_ok r \<Longrightarrow> m' = m"
  by (cases "memory_validate_request rnd q m") (auto simp: memory_allocate_def Let_def)

lemma memory_validate_Ok:
  "memory_validate_request rnd q m = Ok () \<longleftrightarrow> ar_resource_type q = Memory \<and>
     unat (ar_amount q) \<le> unat (memory_effective_capacity rnd m) - unat (ru_allocated_amount (mm_usage m)) -
       unat (rl_system_reserve (mc_limits (mm_config m)))"
  by (auto simp: memory_validate_request_def memory_available_capacity_def word_less_nat_alt unat_saturating_sub)

lemma memory_inv_allocate:
  assumes inv: "memory_inv rnd m" and ok: "memory_allocate rnd e q m = (Ok a, m')"
  shows "memory_inv rnd m'"
proof -
  let ?as = "(mm_allocations m)(al_allocation_id a \<mapsto> a)"
  have a: "al_status a = Active" "al_allocated_amount a = ar_amount q" using ok by (simp_all add: memory_allocate_Ok)
  have m': "mm_allocations m' = ?as" "mm_config m' = mm_config m"
    "ru_allocated_amount (mm_usage m') = total_allocated ?as"
    using ok by (simp_all add: memory_allocate_Ok Let_def)
  have fin: "finite (dom (mm_allocations m))" using inv by (simp add: memory_inv_def)
  have le: "memory_units ?as \<le> memory_units (mm_allocations m) + unat (ar_amount q)"
    using memory_units_upd [OF fin, of "al_allocation_id a" a] a by simp
  have fit: "unat (ar_amount q) \<le> unat (memory_effective_capacity rnd m) - memory_units (mm_allocations m) -
      unat (rl_system_reserve (mc_limits (mm_config m)))"
    using ok memory_inv_units [OF inv] by (simp add: memory_allocate_Ok memory_validate_Ok)
  have "memory_units ?as = 0 \<or> memory_units ?as + unat (rl_system_reserve (mc_limits (mm_config m))) \<le>
      unat (memory_effective_capacity rnd m)"
    using le fit inv unfolding memory_inv_def by linarith
  then show ?thesis
    using inv a m' memory_effective_capacity_cong [OF m'(2), of rnd] by (simp add: memory_inv_def)
qed

lemma memory_inv_deallocate: "memory_inv rnd m \<Longrightarrow> memory_inv rnd (snd (memory_deallocate rnd e i m))"
proof (cases "mm_allocations m i")
  case (Some a)
  assume inv: "memory_inv rnd m"
  let ?m = "snd (memory_deallocate rnd e i m)"
  have m': "mm_allocations ?m = (mm_allocations m)(i := None)" "mm_config ?m = mm_config m"
    "ru_allocated_amount (mm_usage ?m) = total_allocated ((mm_allocations m)(i := None))"
    using Some by (simp_all add: memory_deallocate_def Let_def)
  have "memory_units ((mm_allocations m)(i := None)) \<le> memory_units (mm_allocations m)"
    using inv by (intro memory_units_remove) (simp add: memory_inv_def)
  with inv have "memory_units ((mm_allocations m)(i := None)) = 0 \<or>
      memory_units ((mm_allocations m)(i := None)) + unat (rl_system_reserve (mc_limits (mm_config m))) \<le>
        unat (memory_effective_capacity rnd m)"
    unfolding memory_inv_def by linarith
  then show ?thesis
    using inv m' memory_effective_capacity_cong [OF m'(2), of rnd] by (simp add: memory_inv_def)
qed (simp add: memory_deallocate_def)

lemma memory_step_config [simp]: "mm_config (memory_step rnd m ev) = mm_config m"
proof (cases ev)
  case (MAllocate e q)
  then show ?thesis
    by (cases "memory_validate_request rnd q m") (simp_all add: memory_allocate_def Let_def)
next
  case (MDeallocate e i)
  then show ?thesis by (cases "mm_allocations m i") (simp_all add: memory_deallocate_def Let_def)
qed (simp_all add: memory_initialize_def memory_start_def memory_stop_def memory_monitor_def
    memory_health_round_def memory_update_limits_def Let_def)

lemma memory_inv_step: "memory_inv rnd m \<Longrightarrow> memory_inv rnd (memory_step rnd m ev)"
proof -
  assume inv: "memory_inv rnd m"
  have other: "memory_inv rnd m'" if "mm_allocations m' = mm_allocations m" "mm_config m' = mm_config m"
      "ru_allocated_amount (mm_usage m') = total_allocated (mm_allocations m)" for m'
    using inv that memory_effective_capacity_cong [OF that(2), of rnd] by (simp add: memory_inv_def)
  have usage: "ru_allocated_amount (mm_usage m) = total_allocated (mm_allocations m)"
    using inv by (simp add: memory_inv_def)
  show ?thesis
  proof (cases ev)
    case (MAllocate e q)
    obtain r m' where r: "memory_allocate rnd e q m = (r, m')" by fastforce
    show ?thesis
    proof (cases r)
      case (Ok a)
      then show ?thesis using memory_inv_allocate [OF inv] r MAllocate by simp
    qed (use memory_allocate_fails [OF r] r inv MAllocate in simp_all)
  next
    case (MDeallocate e i)
    then show ?thesis using memory_inv_deallocate [OF inv] by simp
  qed (use usage in \<open>auto intro!: other simp: memory_initialize_def memory_start_def memory_stop_def
      memory_monitor_def memory_health_round_def memory_update_limits_def Let_def\<close>)
qed

interpretation memory_machine: event_machine "memory_step rnd" "\<lambda>_ _. True" "memory_inv rnd" for rnd
  by unfold_locales (rule memory_inv_step)

interpretation memory: resource_manager "memory_allocate rnd" "memory_deallocate rnd" memory_get_allocation
  "memory_inv rnd" for rnd
proof unfold_locales
  fix s e q a s'
  assume "memory_inv rnd s" and ok: "memory_allocate rnd e q s = (Ok a, s')"
  then have "memory_inv rnd s'" by (rule memory_inv_allocate)
  then show "memory_inv rnd s' \<and> memory_get_allocation s' = (memory_get_allocation s)(al_allocation_id a \<mapsto> a) \<and>
      al_request a = q"
    using ok by (auto simp: memory_allocate_Ok Let_def memory_get_allocation_def fun_eq_iff)
next
  fix s e q r s'
  assume "memory_allocate rnd e q s = (r, s')" "\<not> is_ok r"
  then show "s' = s" by (rule memory_allocate_fails)
next
  fix s i e
  assume inv: "memory_inv rnd s" and "memory_get_allocation s i \<noteq> None"
  then show "\<exists>s'. memory_deallocate rnd e i s = (Ok (), s') \<and> memory_inv rnd s' \<and>
      memory_get_allocation s' = (memory_get_allocation s)(i := None)"
    using memory_inv_deallocate [OF inv, of e i]
    by (auto simp: memory_deallocate_def memory_get_allocation_def Let_def fun_eq_iff)
qed (simp add: memory_deallocate_def memory_get_allocation_def)

section \<open>Properties\<close>

text \<open>C31. The memory manager never grants more than it has: after any sequence of calls and rounds of
  the background tasks the accounted memory is the sum of the allocations on record, without
  wrap-around, and together with the system reserve it is within the capacity after overcommit;
  the availability check says yes exactly if the allocation would be granted.\<close>

theorem memory_within_limit:
  assumes "reach (memory_step rnd) (\<lambda>_ _. True) (memory_manager_new now config) m"
  shows "unat (ru_allocated_amount (mm_usage m)) =
      (\<Sum>i \<in> dom (mm_allocations m). unat (al_allocated_amount (the (mm_allocations m i)))) \<and>
    (ru_allocated_amount (mm_usage m) = 0 \<or>
     unat (ru_allocated_amount (mm_usage m)) + unat (rl_system_reserve (mc_limits config)) \<le>
       unat (memory_effective_capacity rnd (memory_manager_new now config))) \<and>
    (memory_check_availability rnd q m = Ok True \<longleftrightarrow> is_ok (fst (memory_allocate rnd e q m)))"
proof -
  have "memory_inv rnd (memory_manager_new now config)"
    by (simp add: memory_inv_def memory_manager_new_def memory_units_def total_allocated_def Let_def)
  then have inv: "memory_inv rnd m" by (rule memory_machine.reach_inv [OF assms])
  have c: "mm_config m = mm_config (memory_manager_new now config)"
    using assms by (induction rule: reach.induct) simp_all
  have "memory_check_availability rnd q m = Ok True \<longleftrightarrow> is_ok (fst (memory_allocate rnd e q m))"
    by (cases "memory_validate_request rnd q m") (simp_all add: memory_check_availability_def memory_allocate_def Let_def)
  moreover have "rl_system_reserve (mc_limits (mm_config m)) = rl_system_reserve (mc_limits config)"
    by (simp add: c memory_manager_new_def Let_def)
  ultimately show ?thesis
    using inv memory_inv_units [OF inv] memory_effective_capacity_cong [OF c, of rnd]
    by (auto simp: memory_inv_def memory_units_def unat_eq_zero)
qed

section \<open>A concrete run\<close>

definition sample_limits :: resource_limits where
  "sample_limits = resource_limits_default\<lparr>rl_hard_limit := 1000, rl_system_reserve := 100\<rparr>"

definition sample_memory_request :: allocation_request where
  "sample_memory_request = \<lparr>ar_request_id = ''r'', ar_tenant_id = ''t'', ar_resource_type = Memory,
     ar_amount = 600, ar_priority = 0, ar_is_temporary = False, ar_expires_at = None, ar_metadata = Map.empty\<rparr>"

definition sample_call :: "int \<Rightarrow> call_env" where
  "sample_call stamp = \<lparr>ce_now = stamp, ce_stamp = stamp, ce_elapsed = Some 1, ce_random = 0\<rparr>"

definition sample_memory_manager :: memory_manager where
  "sample_memory_manager = memory_manager_new 0 ((manager_config_new Memory)\<lparr>mc_limits := sample_limits\<rparr>)"

lemma sample_memory_granted:
  "is_ok (fst (memory_allocate (\<lambda>x. x) (sample_call 1) sample_memory_request sample_memory_manager))"
  by (simp add: memory_allocate_def memory_validate_request_def memory_available_capacity_def
      memory_effective_capacity_def sample_memory_request_def sample_memory_manager_def sample_limits_def
      memory_manager_new_def manager_config_new_def resource_limits_default_def saturating_sub_def Let_def)

theorem memory_within_limit_witness:
  "\<exists>m. m = memory_step (\<lambda>x. x) sample_memory_manager (MAllocate (sample_call 1) sample_memory_request) \<and>
     unat (ru_allocated_amount (mm_usage m)) = 600 \<and> 600 + (100 :: nat) \<le> 1000"
proof -
  let ?m = "memory_step (\<lambda>x. x) sample_memory_manager (MAllocate (sample_call 1) sample_memory_request)"
  have "reach (memory_step (\<lambda>x. x)) (\<lambda>_ _. True) sample_memory_manager ?m" by (blast intro: reach.intros)
  note limit = memory_within_limit [OF this [unfolded sample_memory_manager_def]]
  obtain a m' where ok: "memory_allocate (\<lambda>x. x) (sample_call 1) sample_memory_request sample_memory_manager = (Ok a, m')"
    using sample_memory_granted by (metis is_ok_iff prod.collapse)
  have "?m = m'" using ok by simp
  moreover have "mm_allocations m' = [al_allocation_id a \<mapsto> a]" "al_allocated_amount a = 600"
    using ok unfolding memory_allocate_Ok
    by (simp_all add: Let_def sample_memory_manager_def memory_manager_new_def sample_memory_request_def)
  ultimately have "mm_allocations ?m = [al_allocation_id a \<mapsto> a]" "al_allocated_amount a = 600" by simp_all
  then have "unat (ru_allocated_amount (mm_usage ?m)) = 600"
    using limit unfolding sample_memory_manager_def by simp
  then show ?thesis by simp
qed

end
