(* ===== verification/Cpu_Manager.thy ===== *)
theory Cpu_Manager
  imports Resource_Manager
begin

text \<open>
  The implementation of the \<open>ResourceManager\<close> trait for CPU cores
  (\<open>resource_managers/cpu_manager.rs\<close>). The theory shows that cores assigned exclusively are not
  shared when requests do not interleave and how they come to be shared when they do, that the core
  search finds cores whenever there are enough, and that the manager keeps the contract of the trait.
\<close>

section \<open>State\<close>

datatype cpu_scheduling_policy = FirstFit | BestFit | RoundRobin | AffinityAware

record cpu_allocation =
  ca_base :: resource_allocation
  ca_assigned_cores :: "u32 list"
  ca_affinity_mask :: "u64 option"
  ca_scheduling_policy :: cpu_scheduling_policy
  ca_exclusive :: bool

record core_usage =
  cu_core_id :: u32
  cu_allocated_vcpus :: u32
  cu_utilization_percent :: real
  cu_exclusive :: bool
  cu_exclusive_tenant :: "string option"

record cpu_manager =
  cp_config :: manager_config
  cp_allocations :: "string \<rightharpoonup> cpu_allocation"
  cp_core_usage :: "u32 \<rightharpoonup> core_usage"
  cp_usage :: resource_usage
  cp_state :: manager_state
  cp_scheduling_policy :: cpu_scheduling_policy
  cp_total_cores :: u32

definition core_ids :: "u32 \<Rightarrow> u32 list" where
  "core_ids n = map of_nat [0..<unat n]"

definition free_core :: "u32 \<Rightarrow> core_usage" where
  "free_core c = \<lparr>cu_core_id = c, cu_allocated_vcpus = 0, cu_utilization_percent = 0, cu_exclusive = False,
     cu_exclusive_tenant = None\<rparr>"

definition cpu_manager_new :: "time \<Rightarrow> manager_config \<Rightarrow> u32 \<Rightarrow> cpu_manager" where
  "cpu_manager_new now config total_cores =
     \<lparr>cp_config = config\<lparr>mc_resource_type := Cpu\<rparr>, cp_allocations = Map.empty,
      cp_core_usage = map_of (map (\<lambda>c. (c, free_core c)) (core_ids total_cores)),
      cp_usage = \<lparr>ru_resource_type = Cpu, ru_total_capacity = ucast total_cores, ru_allocated_amount = 0,
        ru_used_amount = 0, ru_allocation_count = 0, ru_updated_at = now\<rparr>,
      cp_state = manager_state_default now, cp_scheduling_policy = FirstFit, cp_total_cores = total_cores\<rparr>"

text \<open>\<open>CpuResourceManagerBuilder::build\<close> sets the policy afterwards.\<close>

definition cpu_manager_build :: "time \<Rightarrow> manager_config \<Rightarrow> u32 \<Rightarrow> cpu_scheduling_policy \<Rightarrow> cpu_manager" where
  "cpu_manager_build now config total_cores policy =
     (cpu_manager_new now config total_cores)\<lparr>cp_scheduling_policy := policy\<rparr>"

section \<open>The search for cores\<close>

definition usable :: "bool \<Rightarrow> cpu_manager \<Rightarrow> u32 \<Rightarrow> bool" where
  "usable exclusive m c =
     (case cp_core_usage m c of
        None \<Rightarrow> False
      | Some k \<Rightarrow> if exclusive then cu_allocated_vcpus k = 0 else \<not> cu_exclusive k)"

text \<open>Push the cores that pass the test until there are \<open>n\<close> of them; the test of the length comes
  after the push, so that one core is taken for \<open>n = 0\<close>.\<close>

fun push_until :: "(u32 \<Rightarrow> bool) \<Rightarrow> nat \<Rightarrow> u32 list \<Rightarrow> u32 list \<Rightarrow> u32 list" where
  "push_until p n acc [] = acc"
| "push_until p n acc (c # cs) =
     (if p c then if length (acc @ [c]) \<ge> n then acc @ [c] else push_until p n (acc @ [c]) cs
      else push_until p n acc cs)"

definition enough :: "nat \<Rightarrow> u32 list \<Rightarrow> u32 list outcome" where
  "enough n cs = (if length cs < n then Err InsufficientResources else Ok cs)"

definition vcpus_of :: "cpu_manager \<Rightarrow> u32 \<Rightarrow> u32" where
  "vcpus_of m c = (case cp_core_usage m c of None \<Rightarrow> 0 | Some k \<Rightarrow> cu_allocated_vcpus k)"

fun find_run :: "cpu_manager \<Rightarrow> bool \<Rightarrow> nat \<Rightarrow> u32 list \<Rightarrow> u32 list \<Rightarrow> u32 list" where
  "find_run m exclusive n current [] = []"
| "find_run m exclusive n current (c # cs) =
     (if cp_core_usage m c = None then find_run m exclusive n current cs
      else if usable exclusive m c then find_run m exclusive n (current @ [c]) cs
      else if length current \<ge> n then current
      else find_run m exclusive n [] cs)"

definition find_available_cores_first_fit :: "u32 \<Rightarrow> bool \<Rightarrow> cpu_manager \<Rightarrow> u32 list outcome" where
  "find_available_cores_first_fit vcpus_needed exclusive m =
     enough (unat vcpus_needed)
       (push_until (\<lambda>c. usable exclusive m c \<and> (exclusive \<or> vcpus_of m c < 4)) (unat vcpus_needed) []
          (core_ids (cp_total_cores m)))"

text \<open>\<open>order\<close> lists the keys of the core map in the order of the traversal.\<close>

definition find_available_cores :: "u32 list \<Rightarrow> u32 \<Rightarrow> bool \<Rightarrow> cpu_manager \<Rightarrow> u32 list outcome" where
  "find_available_cores order vcpus_needed exclusive m =
     (let n = unat vcpus_needed; ids = core_ids (cp_total_cores m)
      in case cp_scheduling_policy m of
           FirstFit \<Rightarrow> enough n (push_until (usable exclusive m) n [] ids)
         | BestFit \<Rightarrow> enough n (take n (sort_key (vcpus_of m) (filter (usable exclusive m) order)))
         | RoundRobin \<Rightarrow> enough n (filter (usable exclusive m) (take n (sort_key (vcpus_of m) ids)))
         | AffinityAware \<Rightarrow>
             let consecutive = find_run m exclusive n [] ids
             in if length consecutive \<ge> n then enough n (take n consecutive)
                else find_available_cores_first_fit vcpus_needed exclusive m)"

section \<open>Operations\<close>

definition take_core :: "bool \<Rightarrow> string \<Rightarrow> core_usage \<Rightarrow> core_usage" where
  "take_core exclusive tenant_id k =
     (if exclusive then k\<lparr>cu_exclusive := True, cu_exclusive_tenant := Some tenant_id, cu_allocated_vcpus := 1\<rparr>
      else k\<lparr>cu_allocated_vcpus := cu_allocated_vcpus k + 1\<rparr>)"

definition give_core :: "bool \<Rightarrow> core_usage \<Rightarrow> core_usage" where
  "give_core exclusive k =
     (if exclusive then k\<lparr>cu_exclusive := False, cu_exclusive_tenant := None, cu_allocated_vcpus := 0\<rparr>
      else k\<lparr>cu_allocated_vcpus := saturating_sub (cu_allocated_vcpus k) 1\<rparr>)"

definition update_cores :: "(core_usage \<Rightarrow> core_usage) \<Rightarrow> u32 list \<Rightarrow> cpu_manager \<Rightarrow> cpu_manager" where
  "update_cores f cores m =
     m\<lparr>cp_core_usage := fold (\<lambda>c us. us(c := map_option f (us c))) cores (cp_core_usage m)\<rparr>"

definition allocate_cores :: "u32 list \<Rightarrow> bool \<Rightarrow> string \<Rightarrow> cpu_manager \<Rightarrow> cpu_manager" where
  "allocate_cores cores exclusive tenant_id = update_cores (take_core exclusive tenant_id) cores"

definition deallocate_cores :: "u32 list \<Rightarrow> bool \<Rightarrow> cpu_manager \<Rightarrow> cpu_manager" where
  "deallocate_cores cores exclusive = update_cores (give_core exclusive) cores"

text \<open>The sum of the utilizations is rounded after every core, in the order of the traversal.\<close>

definition cores_used :: "(real \<Rightarrow> real) \<Rightarrow> u32 list \<Rightarrow> cpu_manager \<Rightarrow> real" where
  "cores_used rnd order m =
     fold (\<lambda>c x. case cp_core_usage m c of
                   None \<Rightarrow> x
                 | Some k \<Rightarrow> if cu_allocated_vcpus k > 0 then rnd (x + cu_utilization_percent k) else x) order 0"

definition live_cpu :: "(string \<rightharpoonup> cpu_allocation) \<Rightarrow> string set" where
  "live_cpu as = {i \<in> dom as. counts (al_status (ca_base (the (as i))))}"

definition cpu_update_usage_stats ::
  "(real \<Rightarrow> real) \<Rightarrow> u32 list \<Rightarrow> call_env \<Rightarrow> cpu_manager \<Rightarrow> cpu_manager" where
  "cpu_update_usage_stats rnd order e m =
     (let as = cp_allocations m
      in m\<lparr>cp_usage := (cp_usage m)\<lparr>
            ru_allocated_amount := (\<Sum>i \<in> live_cpu as. of_nat (length (ca_assigned_cores (the (as i))))),
            ru_used_amount := f64_as_u64 (rnd (cores_used rnd order m / 100)),
            ru_allocation_count := of_nat (card (live_cpu as)),
            ru_updated_at := ce_now e\<rparr>\<rparr>)"

definition wants_exclusive :: "allocation_request \<Rightarrow> bool" where
  "wants_exclusive q \<longleftrightarrow> ar_metadata q ''exclusive'' = Some ''true''"

text \<open>The part of \<open>allocate\<close> after the search, which has released the lock of the core map.\<close>

definition cpu_record ::
  "(real \<Rightarrow> real) \<Rightarrow> u32 list \<Rightarrow> call_env \<Rightarrow> allocation_request \<Rightarrow> u32 list \<Rightarrow> cpu_manager \<Rightarrow>
     resource_allocation \<times> cpu_manager" where
  "cpu_record rnd order e q cores m =
     (let a = \<lparr>al_allocation_id = allocation_key ''cpu-'' (ar_tenant_id q) (ce_stamp e), al_request = q,
              al_allocated_amount = of_nat (length cores), al_allocated_on = Some ''cpu'',
              al_allocated_at = ce_now e, al_status = Active\<rparr>;
          c = \<lparr>ca_base = a, ca_assigned_cores = cores, ca_affinity_mask = None,
              ca_scheduling_policy = cp_scheduling_policy m, ca_exclusive = wants_exclusive q\<rparr>;
          m = allocate_cores cores (wants_exclusive q) (ar_tenant_id q) m;
          m = m\<lparr>cp_allocations := (cp_allocations m)(al_allocation_id a \<mapsto> c)\<rparr>;
          m = cpu_update_usage_stats rnd order e m
      in (a, m\<lparr>cp_state := count_allocation (ce_elapsed e) (cp_state m)\<rparr>))"

definition cpu_allocate ::
  "(real \<Rightarrow> real) \<Rightarrow> u32 list \<Rightarrow> call_env \<Rightarrow> allocation_request \<Rightarrow> cpu_manager \<Rightarrow>
     resource_allocation outcome \<times> cpu_manager" where
  "cpu_allocate rnd order e q m =
     (if ar_resource_type q \<noteq> Cpu then (Err (ConfigurationError ''cpu_manager.allocation.resource_type''), m)
      else case find_available_cores order (ucast (ar_amount q)) (wants_exclusive q) m of
             Ok cores \<Rightarrow> (case cpu_record rnd order e q cores m of (a, m') \<Rightarrow> (Ok a, m'))
           | Err x \<Rightarrow> (Err x, m) | Panics \<Rightarrow> (Panics, m) | Blocks \<Rightarrow> (Blocks, m))"

definition cpu_deallocate ::
  "(real \<Rightarrow> real) \<Rightarrow> u32 list \<Rightarrow> call_env \<Rightarrow> string \<Rightarrow> cpu_manager \<Rightarrow> unit outcome \<times> cpu_manager" where
  "cpu_deallocate rnd order e i m =
     (case cp_allocations m i of
        None \<Rightarrow> (Err ResourceUnavailable, m)
      | Some c \<Rightarrow>
          let m = m\<lparr>cp_allocations := (cp_allocations m)(i := None)\<rparr>;
              m = deallocate_cores (ca_assigned_cores c) (ca_exclusive c) m;
              m = cpu_update_usage_stats rnd order e m
          in (Ok (), m\<lparr>cp_state := (cp_state m)\<lparr>st_total_deallocations := st_total_deallocations (cp_state m) + 1\<rparr>\<rparr>))"

definition cpu_check_availability :: "u32 list \<Rightarrow> allocation_request \<Rightarrow> cpu_manager \<Rightarrow> bool outcome" where
  "cpu_check_availability order q m =
     (if ar_resource_type q \<noteq> Cpu then Ok False
      else case find_available_cores order (ucast (ar_amount q)) (wants_exclusive q) m of
             Ok _ \<Rightarrow> Ok True | Err x \<Rightarrow> (if x = InsufficientResources then Ok False else Err x)
           | Panics \<Rightarrow> Panics | Blocks \<Rightarrow> Blocks)"

definition cpu_get_allocation :: "cpu_manager \<Rightarrow> string \<rightharpoonup> resource_allocation" where
  "cpu_get_allocation m i = map_option ca_base (cp_allocations m i)"

definition cpu_initialize :: "time \<Rightarrow> cpu_manager \<Rightarrow> cpu_manager" where
  "cpu_initialize now m =
     m\<lparr>cp_usage := (cp_usage m)\<lparr>ru_total_capacity := ucast (cp_total_cores m), ru_updated_at := now\<rparr>,
       cp_state := (cp_state m)\<lparr>st_health := MHealthy, st_last_health_check := now\<rparr>\<rparr>"

definition cpu_start :: "cpu_manager \<Rightarrow> cpu_manager" where
  "cpu_start m = m\<lparr>cp_state := (cp_state m)\<lparr>st_is_running := True, st_health := MHealthy\<rparr>\<rparr>"

definition cpu_stop :: "cpu_manager \<Rightarrow> cpu_manager" where
  "cpu_stop m = m\<lparr>cp_state := (cp_state m)\<lparr>st_is_running := False, st_health := MStopped\<rparr>\<rparr>"

definition cpu_update_limits ::
  "time \<Rightarrow> resource_limits \<Rightarrow> cpu_manager \<Rightarrow> unit outcome \<times> cpu_manager" where
  "cpu_update_limits now limits m =
     (if rl_resource_type limits \<noteq> Cpu then (Err (ConfigurationError ''cpu_manager.limits.resource_type''), m)
      else (Ok (), m\<lparr>cp_usage := (cp_usage m)\<lparr>ru_total_capacity := rl_hard_limit limits, ru_updated_at := now\<rparr>\<rparr>))"

definition cpu_validate_config :: "manager_config \<Rightarrow> unit outcome" where
  "cpu_validate_config config =
     (if mc_resource_type config \<noteq> Cpu then Err (ConfigurationError ''cpu_manager.config.resource_type'')
      else if rl_hard_limit (mc_limits config) = 0 then Err (ConfigurationError ''cpu_manager.config.hard_limit'')
      else Ok ())"

text \<open>One round of the monitoring task; \<open>r\<close> gives the random number of each core.\<close>

definition cpu_monitor :: "(real \<Rightarrow> real) \<Rightarrow> (u32 \<Rightarrow> real) \<Rightarrow> cpu_manager \<Rightarrow> cpu_manager" where
  "cpu_monitor rnd r m =
     m\<lparr>cp_core_usage := (\<lambda>c. map_option (\<lambda>k.
         if cu_allocated_vcpus k > 0 then k\<lparr>cu_utilization_percent := rnd (20 + rnd (r c * 60))\<rparr> else k)
       (cp_core_usage m c))\<rparr>"

datatype cpu_event =
    CAllocate "u32 list" call_env allocation_request
  | CDeallocate "u32 list" call_env string
  | CInitialize time
  | CStart
  | CStop
  | CMonitor "u32 \<Rightarrow> real"
  | CUpdateLimits time resource_limits

fun cpu_step :: "(real \<Rightarrow> real) \<Rightarrow> cpu_manager \<Rightarrow> cpu_event \<Rightarrow> cpu_manager" where
  "cpu_step rnd m (CAllocate order e q) = snd (cpu_allocate rnd order e q m)"
| "cpu_step rnd m (CDeallocate order e i) = snd (cpu_deallocate rnd order e i m)"
| "cpu_step rnd m (CInitialize now) = cpu_initialize now m"
| "cpu_step rnd m CStart = cpu_start m"
| "cpu_step rnd m CStop = cpu_stop m"
| "cpu_step rnd m (CMonitor r) = cpu_monitor rnd r m"
| "cpu_step rnd m (CUpdateLimits now l) = snd (cpu_update_limits now l m)"

text \<open>
  The traversal visits every core once, the stamps give every allocation an identifier of its own, and
  there are fewer than \<open>2 ^ 32 - 1\<close> allocations, so that no counter of a core wraps around.
\<close>

fun cpu_enabled :: "cpu_manager \<Rightarrow> cpu_event \<Rightarrow> bool" where
  "cpu_enabled m (CAllocate order e q) \<longleftrightarrow>
     distinct order \<and> cp_allocations m (allocation_key ''cpu-'' (ar_tenant_id q) (ce_stamp e)) = None \<and>
     card (dom (cp_allocations m)) < 2 ^ 32 - 1"
| "cpu_enabled m _ \<longleftrightarrow> True"

section \<open>Cores and holders\<close>

definition holders :: "cpu_manager \<Rightarrow> u32 \<Rightarrow> string set" where
  "holders m c = {i. \<exists>a. cp_allocations m i = Some a \<and> c \<in> set (ca_assigned_cores a)}"

text \<open>A core is either taken exclusively by one allocation, or shared by as many allocations as its
  counter says, none of which is exclusive.\<close>

definition core_ok :: "cpu_manager \<Rightarrow> u32 \<Rightarrow> core_usage \<Rightarrow> bool" where
  "core_ok m c k \<longleftrightarrow>
     (if cu_exclusive k
      then cu_allocated_vcpus k = 1 \<and>
        (\<exists>i a. cp_allocations m i = Some a \<and> ca_exclusive a \<and> holders m c = {i} \<and>
           cu_exclusive_tenant k = Some (ar_tenant_id (al_request (ca_base a))))
      else unat (cu_allocated_vcpus k) = card (holders m c) \<and> cu_exclusive_tenant k = None \<and>
        (\<forall>i a. cp_allocations m i = Some a \<longrightarrow> c \<in> set (ca_assigned_cores a) \<longrightarrow> \<not> ca_exclusive a))"

definition cpu_inv :: "cpu_manager \<Rightarrow> bool" where
  "cpu_inv m \<longleftrightarrow> finite (dom (cp_allocations m)) \<and>
     (\<forall>i a. cp_allocations m i = Some a \<longrightarrow>
        al_allocation_id (ca_base a) = i \<and> distinct (ca_assigned_cores a) \<and>
        set (ca_assigned_cores a) \<subseteq> dom (cp_core_usage m)) \<and>
     (\<forall>c k. cp_core_usage m c = Some k \<longrightarrow> core_ok m c k)"

lemma set_core_ids: "set (core_ids n) = {c. c < n}"
proof -
  have "c \<in> of_nat ` {0..<unat n}" if "c < n" for c :: u32
    using that by (intro image_eqI [of _ _ "unat c"]) (auto simp: word_less_nat_alt)
  moreover have "(of_nat i :: u32) < n" if "i < unat n" for i
    using that unat_bound [of n] by (simp add: word_less_nat_alt unat_of_nat take_bit_eq_mod)
  ultimately show ?thesis by (auto simp: core_ids_def)
qed

lemma distinct_core_ids [simp]: "distinct (core_ids n)"
proof -
  have "inj_on (of_nat :: nat \<Rightarrow> u32) {0..<unat n}"
  proof (rule inj_onI)
    fix i j assume "i \<in> {0..<unat n}" "j \<in> {0..<unat n}" "(of_nat i :: u32) = of_nat j"
    then show "i = j" using unat_bound [of n]
      by (metis (mono_tags, lifting) atLeastLessThan_iff less_trans mod_less take_bit_eq_mod unat_of_nat)
  qed
  then show ?thesis by (simp add: core_ids_def distinct_map)
qed

lemma push_until_alt:
  "length acc < n \<Longrightarrow> push_until p n acc cs = acc @ take (n - length acc) (filter p cs)"
proof (induction cs arbitrary: acc)
  case (Cons c cs)
  show ?case
  proof (cases "p c \<and> length (acc @ [c]) < n")
    case True
    then have "n - length acc = Suc (n - length (acc @ [c]))" by (simp add: Suc_diff_Suc)
    then show ?thesis using True Cons.IH [of "acc @ [c]"] by simp
  next
    case False
    then have "p c \<Longrightarrow> n - length acc = 1" using Cons.prems by simp
    then show ?thesis using False Cons by auto
  qed
qed simp

lemma push_until_0: "push_until p 0 [] cs = take 1 (filter p cs)"
  by (induction cs) auto

lemma push_until_take: "push_until p n [] cs = take (max 1 n) (filter p cs)"
  by (cases n) (simp_all add: push_until_0 push_until_alt)

lemma enough_Ok [simp]: "enough n cs = Ok cs' \<longleftrightarrow> cs' = cs \<and> n \<le> length cs"
  by (auto simp: enough_def)

lemma find_run_sound:
  "distinct (current @ cs) \<Longrightarrow> list_all (usable exclusive m) current \<Longrightarrow>
     distinct (find_run m exclusive n current cs) \<and> list_all (usable exclusive m) (find_run m exclusive n current cs)"
  by (induction m exclusive n current cs rule: find_run.induct) auto

lemma usable_dom: "usable exclusive m c \<Longrightarrow> c \<in> dom (cp_core_usage m)"
  by (auto simp: usable_def split: option.splits)

lemma find_available_cores_sound:
  assumes "find_available_cores order n exclusive m = Ok cs" and "distinct order"
  shows "distinct cs \<and> (\<forall>c \<in> set cs. usable exclusive m c) \<and> (0 < n \<longrightarrow> length cs = unat n)"
proof (cases "cp_scheduling_policy m")
  case FirstFit
  with assms show ?thesis
    by (auto simp: find_available_cores_def Let_def push_until_take word_less_nat_alt dest: in_set_takeD)
next
  case BestFit
  with assms show ?thesis
    by (auto simp: find_available_cores_def Let_def dest: in_set_takeD)
next
  case RoundRobin
  with assms have "cs = filter (usable exclusive m) (take (unat n) (sort_key (vcpus_of m) (core_ids (cp_total_cores m))))"
    "unat n \<le> length cs"
    by (auto simp: find_available_cores_def Let_def)
  moreover have "length (filter p (take k xs)) \<le> k" for p k and xs :: "u32 list"
    by (rule order_trans [OF length_filter_le]) simp
  ultimately show ?thesis by (auto intro: antisym)
next
  case AffinityAware
  have "distinct (find_run m exclusive (unat n) [] (core_ids (cp_total_cores m)))"
    "list_all (usable exclusive m) (find_run m exclusive (unat n) [] (core_ids (cp_total_cores m)))"
    using find_run_sound [of "[]" "core_ids (cp_total_cores m)"] by auto
  with AffinityAware assms show ?thesis
    by (auto simp: find_available_cores_def find_available_cores_first_fit_def Let_def push_until_take
        list_all_iff word_less_nat_alt dest: in_set_takeD split: if_splits)
qed

lemma update_cores_simps [simp]:
  "cp_allocations (update_cores f cores m) = cp_allocations m"
  "cp_scheduling_policy (update_cores f cores m) = cp_scheduling_policy m"
  "cp_total_cores (update_cores f cores m) = cp_total_cores m"
  "cp_state (update_cores f cores m) = cp_state m"
  by (simp_all add: update_cores_def)

lemma update_cores_at:
  assumes "distinct cores"
  shows "cp_core_usage (update_cores f cores m) c =
    (if c \<in> set cores then map_option f (cp_core_usage m c) else cp_core_usage m c)"
proof -
  have "fold (\<lambda>c us. us(c := map_option f (us c))) cores us c =
      (if c \<in> set cores then map_option f (us c) else us c)" for us
    using assms by (induction cores arbitrary: us) auto
  then show ?thesis by (simp add: update_cores_def)
qed

lemma cpu_update_usage_stats_simps [simp]:
  "cp_allocations (cpu_update_usage_stats rnd order e m) = cp_allocations m"
  "cp_core_usage (cpu_update_usage_stats rnd order e m) = cp_core_usage m"
  "cp_state (cpu_update_usage_stats rnd order e m) = cp_state m"
  "cp_scheduling_policy (cpu_update_usage_stats rnd order e m) = cp_scheduling_policy m"
  "cp_total_cores (cpu_update_usage_stats rnd order e m) = cp_total_cores m"
  by (simp_all add: cpu_update_usage_stats_def Let_def)

lemma core_ok_cong:
  "cp_allocations m = cp_allocations m' \<Longrightarrow> core_ok m c k = core_ok m' c k"
  by (simp add: core_ok_def holders_def)

lemma cpu_inv_cong:
  "cp_allocations m = cp_allocations m' \<Longrightarrow> cp_core_usage m = cp_core_usage m' \<Longrightarrow> cpu_inv m = cpu_inv m'"
  using core_ok_cong [of m m'] by (simp add: cpu_inv_def)

lemma cpu_inv_finite_holders: "cpu_inv m \<Longrightarrow> finite (holders m c) \<and> card (holders m c) \<le> card (dom (cp_allocations m))"
  by (auto simp: cpu_inv_def holders_def intro: card_mono finite_subset [of _ "dom (cp_allocations m)"])

lemma cpu_record_spec:
  assumes "cpu_record rnd order e q cores m = (a, m')"
  shows "\<exists>c. al_allocation_id a = allocation_key ''cpu-'' (ar_tenant_id q) (ce_stamp e) \<and> al_request a = q \<and>
    al_allocated_amount a = of_nat (length cores) \<and>
    ca_base c = a \<and> ca_assigned_cores c = cores \<and> ca_exclusive c = wants_exclusive q \<and>
    cp_allocations m' = (cp_allocations m)(al_allocation_id a \<mapsto> c) \<and>
    cp_core_usage m' = cp_core_usage (update_cores (take_core (wants_exclusive q) (ar_tenant_id q)) cores m)"
  by (rule exI [of _ "\<lparr>ca_base = a, ca_assigned_cores = cores, ca_affinity_mask = None,
        ca_scheduling_policy = cp_scheduling_policy m, ca_exclusive = wants_exclusive q\<rparr>"])
     (use assms in \<open>auto simp: cpu_record_def Let_def allocate_cores_def\<close>)

lemma cpu_allocate_Ok:
  assumes "cpu_allocate rnd order e q m = (Ok a, m')"
  shows "\<exists>cores. find_available_cores order (ucast (ar_amount q)) (wants_exclusive q) m = Ok cores \<and>
    cpu_record rnd order e q cores m = (a, m')"
  using assms by (auto simp: cpu_allocate_def split: if_splits outcome.splits prod.splits)

lemma cpu_allocate_fails: "cpu_allocate rnd order e q m = (r, m') \<Longrightarrow> \<not> is_ok r \<Longrightarrow> m' = m"
  by (auto simp: cpu_allocate_def split: if_splits outcome.splits prod.splits)

lemma core_ok_taken:
  assumes inv: "cpu_inv m" and k: "cp_core_usage m c = Some k" and use: "usable ex m c"
    and as: "cp_allocations m' = (cp_allocations m)(i \<mapsto> a)" "cp_allocations m i = None"
    and a: "ca_exclusive a = ex" "ar_tenant_id (al_request (ca_base a)) = t" "c \<in> set (ca_assigned_cores a)"
    and few: "card (dom (cp_allocations m)) < 2 ^ 32 - 1"
  shows "core_ok m' c (take_core ex t k)"
proof -
  have ok: "core_ok m c k" using inv k by (simp add: cpu_inv_def)
  have h: "holders m' c = insert i (holders m c)" "i \<notin> holders m c" using as a(3) by (auto simp: holders_def)
  have fin: "finite (holders m c)" "card (holders m c) < 2 ^ 32 - 1"
    using cpu_inv_finite_holders [OF inv, of c] few by auto
  show ?thesis
  proof (cases ex)
    case True
    then have "cu_allocated_vcpus k = 0" using use k by (simp add: usable_def)
    then have "holders m c = {}" using ok fin by (auto simp: core_ok_def split: if_splits)
    then show ?thesis using True h as a by (auto simp: core_ok_def take_core_def)
  next
    case False
    then have nx: "\<not> cu_exclusive k" using use k by (simp add: usable_def)
    then have v: "unat (cu_allocated_vcpus k) = card (holders m c)" using ok by (simp add: core_ok_def)
    then have "unat (cu_allocated_vcpus k + 1) = Suc (card (holders m c))"
      using fin(2) by (simp add: unat_word_ariths)
    then show ?thesis using False nx ok h fin as a by (auto simp: core_ok_def take_core_def)
  qed
qed

lemma core_ok_untouched:
  assumes ok: "core_ok m c k" and as: "cp_allocations m' = (cp_allocations m)(i := x)"
    and "c \<notin> (case x of None \<Rightarrow> {} | Some a \<Rightarrow> set (ca_assigned_cores a))"
    and "c \<notin> (case cp_allocations m i of None \<Rightarrow> {} | Some a \<Rightarrow> set (ca_assigned_cores a))"
  shows "core_ok m' c k"
proof -
  have h: "holders m' c = holders m c" "i \<notin> holders m c"
    using assms(2-4) by (auto simp: holders_def split: option.splits if_splits)
  show ?thesis
  proof (cases "cu_exclusive k")
    case True
    then obtain j b where "cu_allocated_vcpus k = 1" "cp_allocations m j = Some b" "ca_exclusive b" "holders m c = {j}"
      "cu_exclusive_tenant k = Some (ar_tenant_id (al_request (ca_base b)))"
      using ok by (fastforce simp: core_ok_def)
    moreover from this have "cp_allocations m' j = Some b" using h(2) as by simp
    ultimately show ?thesis using True h(1) by (simp add: core_ok_def)
  next
    case False
    have "\<not> ca_exclusive b" if "cp_allocations m' j = Some b" "c \<in> set (ca_assigned_cores b)" for j b
    proof -
      have "j \<in> holders m c" using that h(1) by (auto simp: holders_def)
      then have "cp_allocations m j = Some b" using h(2) as that(1) by (cases "j = i") simp_all
      then show ?thesis using ok False that(2) by (simp add: core_ok_def)
    qed
    then show ?thesis using False ok h(1) by (simp add: core_ok_def)
  qed
qed

lemma core_ok_given:
  assumes inv: "cpu_inv m" and k: "cp_core_usage m c = Some k"
    and as: "cp_allocations m' = (cp_allocations m)(i := None)" "cp_allocations m i = Some a"
    and a: "c \<in> set (ca_assigned_cores a)"
  shows "core_ok m' c (give_core (ca_exclusive a) k)"
proof -
  have ok: "core_ok m c k" using inv k by (simp add: cpu_inv_def)
  have i: "i \<in> holders m c" using as(2) a by (auto simp: holders_def)
  have h: "holders m' c = holders m c - {i}" using as by (auto simp: holders_def split: if_splits)
  have fin: "finite (holders m c)" using cpu_inv_finite_holders [OF inv] by simp
  show ?thesis
  proof (cases "cu_exclusive k")
    case True
    then obtain j b where jb: "cp_allocations m j = Some b" "ca_exclusive b" "holders m c = {j}"
      using ok by (fastforce simp: core_ok_def)
    then have "j = i" using i by simp
    then have "holders m c = {i}" "ca_exclusive a" using jb as(2) by simp_all
    then have "holders m' c = {}" "ca_exclusive a" using h by simp_all
    moreover from this have "\<not> (cp_allocations m' j = Some b \<and> c \<in> set (ca_assigned_cores b))" for j b
      by (auto simp: holders_def)
    ultimately show ?thesis by (auto simp: core_ok_def give_core_def)
  next
    case False
    then have v: "unat (cu_allocated_vcpus k) = card (holders m c)" and nx: "\<not> ca_exclusive a"
      using ok as(2) a by (auto simp: core_ok_def)
    have "unat (saturating_sub (cu_allocated_vcpus k) 1) = card (holders m' c)"
      using v h i fin by (simp add: unat_saturating_sub)
    then show ?thesis using False nx ok as by (auto simp: core_ok_def give_core_def split: if_splits)
  qed
qed

lemma cpu_inv_allocate:
  assumes inv: "cpu_inv m" and ok: "cpu_allocate rnd order e q m = (Ok a, m')" and "distinct order"
    and new: "cp_allocations m (al_allocation_id a) = None" and few: "card (dom (cp_allocations m)) < 2 ^ 32 - 1"
  shows "cpu_inv m'"
proof -
  obtain cores c where c: "find_available_cores order (ucast (ar_amount q)) (wants_exclusive q) m = Ok cores"
    "al_request a = q" "ca_base c = a" "ca_assigned_cores c = cores" "ca_exclusive c = wants_exclusive q"
    "cp_allocations m' = (cp_allocations m)(al_allocation_id a \<mapsto> c)"
    "cp_core_usage m' = cp_core_usage (update_cores (take_core (wants_exclusive q) (ar_tenant_id q)) cores m)"
    using cpu_allocate_Ok [OF ok] cpu_record_spec by metis
  have s: "distinct cores" "\<And>x. x \<in> set cores \<Longrightarrow> usable (wants_exclusive q) m x"
    using find_available_cores_sound [OF c(1) assms(3)] by auto
  have dom: "dom (cp_core_usage m') = dom (cp_core_usage m)"
    by (auto simp: c(7) update_cores_at [OF s(1)] dom_def)
  have "core_ok m' x k'" if at: "cp_core_usage m' x = Some k'" for x k'
  proof (cases "x \<in> set cores")
    case True
    then obtain k where "cp_core_usage m x = Some k" "k' = take_core (wants_exclusive q) (ar_tenant_id q) k"
      using at by (auto simp: c(7) update_cores_at [OF s(1)])
    then show ?thesis using core_ok_taken [OF inv _ s(2) [OF True] c(6) new] c few True by simp
  next
    case False
    then have "cp_core_usage m x = Some k'" using at by (simp add: c(7) update_cores_at [OF s(1)])
    then have "core_ok m x k'" using inv by (simp add: cpu_inv_def)
    from core_ok_untouched [OF this c(6)] False c(4) new show ?thesis by simp
  qed
  moreover have "set cores \<subseteq> dom (cp_core_usage m)" using s(2) usable_dom by blast
  ultimately show ?thesis using inv c s(1) dom by (auto simp: cpu_inv_def)
qed

lemma cpu_deallocate_Some:
  assumes "cp_allocations m i = Some a"
  shows "\<exists>m'. cpu_deallocate rnd order e i m = (Ok (), m') \<and> cp_allocations m' = (cp_allocations m)(i := None) \<and>
    cp_core_usage m' = cp_core_usage (update_cores (give_core (ca_exclusive a)) (ca_assigned_cores a) m)"
  using assms by (simp add: cpu_deallocate_def Let_def deallocate_cores_def update_cores_def)

lemma cpu_inv_deallocate:
  assumes inv: "cpu_inv m" shows "cpu_inv (snd (cpu_deallocate rnd order e i m))"
proof (cases "cp_allocations m i")
  case None
  then show ?thesis using inv by (simp add: cpu_deallocate_def)
next
  case (Some a)
  then obtain m' where m': "cpu_deallocate rnd order e i m = (Ok (), m')"
    "cp_allocations m' = (cp_allocations m)(i := None)"
    "cp_core_usage m' = cp_core_usage (update_cores (give_core (ca_exclusive a)) (ca_assigned_cores a) m)"
    using cpu_deallocate_Some by blast
  have d: "distinct (ca_assigned_cores a)" using inv Some by (simp add: cpu_inv_def)
  have dom: "dom (cp_core_usage m') = dom (cp_core_usage m)"
    by (auto simp: m'(3) update_cores_at [OF d] dom_def)
  have "core_ok m' x k'" if at: "cp_core_usage m' x = Some k'" for x k'
  proof (cases "x \<in> set (ca_assigned_cores a)")
    case True
    then obtain k where "cp_core_usage m x = Some k" "k' = give_core (ca_exclusive a) k"
      using at by (auto simp: m'(3) update_cores_at [OF d])
    then show ?thesis using core_ok_given [OF inv _ m'(2) Some True] by simp
  next
    case False
    then have "cp_core_usage m x = Some k'" using at by (simp add: m'(3) update_cores_at [OF d])
    then have "core_ok m x k'" using inv by (simp add: cpu_inv_def)
    from core_ok_untouched [OF this m'(2)] False Some show ?thesis by simp
  qed
  then show ?thesis using inv m'(1,2) dom by (auto simp: cpu_inv_def)
qed

lemma cpu_inv_monitor: "cpu_inv m \<Longrightarrow> cpu_inv (cpu_monitor rnd r m)"
proof -
  assume inv: "cpu_inv m"
  have u: "core_ok m c (k\<lparr>cu_utilization_percent := x\<rparr>) = core_ok m c k" for c k x
    by (simp add: core_ok_def)
  have "core_ok (cpu_monitor rnd r m) c k = core_ok m c k" for c k
    by (rule core_ok_cong) (simp add: cpu_monitor_def)
  with u show ?thesis using inv by (fastforce simp: cpu_inv_def cpu_monitor_def dom_def)
qed

lemma cpu_inv_step: "cpu_inv m \<Longrightarrow> cpu_enabled m ev \<Longrightarrow> cpu_inv (cpu_step rnd m ev)"
proof -
  assume inv: "cpu_inv m" and en: "cpu_enabled m ev"
  have same: "cpu_inv m'" if "cp_allocations m' = cp_allocations m" "cp_core_usage m' = cp_core_usage m" for m'
    using inv cpu_inv_cong [OF that] by simp
  show ?thesis
  proof (cases ev)
    case (CAllocate order e q)
    obtain r m' where r: "cpu_allocate rnd order e q m = (r, m')" by fastforce
    show ?thesis
    proof (cases r)
      case (Ok a)
      then have "al_allocation_id a = allocation_key ''cpu-'' (ar_tenant_id q) (ce_stamp e)"
        using cpu_allocate_Ok cpu_record_spec r by metis
      then show ?thesis using cpu_inv_allocate [OF inv] r Ok CAllocate en by simp
    qed (use cpu_allocate_fails [OF r] r inv CAllocate in simp_all)
  next
    case (CDeallocate order e i)
    then show ?thesis using cpu_inv_deallocate [OF inv] by simp
  next
    case (CMonitor r)
    then show ?thesis using cpu_inv_monitor [OF inv] by simp
  qed (auto intro!: same simp: cpu_initialize_def cpu_start_def cpu_stop_def cpu_update_limits_def)
qed

interpretation cpu_machine: event_machine "cpu_step rnd" cpu_enabled cpu_inv for rnd
  by unfold_locales (rule cpu_inv_step)

lemma cpu_inv_build [simp]: "cpu_inv (cpu_manager_build now config n policy)"
proof -
  have "core_ok (cpu_manager_build now config n policy) c (free_core c)" for c
    by (simp add: core_ok_def free_core_def holders_def cpu_manager_build_def cpu_manager_new_def)
  moreover have "k = free_core c" if "cp_core_usage (cpu_manager_build now config n policy) c = Some k" for c k
    using that by (auto simp: cpu_manager_build_def cpu_manager_new_def dest: map_of_SomeD)
  moreover have "cp_allocations (cpu_manager_build now config n policy) = Map.empty"
    by (simp add: cpu_manager_build_def cpu_manager_new_def)
  ultimately show ?thesis unfolding cpu_inv_def by simp metis
qed

interpretation cpu: resource_manager "\<lambda>(order, e). cpu_allocate rnd order e" "\<lambda>(order, e). cpu_deallocate rnd order e"
  cpu_get_allocation "\<lambda>_. True" for rnd
proof unfold_locales
  fix s :: cpu_manager and e :: "u32 list \<times> call_env" and q a s'
  assume "(case e of (order, e) \<Rightarrow> cpu_allocate rnd order e) q s = (Ok a, s')"
  then obtain order e' cores where "cpu_record rnd order e' q cores s = (a, s')"
    using cpu_allocate_Ok by (cases e) fastforce
  then obtain c where "al_request a = q" "ca_base c = a" "cp_allocations s' = (cp_allocations s)(al_allocation_id a \<mapsto> c)"
    using cpu_record_spec by metis
  then show "True \<and> cpu_get_allocation s' = (cpu_get_allocation s)(al_allocation_id a \<mapsto> a) \<and> al_request a = q"
    by (auto simp: cpu_get_allocation_def)
next
  fix s :: cpu_manager and e :: "u32 list \<times> call_env" and q r s'
  assume "(case e of (order, e) \<Rightarrow> cpu_allocate rnd order e) q s = (r, s')" "\<not> is_ok r"
  then show "s' = s" by (cases e) (auto dest: cpu_allocate_fails)
next
  fix s :: cpu_manager and i and e :: "u32 list \<times> call_env"
  assume "cpu_get_allocation s i \<noteq> None"
  then obtain a where "cp_allocations s i = Some a" by (auto simp: cpu_get_allocation_def)
  from cpu_deallocate_Some [OF this, of rnd "fst e" "snd e"]
  show "\<exists>s'. (case e of (order, e) \<Rightarrow> cpu_deallocate rnd order e) i s = (Ok (), s') \<and> True \<and>
      cpu_get_allocation s' = (cpu_get_allocation s)(i := None)"
    by (cases e) (fastforce simp: cpu_get_allocation_def)
qed (auto simp: cpu_deallocate_def cpu_get_allocation_def split: prod.splits)

section \<open>Properties\<close>

text \<open>C30. Cores assigned exclusively are not shared: after any sequence of calls and monitoring rounds in
  which identifiers are not reused, two allocations that hold the same core are both shared ones, the
  exclusive holder of a core is recorded as its tenant, and the counter of a shared core is the number
  of allocations that hold it.\<close>

theorem cpu_cores_exclusive:
  assumes "reach (cpu_step rnd) cpu_enabled (cpu_manager_build now config total_cores policy) m"
    and "cp_allocations m i = Some a" and "c \<in> set (ca_assigned_cores a)"
  shows "\<exists>k. cp_core_usage m c = Some k \<and> cu_exclusive k = ca_exclusive a \<and>
    (ca_exclusive a \<longrightarrow> cu_exclusive_tenant k = Some (ar_tenant_id (al_request (ca_base a)))) \<and>
    (\<not> ca_exclusive a \<longrightarrow> unat (cu_allocated_vcpus k) = card (holders m c)) \<and>
    (\<forall>j b. cp_allocations m j = Some b \<longrightarrow> c \<in> set (ca_assigned_cores b) \<longrightarrow> j \<noteq> i \<longrightarrow>
       \<not> ca_exclusive a \<and> \<not> ca_exclusive b)"
proof -
  have inv: "cpu_inv m" by (rule cpu_machine.reach_inv [OF assms(1)]) simp
  with assms(2,3) obtain k where k: "cp_core_usage m c = Some k" by (fastforce simp: cpu_inv_def)
  with inv have ok: "core_ok m c k" by (simp add: cpu_inv_def)
  have i: "i \<in> holders m c" using assms(2,3) by (auto simp: holders_def)
  show ?thesis
  proof (cases "cu_exclusive k")
    case True
    then obtain j b where jb: "cp_allocations m j = Some b" "ca_exclusive b" "holders m c = {j}"
      "cu_exclusive_tenant k = Some (ar_tenant_id (al_request (ca_base b)))"
      using ok by (fastforce simp: core_ok_def)
    then have "j = i" using i by simp
    then have a: "ca_exclusive a" "cu_exclusive_tenant k = Some (ar_tenant_id (al_request (ca_base a)))"
      using jb assms(2) by simp_all
    have "l = i" if "cp_allocations m l = Some b'" "c \<in> set (ca_assigned_cores b')" for l b'
      using that jb(3) \<open>j = i\<close> by (auto simp: holders_def)
    with a k True show ?thesis by blast
  next
    case False
    then have "unat (cu_allocated_vcpus k) = card (holders m c)"
      "\<And>l b. cp_allocations m l = Some b \<Longrightarrow> c \<in> set (ca_assigned_cores b) \<Longrightarrow> \<not> ca_exclusive b"
      using ok by (simp_all add: core_ok_def)
    with k False assms(2,3) show ?thesis by blast
  qed
qed

text \<open>The search for cores: whatever the policy, the cores it returns for a request of at least one
  core are different, usable, and as many as requested; first-fit and best-fit find cores exactly if there are enough usable ones.\<close>

theorem core_search_exact:
  assumes "distinct order" and "set order = dom (cp_core_usage m)" and "dom (cp_core_usage m) = {c. c < cp_total_cores m}"
    and "0 < n"
  shows "(\<forall>cs. find_available_cores order n exclusive m = Ok cs \<longrightarrow>
      distinct cs \<and> list_all (usable exclusive m) cs \<and> length cs = unat n) \<and>
    (cp_scheduling_policy m \<in> {FirstFit, BestFit} \<longrightarrow>
      (is_ok (find_available_cores order n exclusive m) \<longleftrightarrow> unat n \<le> card {c. usable exclusive m c}))"
proof (intro conjI impI allI)
  fix cs assume "find_available_cores order n exclusive m = Ok cs"
  from find_available_cores_sound [OF this assms(1)] assms(4)
  show "distinct cs" "list_all (usable exclusive m) cs" "length cs = unat n" by (auto simp: list_all_iff)
next
  have count: "length (filter (usable exclusive m) ids) = card {c. usable exclusive m c}"
    if "distinct ids" "set ids = dom (cp_core_usage m)" for ids
  proof -
    have "{c. usable exclusive m c} = set (filter (usable exclusive m) ids)"
      unfolding set_filter that(2) using usable_dom by blast
    then show ?thesis using that(1) distinct_card [of "filter (usable exclusive m) ids"] by simp
  qed
  have ids: "length (filter (usable exclusive m) (core_ids (cp_total_cores m))) = card {c. usable exclusive m c}"
    "length (filter (usable exclusive m) order) = card {c. usable exclusive m c}"
    using assms(1-3) by (auto intro!: count simp: set_core_ids)
  assume "cp_scheduling_policy m \<in> {FirstFit, BestFit}"
  then show "is_ok (find_available_cores order n exclusive m) \<longleftrightarrow> unat n \<le> card {c. usable exclusive m c}"
    using ids assms(4)
    by (auto simp: find_available_cores_def Let_def enough_def push_until_take word_less_nat_alt split: if_splits)
qed

text \<open>C35. The search releases the lock of the core map before the cores are taken: when two exclusive
  requests search before either takes its cores, both are granted a core they have in common, the core
  records the second tenant only, and it is free for further requests once the first one is released,
  while the second still holds it.\<close>

theorem exclusive_core_race:
  assumes "find_available_cores order1 (ucast (ar_amount q1)) (wants_exclusive q1) m = Ok cores1"
    and "find_available_cores order2 (ucast (ar_amount q2)) (wants_exclusive q2) m = Ok cores2"
    and "wants_exclusive q1" "wants_exclusive q2" "distinct order1" "distinct order2"
    and "c \<in> set cores1" "c \<in> set cores2"
    and "cpu_record rnd order1 e1 q1 cores1 m = (a1, m1)" and "cpu_record rnd order2 e2 q2 cores2 m1 = (a2, m2)"
    and "al_allocation_id a1 \<noteq> al_allocation_id a2"
  shows "holders m2 c \<supseteq> {al_allocation_id a1, al_allocation_id a2} \<and>
    (\<exists>k. cp_core_usage m2 c = Some k \<and> cu_exclusive_tenant k = Some (ar_tenant_id q2)) \<and>
    (\<exists>m3. cpu_deallocate rnd order1 e3 (al_allocation_id a1) m2 = (Ok (), m3) \<and>
       al_allocation_id a2 \<in> holders m3 c \<and> usable True m3 c \<and> usable False m3 c)"
proof -
  have d: "distinct cores1" "distinct cores2" "usable True m c"
    using find_available_cores_sound [OF assms(1,5)] find_available_cores_sound [OF assms(2,6)] assms(3,4,7) by auto
  obtain c1 where c1: "ca_assigned_cores c1 = cores1" "ca_exclusive c1"
    "cp_allocations m1 = (cp_allocations m)(al_allocation_id a1 \<mapsto> c1)"
    "cp_core_usage m1 = cp_core_usage (update_cores (take_core True (ar_tenant_id q1)) cores1 m)"
    using cpu_record_spec [OF assms(9)] assms(3) by auto
  obtain c2 where c2: "ca_assigned_cores c2 = cores2" "ca_exclusive c2"
    "cp_allocations m2 = (cp_allocations m1)(al_allocation_id a2 \<mapsto> c2)"
    "cp_core_usage m2 = cp_core_usage (update_cores (take_core True (ar_tenant_id q2)) cores2 m1)"
    using cpu_record_spec [OF assms(10)] assms(4) by auto
  obtain k where k: "cp_core_usage m c = Some k" using usable_dom [OF d(3)] by auto
  have k2: "cp_core_usage m2 c = Some (take_core True (ar_tenant_id q2) (take_core True (ar_tenant_id q1) k))"
    using k assms(7,8) by (simp add: c1(4) c2(4) update_cores_at [OF d(1)] update_cores_at [OF d(2)])
  have as: "cp_allocations m2 (al_allocation_id a1) = Some c1" "cp_allocations m2 (al_allocation_id a2) = Some c2"
    using c1(3) c2(3) assms(11) by simp_all
  obtain m3 where m3: "cpu_deallocate rnd order1 e3 (al_allocation_id a1) m2 = (Ok (), m3)"
    "cp_allocations m3 = (cp_allocations m2)(al_allocation_id a1 := None)"
    "cp_core_usage m3 = cp_core_usage (update_cores (give_core True) cores1 m2)"
    using cpu_deallocate_Some [OF as(1), of rnd order1 e3] c1(1,2) by auto
  have "cp_core_usage m3 c = Some (give_core True (take_core True (ar_tenant_id q2) (take_core True (ar_tenant_id q1) k)))"
    using k2 assms(7) by (simp add: m3(3) update_cores_at [OF d(1)])
  then have "usable True m3 c" "usable False m3 c" by (simp_all add: usable_def give_core_def)
  moreover have "al_allocation_id a2 \<in> holders m3 c"
    using m3(2) as(2) c2(1) assms(8,11) by (auto simp: holders_def)
  ultimately show ?thesis using as c1(1) c2(1) assms(7,8) k2 m3(1) by (auto simp: holders_def take_core_def)
qed

section \<open>A manager of two cores\<close>

definition sample_cpu_request :: "string \<Rightarrow> allocation_request" where
  "sample_cpu_request tenant = \<lparr>ar_request_id = ''r'', ar_tenant_id = tenant, ar_resource_type = Cpu,
     ar_amount = 1, ar_priority = 0, ar_is_temporary = False, ar_expires_at = None,
     ar_metadata = [''exclusive'' \<mapsto> ''true'']\<rparr>"

definition sample_cpu :: cpu_manager where
  "sample_cpu = cpu_manager_build 0 (manager_config_new Cpu) 2 FirstFit"

lemma two_cores: "core_ids 2 = [0, 1]"
  by (simp add: core_ids_def upt_rec)

lemma sample_cores: "cp_core_usage sample_cpu = [0 \<mapsto> free_core 0, 1 \<mapsto> free_core 1]"
  by (auto simp: sample_cpu_def cpu_manager_build_def cpu_manager_new_def two_cores)

lemma sample_cpu_simps [simp]:
  "cp_allocations sample_cpu = Map.empty" "cp_scheduling_policy sample_cpu = FirstFit" "cp_total_cores sample_cpu = 2"
  by (simp_all add: sample_cpu_def cpu_manager_build_def cpu_manager_new_def)

lemma sample_request_exclusive [simp]: "wants_exclusive (sample_cpu_request t)" "ar_amount (sample_cpu_request t) = 1"
  "ar_tenant_id (sample_cpu_request t) = t" "ar_resource_type (sample_cpu_request t) = Cpu"
  by (simp_all add: sample_cpu_request_def wants_exclusive_def)

lemma sample_found: "find_available_cores [0, 1] 1 True sample_cpu = Ok [0]"
  by (simp add: find_available_cores_def Let_def two_cores usable_def sample_cores free_core_def enough_def)

theorem cpu_cores_exclusive_witness:
  "\<exists>m k. m = cpu_step (\<lambda>x. x) sample_cpu (CAllocate [0, 1] (sample_call 1) (sample_cpu_request ''t'')) \<and>
     cp_core_usage m 0 = Some k \<and> cu_exclusive k \<and> cu_exclusive_tenant k = Some ''t''"
proof -
  let ?m = "cpu_step (\<lambda>x. x) sample_cpu (CAllocate [0, 1] (sample_call 1) (sample_cpu_request ''t''))"
  obtain a m where r: "cpu_record (\<lambda>x. x) [0, 1] (sample_call 1) (sample_cpu_request ''t'') [0] sample_cpu = (a, m)"
    by fastforce
  then have m: "?m = m" using sample_found by (simp add: cpu_allocate_def)
  obtain c where c: "al_request a = sample_cpu_request ''t''" "ca_base c = a" "ca_assigned_cores c = [0]"
    "ca_exclusive c" "cp_allocations m = [al_allocation_id a \<mapsto> c]"
    using cpu_record_spec [OF r] by auto
  have "reach (cpu_step (\<lambda>x. x)) cpu_enabled sample_cpu ?m"
    by (rule reach_step [OF reach_refl]) simp
  from cpu_cores_exclusive [OF this [unfolded sample_cpu_def], of "al_allocation_id a" c 0] c m show ?thesis
    by (auto simp flip: sample_cpu_def)
qed

theorem core_search_exact_witness:
  "is_ok (find_available_cores [0, 1] 1 True sample_cpu) \<and> 1 \<le> card {c. usable True sample_cpu c}"
proof -
  have dom: "dom (cp_core_usage sample_cpu) = {0, 1}" by (auto simp: sample_cores)
  have "dom (cp_core_usage sample_cpu) = {c. c < cp_total_cores sample_cpu}"
    using set_core_ids [of 2] by (simp add: dom two_cores)
  from core_search_exact [OF _ _ this, of "[0, 1]" 1 True] sample_found show ?thesis by (simp add: dom)
qed

theorem exclusive_core_race_witness:
  "\<exists>a1 m1 a2 m2. cpu_record (\<lambda>x. x) [0, 1] (sample_call 1) (sample_cpu_request ''t'') [0] sample_cpu = (a1, m1) \<and>
     cpu_record (\<lambda>x. x) [0, 1] (sample_call 2) (sample_cpu_request ''u'') [0] m1 = (a2, m2) \<and>
     {al_allocation_id a1, al_allocation_id a2} \<subseteq> holders m2 0"
proof -
  obtain a1 m1 where 1: "cpu_record (\<lambda>x. x) [0, 1] (sample_call 1) (sample_cpu_request ''t'') [0] sample_cpu = (a1, m1)"
    by fastforce
  obtain a2 m2 where 2: "cpu_record (\<lambda>x. x) [0, 1] (sample_call 2) (sample_cpu_request ''u'') [0] m1 = (a2, m2)"
    by fastforce
  have "al_allocation_id a1 \<noteq> al_allocation_id a2"
    using cpu_record_spec [OF 1] cpu_record_spec [OF 2]
    by (auto simp: allocation_key_def)
  from exclusive_core_race [OF _ _ _ _ _ _ _ _ 1 2 this, of 0 "sample_call 3"] sample_found 1 2 show ?thesis
    by auto
qed

end
