(* ===== verification/Composite_Manager.thy ===== *)
theory Composite_Manager
  imports Cpu_Manager
begin

text \<open>
  The composite resource manager (\<open>resource_manager.rs\<close>), which dispatches a request to the manager
  registered for its resource type and finds the owner of an allocation by asking all of them. A
  \<open>dyn ResourceManager\<close> is one of the two implementations. The theory derives the contract of the
  trait for the composite from the contracts of its parts.
\<close>

section \<open>Dynamic dispatch\<close>

datatype manager = MemoryManager memory_manager | CpuManager cpu_manager

type_synonym dyn_env = "u32 list \<times> call_env"

fun manager_allocate ::
  "(real \<Rightarrow> real) \<Rightarrow> dyn_env \<Rightarrow> allocation_request \<Rightarrow> manager \<Rightarrow> resource_allocation outcome \<times> manager" where
  "manager_allocate rnd (order, e) q (MemoryManager m) = map_prod id MemoryManager (memory_allocate rnd e q m)"
| "manager_allocate rnd (order, e) q (CpuManager m) = map_prod id CpuManager (cpu_allocate rnd order e q m)"

fun manager_deallocate :: "(real \<Rightarrow> real) \<Rightarrow> dyn_env \<Rightarrow> string \<Rightarrow> manager \<Rightarrow> unit outcome \<times> manager" where
  "manager_deallocate rnd (order, e) i (MemoryManager m) = map_prod id MemoryManager (memory_deallocate rnd e i m)"
| "manager_deallocate rnd (order, e) i (CpuManager m) = map_prod id CpuManager (cpu_deallocate rnd order e i m)"

fun manager_get_allocation :: "manager \<Rightarrow> string \<rightharpoonup> resource_allocation" where
  "manager_get_allocation (MemoryManager m) i = memory_get_allocation m i"
| "manager_get_allocation (CpuManager m) i = cpu_get_allocation m i"

fun manager_check_availability ::
  "(real \<Rightarrow> real) \<Rightarrow> u32 list \<Rightarrow> allocation_request \<Rightarrow> manager \<Rightarrow> bool outcome" where
  "manager_check_availability rnd order q (MemoryManager m) = memory_check_availability rnd q m"
| "manager_check_availability rnd order q (CpuManager m) = cpu_check_availability order q m"

fun manager_initialize :: "time \<Rightarrow> manager \<Rightarrow> manager" where
  "manager_initialize now (MemoryManager m) = MemoryManager (memory_initialize now m)"
| "manager_initialize now (CpuManager m) = CpuManager (cpu_initialize now m)"

fun manager_start :: "manager \<Rightarrow> manager" where
  "manager_start (MemoryManager m) = MemoryManager (memory_start m)"
| "manager_start (CpuManager m) = CpuManager (cpu_start m)"

fun manager_stop :: "manager \<Rightarrow> manager" where
  "manager_stop (MemoryManager m) = MemoryManager (memory_stop m)"
| "manager_stop (CpuManager m) = CpuManager (cpu_stop m)"

fun manager_state_of :: "manager \<Rightarrow> manager_state" where
  "manager_state_of (MemoryManager m) = mm_state m"
| "manager_state_of (CpuManager m) = cp_state m"

fun manager_usage :: "manager \<Rightarrow> resource_usage" where
  "manager_usage (MemoryManager m) = mm_usage m"
| "manager_usage (CpuManager m) = cp_usage m"

fun manager_update_limits :: "time \<Rightarrow> resource_limits \<Rightarrow> manager \<Rightarrow> unit outcome \<times> manager" where
  "manager_update_limits now l (MemoryManager m) = map_prod id MemoryManager (memory_update_limits now l m)"
| "manager_update_limits now l (CpuManager m) = map_prod id CpuManager (cpu_update_limits now l m)"

section \<open>The composite\<close>

type_synonym composite_manager = "resource_type \<rightharpoonup> manager"

definition composite_new :: composite_manager where
  "composite_new = Map.empty"

definition add_manager :: "resource_type \<Rightarrow> manager \<Rightarrow> composite_manager \<Rightarrow> composite_manager" where
  "add_manager t m S = S(t \<mapsto> m)"

definition remove_manager :: "resource_type \<Rightarrow> composite_manager \<Rightarrow> composite_manager" where
  "remove_manager t S = S(t := None)"

definition composite_allocate ::
  "(real \<Rightarrow> real) \<Rightarrow> dyn_env \<Rightarrow> allocation_request \<Rightarrow> composite_manager \<Rightarrow>
     resource_allocation outcome \<times> composite_manager" where
  "composite_allocate rnd e q S =
     (case S (ar_resource_type q) of
        None \<Rightarrow> (Err ResourceUnavailable, S)
      | Some m \<Rightarrow> (case manager_allocate rnd e q m of (r, m') \<Rightarrow> (r, S(ar_resource_type q \<mapsto> m'))))"

text \<open>\<open>order\<close> lists the keys of the map in the order of the traversal.\<close>

definition owner :: "resource_type list \<Rightarrow> string \<Rightarrow> composite_manager \<Rightarrow> resource_type option" where
  "owner order i S =
     find (\<lambda>t. case S t of None \<Rightarrow> False | Some m \<Rightarrow> manager_get_allocation m i \<noteq> None) order"

definition composite_deallocate ::
  "(real \<Rightarrow> real) \<Rightarrow> resource_type list \<Rightarrow> dyn_env \<Rightarrow> string \<Rightarrow> composite_manager \<Rightarrow>
     unit outcome \<times> composite_manager" where
  "composite_deallocate rnd order e i S =
     (case owner order i S of
        None \<Rightarrow> (Err ResourceUnavailable, S)
      | Some t \<Rightarrow>
          (case S t of
             None \<Rightarrow> (Err ResourceUnavailable, S)
           | Some m \<Rightarrow> (case manager_deallocate rnd e i m of (r, m') \<Rightarrow> (r, S(t \<mapsto> m')))))"

definition composite_get_allocation ::
  "resource_type list \<Rightarrow> composite_manager \<Rightarrow> string \<rightharpoonup> resource_allocation" where
  "composite_get_allocation order S i =
     Option.bind (owner order i S) (\<lambda>t. Option.bind (S t) (\<lambda>m. manager_get_allocation m i))"

definition composite_check_availability ::
  "(real \<Rightarrow> real) \<Rightarrow> u32 list \<Rightarrow> allocation_request \<Rightarrow> composite_manager \<Rightarrow> bool outcome" where
  "composite_check_availability rnd cores q S =
     (case S (ar_resource_type q) of None \<Rightarrow> Ok False | Some m \<Rightarrow> manager_check_availability rnd cores q m)"

definition composite_get_usage :: "resource_type list \<Rightarrow> time \<Rightarrow> composite_manager \<Rightarrow> resource_usage" where
  "composite_get_usage order now S =
     (let us = map manager_usage (List.map_filter S order)
      in \<lparr>ru_resource_type = Custom ''composite'',
          ru_total_capacity = sum_list (map ru_total_capacity us),
          ru_allocated_amount = sum_list (map ru_allocated_amount us),
          ru_used_amount = sum_list (map ru_used_amount us),
          ru_allocation_count = sum_list (map ru_allocation_count us),
          ru_updated_at = now\<rparr>)"

definition composite_initialize :: "time \<Rightarrow> composite_manager \<Rightarrow> composite_manager" where
  "composite_initialize now S = (\<lambda>t. map_option (manager_initialize now) (S t))"

definition composite_start :: "composite_manager \<Rightarrow> composite_manager" where
  "composite_start S = (\<lambda>t. map_option manager_start (S t))"

definition composite_stop :: "composite_manager \<Rightarrow> composite_manager" where
  "composite_stop S = (\<lambda>t. map_option manager_stop (S t))"

definition composite_health_check :: "resource_type list \<Rightarrow> composite_manager \<Rightarrow> manager_health" where
  "composite_health_check order S =
     (let hs = map (\<lambda>m. st_health (manager_state_of m)) (List.map_filter S order)
      in if MUnhealthy \<in> set hs \<or> MStopped \<in> set hs then MUnhealthy
         else if MDegraded \<in> set hs then MDegraded else MHealthy)"

definition composite_is_running :: "resource_type list \<Rightarrow> composite_manager \<Rightarrow> bool" where
  "composite_is_running order S \<longleftrightarrow>
     (let ms = List.map_filter S order in ms \<noteq> [] \<and> list_all (\<lambda>m. st_is_running (manager_state_of m)) ms)"

definition composite_update_limits ::
  "time \<Rightarrow> resource_limits \<Rightarrow> composite_manager \<Rightarrow> unit outcome \<times> composite_manager" where
  "composite_update_limits now l S =
     (case S (rl_resource_type l) of
        None \<Rightarrow> (Err ResourceUnavailable, S)
      | Some m \<Rightarrow> (case manager_update_limits now l m of (r, m') \<Rightarrow> (r, S(rl_resource_type l \<mapsto> m'))))"

section \<open>The contract\<close>

fun dyn_inv :: "(real \<Rightarrow> real) \<Rightarrow> manager \<Rightarrow> bool" where
  "dyn_inv rnd (MemoryManager m) = memory_inv rnd m"
| "dyn_inv rnd (CpuManager m) = True"

lemma manager_get_simps [simp]:
  "manager_get_allocation (MemoryManager m) = memory_get_allocation m"
  "manager_get_allocation (CpuManager n) = cpu_get_allocation n"
  by (simp_all add: fun_eq_iff)

lemma map_prod_id_eq: "map_prod id f p = (r, y) \<longleftrightarrow> (\<exists>x. p = (r, x) \<and> y = f x)"
  by (cases p) auto

interpretation dyn: resource_manager "manager_allocate rnd" "manager_deallocate rnd" manager_get_allocation
  "dyn_inv rnd" for rnd
proof unfold_locales
  fix s and e :: dyn_env and q a s'
  assume s: "dyn_inv rnd s" "manager_allocate rnd e q s = (Ok a, s')" "manager_get_allocation s (al_allocation_id a) = None"
  obtain order e' where e: "e = (order, e')" by (cases e)
  show "dyn_inv rnd s' \<and> manager_get_allocation s' = (manager_get_allocation s)(al_allocation_id a \<mapsto> a) \<and> al_request a = q"
  proof (cases s)
    case (MemoryManager m)
    with s e obtain m' where "memory_allocate rnd e' q m = (Ok a, m')" "s' = MemoryManager m'"
      by (auto simp: map_prod_id_eq)
    with memory.alloc_ok [where rnd = rnd and s = m and e = e' and q = q and a = a and s' = m'] s MemoryManager
    show ?thesis by simp
  next
    case (CpuManager m)
    with s e obtain m' where "cpu_allocate rnd order e' q m = (Ok a, m')" "s' = CpuManager m'"
      by (auto simp: map_prod_id_eq)
    with cpu.alloc_ok [where rnd = rnd and s = m and e = e and q = q and a = a and s' = m'] s e CpuManager
    show ?thesis by simp
  qed
next
  fix s and e :: dyn_env and q r s'
  assume s: "manager_allocate rnd e q s = (r, s')" "\<not> is_ok r"
  obtain order e' where e: "e = (order, e')" by (cases e)
  show "s' = s"
  proof (cases s)
    case (MemoryManager m)
    with s e obtain m' where "memory_allocate rnd e' q m = (r, m')" "s' = MemoryManager m'"
      by (auto simp: map_prod_id_eq)
    with memory_allocate_fails s(2) MemoryManager show ?thesis by blast
  next
    case (CpuManager m)
    with s e obtain m' where "cpu_allocate rnd order e' q m = (r, m')" "s' = CpuManager m'"
      by (auto simp: map_prod_id_eq)
    with cpu_allocate_fails s(2) CpuManager show ?thesis by blast
  qed
next
  fix s i and e :: dyn_env
  assume inv: "dyn_inv rnd s" and some: "manager_get_allocation s i \<noteq> None"
  show "\<exists>s'. manager_deallocate rnd e i s = (Ok (), s') \<and> dyn_inv rnd s' \<and>
      manager_get_allocation s' = (manager_get_allocation s)(i := None)"
  proof (cases s)
    case (MemoryManager m)
    with memory.dealloc_ok [where rnd = rnd and s = m and i = i and e = "snd e"] inv some obtain m'
      where "memory_deallocate rnd (snd e) i m = (Ok (), m')" "memory_inv rnd m'"
        "memory_get_allocation m' = (memory_get_allocation m)(i := None)" by auto
    with MemoryManager show ?thesis by (cases e) simp
  next
    case (CpuManager m)
    with cpu.dealloc_ok [where rnd = rnd and s = m and i = i and e = e] some obtain m'
      where "cpu_deallocate rnd (fst e) (snd e) i m = (Ok (), m')"
        "cpu_get_allocation m' = (cpu_get_allocation m)(i := None)" by (auto simp: case_prod_beta)
    with CpuManager show ?thesis by (cases e) simp
  qed
next
  fix s i and e :: dyn_env
  assume "dyn_inv rnd s" "manager_get_allocation s i = None"
  then show "manager_deallocate rnd e i s = (Err ResourceUnavailable, s)"
    by (cases s; cases e)
       (simp_all add: memory_deallocate_def memory_get_allocation_def cpu_deallocate_def cpu_get_allocation_def)
qed

text \<open>Every allocation is on record with one manager only.\<close>

definition composite_inv :: "(real \<Rightarrow> real) \<Rightarrow> resource_type list \<Rightarrow> composite_manager \<Rightarrow> bool" where
  "composite_inv rnd order S \<longleftrightarrow> set order = dom S \<and> (\<forall>t m. S t = Some m \<longrightarrow> dyn_inv rnd m) \<and>
     (\<forall>t t' m m' i. S t = Some m \<longrightarrow> S t' = Some m' \<longrightarrow> manager_get_allocation m i \<noteq> None \<longrightarrow>
        manager_get_allocation m' i \<noteq> None \<longrightarrow> t = t')"

lemma owner_iff:
  assumes "composite_inv rnd order S"
  shows "owner order i S = Some t \<longleftrightarrow> (\<exists>m. S t = Some m \<and> manager_get_allocation m i \<noteq> None)"
proof
  assume "owner order i S = Some t"
  then show "\<exists>m. S t = Some m \<and> manager_get_allocation m i \<noteq> None"
    by (auto simp: owner_def find_Some_iff split: option.splits)
next
  assume "\<exists>m. S t = Some m \<and> manager_get_allocation m i \<noteq> None"
  then obtain m where m: "S t = Some m" "manager_get_allocation m i \<noteq> None" by blast
  then have "owner order i S \<noteq> None"
    using assms by (auto simp: owner_def find_None_iff composite_inv_def split: option.splits)
  then obtain t' where t': "owner order i S = Some t'" by blast
  then obtain m' where "S t' = Some m'" "manager_get_allocation m' i \<noteq> None"
    by (auto simp: owner_def find_Some_iff split: option.splits)
  with m assms have "t' = t" unfolding composite_inv_def by blast
  with t' show "owner order i S = Some t" by simp
qed

lemma composite_lookup:
  assumes "composite_inv rnd order S"
  shows "composite_get_allocation order S i = Some a \<longleftrightarrow> (\<exists>t m. S t = Some m \<and> manager_get_allocation m i = Some a)"
  using owner_iff [OF assms, of i] by (auto simp: composite_get_allocation_def bind_eq_Some_conv)

lemma composite_lookup_None:
  assumes "composite_inv rnd order S"
  shows "composite_get_allocation order S i = None \<longleftrightarrow> (\<forall>t m. S t = Some m \<longrightarrow> manager_get_allocation m i = None)"
  using composite_lookup [OF assms, of i] by (metis not_None_eq)

text \<open>Replacing the manager that owns \<open>i\<close>, or that alone may own it, by one that differs at \<open>i\<close> only.\<close>

lemma composite_replace:
  assumes inv: "composite_inv rnd order S" and m: "S t = Some m" "dyn_inv rnd m'"
    and upd: "manager_get_allocation m' = (manager_get_allocation m)(i := x)"
    and others: "\<And>t' n. S t' = Some n \<Longrightarrow> t' \<noteq> t \<Longrightarrow> manager_get_allocation n i = None"
  shows "composite_inv rnd order (S(t \<mapsto> m')) \<and>
    composite_get_allocation order (S(t \<mapsto> m')) = (composite_get_allocation order S)(i := x)"
proof -
  let ?S = "S(t \<mapsto> m')"
  have uniq: "t1 = t2" if "?S t1 = Some m1" "?S t2 = Some m2" "manager_get_allocation m1 j \<noteq> None"
      "manager_get_allocation m2 j \<noteq> None" for t1 t2 m1 m2 j
  proof (cases "j = i")
    case True
    then show ?thesis using that others by (metis fun_upd_apply)
  next
    case False
    then have "manager_get_allocation m' j = manager_get_allocation m j" using upd by simp
    then have "\<exists>n. S t1 = Some n \<and> manager_get_allocation n j \<noteq> None" "\<exists>n. S t2 = Some n \<and> manager_get_allocation n j \<noteq> None"
      using that m(1) by (metis fun_upd_apply option.inject)+
    then show ?thesis using inv unfolding composite_inv_def by blast
  qed
  have inv': "composite_inv rnd order ?S"
    unfolding composite_inv_def
  proof (intro conjI allI impI)
    show "set order = dom ?S" using inv m(1) by (auto simp: composite_inv_def)
    show "dyn_inv rnd n" if "?S t' = Some n" for t' n
      using that inv m(2) by (auto simp: composite_inv_def split: if_splits)
  qed (rule uniq)
  have "composite_get_allocation order ?S j = Some a \<longleftrightarrow>
      ((composite_get_allocation order S)(i := x)) j = Some a" for j a
  proof (cases "j = i")
    case True
    then show ?thesis using composite_lookup [OF inv', of j a] upd others
      by (auto split: if_splits)
  next
    case False
    then have same: "manager_get_allocation m' j = manager_get_allocation m j" using upd by simp
    have "(\<exists>t' n. ?S t' = Some n \<and> manager_get_allocation n j = Some a) \<longleftrightarrow>
        (\<exists>t' n. S t' = Some n \<and> manager_get_allocation n j = Some a)"
      using same m(1) by (metis fun_upd_apply option.inject)
    then show ?thesis using composite_lookup [OF inv', of j a] composite_lookup [OF inv, of j a] False by simp
  qed
  then have "composite_get_allocation order ?S = (composite_get_allocation order S)(i := x)"
    by (intro ext) (metis not_None_eq)
  with inv' show ?thesis by simp
qed

interpretation composite: resource_manager "composite_allocate rnd" "composite_deallocate rnd order"
  "composite_get_allocation order" "composite_inv rnd order" for rnd order
proof unfold_locales
  fix S e q a S'
  assume inv: "composite_inv rnd order S" and ok: "composite_allocate rnd e q S = (Ok a, S')"
    and new: "composite_get_allocation order S (al_allocation_id a) = None"
  obtain m m' where m: "S (ar_resource_type q) = Some m" "manager_allocate rnd e q m = (Ok a, m')"
    "S' = S(ar_resource_type q \<mapsto> m')"
    using ok by (auto simp: composite_allocate_def split: option.splits prod.splits)
  have none: "manager_get_allocation n (al_allocation_id a) = None" if "S t = Some n" for t n
    using new that composite_lookup_None [OF inv] by blast
  have "dyn_inv rnd m" using inv m(1) by (simp add: composite_inv_def)
  from dyn.alloc_ok [OF this m(2) none [OF m(1)]] composite_replace [OF inv m(1)] none m(3)
  show "composite_inv rnd order S' \<and>
      composite_get_allocation order S' = (composite_get_allocation order S)(al_allocation_id a \<mapsto> a) \<and> al_request a = q"
    by blast
next
  fix S e q r S'
  assume inv: "composite_inv rnd order S" and r: "composite_allocate rnd e q S = (r, S')" "\<not> is_ok r"
  show "S' = S"
  proof (cases "S (ar_resource_type q)")
    case None
    then show ?thesis using r by (simp add: composite_allocate_def)
  next
    case (Some m)
    obtain m' where m': "manager_allocate rnd e q m = (r, m')" "S' = S(ar_resource_type q \<mapsto> m')"
      using r(1) Some by (auto simp: composite_allocate_def split: prod.splits)
    have "dyn_inv rnd m" using inv Some by (simp add: composite_inv_def)
    from dyn.alloc_fails [OF this m'(1) r(2)] show ?thesis using m'(2) Some by (simp add: fun_upd_idem)
  qed
next
  fix S i e
  assume inv: "composite_inv rnd order S" and "composite_get_allocation order S i \<noteq> None"
  then obtain t m where m: "S t = Some m" "manager_get_allocation m i \<noteq> None"
    using composite_lookup_None [OF inv, of i] by metis
  have o: "owner order i S = Some t" using owner_iff [OF inv] m by blast
  have "dyn_inv rnd m" using inv m(1) by (simp add: composite_inv_def)
  from dyn.dealloc_ok [OF this m(2), of e] obtain m' where m': "manager_deallocate rnd e i m = (Ok (), m')"
    "dyn_inv rnd m'" "manager_get_allocation m' = (manager_get_allocation m)(i := None)" by blast
  have "manager_get_allocation n i = None" if "S t' = Some n" "t' \<noteq> t" for t' n
    using inv m that unfolding composite_inv_def by blast
  from composite_replace [OF inv m(1) m'(2,3) this] o m(1) m'(1)
  show "\<exists>S'. composite_deallocate rnd order e i S = (Ok (), S') \<and> composite_inv rnd order S' \<and>
      composite_get_allocation order S' = (composite_get_allocation order S)(i := None)"
    by (simp add: composite_deallocate_def)
next
  fix S i e
  assume inv: "composite_inv rnd order S" and "composite_get_allocation order S i = None"
  then have "owner order i S = None"
    using owner_iff [OF inv, of i] composite_lookup_None [OF inv, of i] by (metis not_None_eq)
  then show "composite_deallocate rnd order e i S = (Err ResourceUnavailable, S)"
    by (simp add: composite_deallocate_def)
qed

section \<open>Properties\<close>

text \<open>C32. The composite manager keeps the contract of the trait: an allocation granted under a fresh
  identifier can be looked up whichever manager granted it, releasing it succeeds and restores what was
  on record before, and releasing it once more is refused and changes nothing.\<close>

theorem composite_grant_release:
  assumes "composite_inv rnd order S" and "composite_allocate rnd e q S = (Ok a, S1)"
    and "composite_get_allocation order S (al_allocation_id a) = None"
    and "composite_deallocate rnd order e1 (al_allocation_id a) S1 = (r2, S2)"
    and "composite_deallocate rnd order e2 (al_allocation_id a) S2 = (r3, S3)"
  shows "composite_get_allocation order S1 (al_allocation_id a) = Some a \<and> al_request a = q \<and> r2 = Ok () \<and>
    composite_get_allocation order S2 = composite_get_allocation order S \<and>
    r3 = Err ResourceUnavailable \<and> composite_get_allocation order S3 = composite_get_allocation order S"
  using assms by (rule composite.grant_release_once)

definition sample_composite :: composite_manager where
  "sample_composite = add_manager Cpu (CpuManager sample_cpu)
     (add_manager Memory (MemoryManager sample_memory_manager) composite_new)"

lemma sample_composite_inv: "composite_inv (\<lambda>x. x) [Memory, Cpu] sample_composite"
proof -
  have "memory_inv (\<lambda>x. x) sample_memory_manager"
    by (simp add: memory_inv_def sample_memory_manager_def memory_manager_new_def memory_units_def total_allocated_def Let_def)
  then show ?thesis
    by (auto simp: composite_inv_def sample_composite_def add_manager_def composite_new_def cpu_get_allocation_def
        split: if_splits)
qed

lemma sample_composite_empty: "composite_get_allocation [Memory, Cpu] sample_composite i = None"
proof -
  have "memory_get_allocation sample_memory_manager i = None" "cpu_get_allocation sample_cpu i = None"
    by (simp_all add: cpu_get_allocation_def memory_get_allocation_def sample_memory_manager_def
        memory_manager_new_def Let_def)
  then show ?thesis
    by (simp add: composite_get_allocation_def owner_def sample_composite_def add_manager_def composite_new_def)
qed

theorem composite_grant_release_witness:
  "\<exists>a S1. composite_allocate (\<lambda>x. x) ([0, 1], sample_call 1) (sample_cpu_request ''t'') sample_composite = (Ok a, S1) \<and>
     composite_get_allocation [Memory, Cpu] S1 (al_allocation_id a) = Some a \<and>
     fst (composite_deallocate (\<lambda>x. x) [Memory, Cpu] ([0, 1], sample_call 2) (al_allocation_id a) S1) = Ok ()"
proof -
  obtain a m where "cpu_record (\<lambda>x. x) [0, 1] (sample_call 1) (sample_cpu_request ''t'') [0] sample_cpu = (a, m)"
    by fastforce
  then have "cpu_allocate (\<lambda>x. x) [0, 1] (sample_call 1) (sample_cpu_request ''t'') sample_cpu = (Ok a, m)"
    using sample_found by (simp add: cpu_allocate_def)
  then obtain S1 where S1: "composite_allocate (\<lambda>x. x) ([0, 1], sample_call 1) (sample_cpu_request ''t'') sample_composite = (Ok a, S1)"
    by (simp add: composite_allocate_def sample_composite_def add_manager_def)
  obtain r2 S2 where 2: "composite_deallocate (\<lambda>x. x) [Memory, Cpu] ([0, 1], sample_call 2) (al_allocation_id a) S1 = (r2, S2)"
    by (metis surj_pair)
  obtain r3 S3 where 3: "composite_deallocate (\<lambda>x. x) [Memory, Cpu] ([0, 1], sample_call 2) (al_allocation_id a) S2 = (r3, S3)"
    by (metis surj_pair)
  note grant = composite_grant_release [OF sample_composite_inv S1 sample_composite_empty 2 3]
  show ?thesis by (rule exI [of _ a], rule exI [of _ S1]) (use S1 2 grant in simp)
qed

end
