(* ===== verification/Vm_Auto_Recovery.thy ===== *)
theory Vm_Auto_Recovery
  imports Vm_Scheduler
begin

text \<open>
  Automatic recovery of failed machines (\<open>vm_auto_recovery.rs\<close>): restarts with an exponential backoff
  and, when they are used up, migration to a node chosen by the scheduler. The states of the machines
  are behind a lock that is not reentrant; a call that asks for it while its own caller holds it waits
  for ever. The theory shows when restarts are attempted and when the end of the attempts is such a
  wait. The calls made to the node (starting and migrating a machine) are recorded in \<open>av_calls\<close>; what
  the node answers, the readings of the clock and what other calls do while a machine is started are
  the record \<open>recovery_env\<close>.
\<close>

section \<open>State\<close>

text \<open>Durations and instants are nanoseconds.\<close>

record recovery_policy =
  rp_max_restart_attempts :: u32
  rp_restart_delay :: time
  rp_enable_migration :: bool
  rp_backoff_multiplier :: real
  rp_max_backoff_delay :: time

definition recovery_policy_default :: recovery_policy where
  "recovery_policy_default =
     \<lparr>rp_max_restart_attempts = 3, rp_restart_delay = 5 * 10 ^ 9, rp_enable_migration = True,
      rp_backoff_multiplier = 2, rp_max_backoff_delay = 300 * 10 ^ 9\<rparr>"

record vm_recovery_state =
  vr_restart_attempts :: u32
  vr_last_attempt :: time
  vr_current_delay :: time
  vr_exhausted :: bool

type_synonym recovery_states = "string \<rightharpoonup> vm_recovery_state"

text \<open>
  \<open>av_locked\<close> says that the write lock of the states is held; \<open>av_calls\<close> lists the calls that have been
  made to the node, in order.
\<close>

datatype node_call = Call_start_vm string | Call_migrate_vm string u64

record vm_auto_recovery =
  av_policy :: recovery_policy
  av_states :: recovery_states
  av_locked :: bool
  av_calls :: "node_call list"

record 'd recovery_env =
  re_created :: time
  re_checked :: time
  re_attempted :: time
  re_start_vm :: "unit outcome"
  re_others :: "recovery_states \<Rightarrow> recovery_states"
  re_database :: "'d option"
  re_node_id :: u64
  re_migrate_vm :: "u64 \<Rightarrow> unit outcome"

definition vm_auto_recovery_new :: "recovery_policy \<Rightarrow> vm_auto_recovery" where
  "vm_auto_recovery_new policy = \<lparr>av_policy = policy, av_states = Map.empty, av_locked = False, av_calls = []\<rparr>"

section \<open>Operations\<close>

definition get_or_create_recovery_state :: "time \<Rightarrow> recovery_policy \<Rightarrow> string \<Rightarrow> recovery_states \<Rightarrow> vm_recovery_state" where
  "get_or_create_recovery_state now policy vm states =
     (case states vm of
        Some s \<Rightarrow> s
      | None \<Rightarrow> \<lparr>vr_restart_attempts = 0, vr_last_attempt = now - rp_restart_delay policy,
                 vr_current_delay = rp_restart_delay policy, vr_exhausted = False\<rparr>)"

definition is_in_backoff_period :: "time \<Rightarrow> vm_recovery_state \<Rightarrow> bool" where
  "is_in_backoff_period now s \<longleftrightarrow> max 0 (now - vr_last_attempt s) < vr_current_delay s"

text \<open>\<open>Duration::as_secs_f64\<close> and \<open>Duration::from_secs_f64\<close>, which rounds to the nearest nanosecond and
  panics for a negative number or one that is too large.\<close>

definition as_secs_f64 :: "(real \<Rightarrow> real) \<Rightarrow> time \<Rightarrow> real" where
  "as_secs_f64 rnd t =
     rnd (rnd (real_of_int (t div 10 ^ 9)) + rnd (real_of_int (t mod 10 ^ 9) / 10 ^ 9))"

definition round_half_even :: "real \<Rightarrow> int" where
  "round_half_even y =
     (let f = \<lfloor>y\<rfloor>; r = y - real_of_int f
      in if r < 1 / 2 \<or> (r = 1 / 2 \<and> even f) then f else f + 1)"

definition from_secs_f64 :: "real \<Rightarrow> time outcome" where
  "from_secs_f64 x = (if x < 0 \<or> x \<ge> 2 ^ 64 then Panics else Ok (round_half_even (x * 10 ^ 9)))"

definition next_backoff_delay :: "(real \<Rightarrow> real) \<Rightarrow> recovery_policy \<Rightarrow> time \<Rightarrow> time outcome" where
  "next_backoff_delay rnd policy delay =
     from_secs_f64 (min (rnd (as_secs_f64 rnd delay * rp_backoff_multiplier policy))
       (as_secs_f64 rnd (rp_max_backoff_delay policy)))"

text \<open>\<open>recovery_states.write().await\<close>: taking the lock and running the rest.\<close>

definition write_states ::
  "(recovery_states \<Rightarrow> unit outcome \<times> recovery_states) \<Rightarrow> vm_auto_recovery \<Rightarrow> unit outcome \<times> vm_auto_recovery" where
  "write_states f A =
     (if av_locked A then (Blocks, A)
      else case f (av_states A) of (r, states) \<Rightarrow> (r, A\<lparr>av_states := states\<rparr>))"

definition mark_exhausted :: "string \<Rightarrow> recovery_states \<Rightarrow> recovery_states" where
  "mark_exhausted vm states = states(vm := map_option (\<lambda>s. s\<lparr>vr_exhausted := True\<rparr>) (states vm))"

definition attempt_migration ::
  "(real \<Rightarrow> real) \<Rightarrow> (string \<Rightarrow> u64) \<Rightarrow> ('d, 't, 'r) redb \<Rightarrow> scheduler_codec \<Rightarrow> 'd recovery_env \<Rightarrow>
     string \<Rightarrow> vm_config \<Rightarrow> vm_auto_recovery \<Rightarrow> unit outcome \<times> vm_auto_recovery" where
  "attempt_migration rnd hash R K e vm config A =
     (case re_database e of
        None \<Rightarrow> (Err (Internal ''Database not initialized''), A)
      | Some d \<Rightarrow>
          (case schedule_vm_placement rnd hash R K config MostAvailable d of
             Err x \<Rightarrow> (Err x, A) | Panics \<Rightarrow> (Panics, A) | Blocks \<Rightarrow> (Blocks, A)
           | Ok p \<Rightarrow>
               if pd_target_node_id p = re_node_id e
               then (Err (VmOperationFailed ''auto_recovery_migration''), A)
               else
                 let A = A\<lparr>av_calls := av_calls A @ [Call_migrate_vm vm (pd_target_node_id p)]\<rparr> in
                 case re_migrate_vm e (pd_target_node_id p) of
                      Ok _ \<Rightarrow> write_states (\<lambda>states. (Ok (), states(vm := None))) A
                    | Err x \<Rightarrow> write_states (\<lambda>states. (Err x, mark_exhausted vm states)) A
                    | Panics \<Rightarrow> (Panics, A) | Blocks \<Rightarrow> (Blocks, A)))"

definition handle_restart_exhausted ::
  "(real \<Rightarrow> real) \<Rightarrow> (string \<Rightarrow> u64) \<Rightarrow> ('d, 't, 'r) redb \<Rightarrow> scheduler_codec \<Rightarrow> 'd recovery_env \<Rightarrow>
     string \<Rightarrow> vm_config \<Rightarrow> vm_auto_recovery \<Rightarrow> unit outcome \<times> vm_auto_recovery" where
  "handle_restart_exhausted rnd hash R K e vm config A =
     (if rp_enable_migration (av_policy A) then attempt_migration rnd hash R K e vm config A
      else write_states (\<lambda>states. (Err (VmOperationFailed ''auto_recovery''), mark_exhausted vm states)) A)"

text \<open>The caller holds the lock.\<close>

definition handle_restart_failure ::
  "(real \<Rightarrow> real) \<Rightarrow> (string \<Rightarrow> u64) \<Rightarrow> ('d, 't, 'r) redb \<Rightarrow> scheduler_codec \<Rightarrow> 'd recovery_env \<Rightarrow>
     string \<Rightarrow> vm_config \<Rightarrow> blixard_error \<Rightarrow> vm_auto_recovery \<Rightarrow> unit outcome \<times> vm_auto_recovery" where
  "handle_restart_failure rnd hash R K e vm config x A =
     (case av_states A vm of
        None \<Rightarrow> (Err (Internal (''Recovery state missing for VM '' @ [CHR 0x27] @ vm @ [CHR 0x27] @
                  '' during failure handling'')), A)
      | Some s \<Rightarrow>
          if vr_restart_attempts s \<ge> rp_max_restart_attempts (av_policy A)
          then handle_restart_exhausted rnd hash R K e vm config A
          else case next_backoff_delay rnd (av_policy A) (vr_current_delay s) of
                 Ok delay \<Rightarrow> (Err x, A\<lparr>av_states := (av_states A)(vm \<mapsto> s\<lparr>vr_current_delay := delay\<rparr>)\<rparr>)
               | _ \<Rightarrow> (Panics, A))"

text \<open>Releasing the guard when the call returns.\<close>

fun unlock :: "unit outcome \<times> vm_auto_recovery \<Rightarrow> unit outcome \<times> vm_auto_recovery" where
  "unlock (Blocks, A) = (Blocks, A)"
| "unlock (r, A) = (r, A\<lparr>av_locked := False\<rparr>)"

definition trigger_recovery ::
  "(real \<Rightarrow> real) \<Rightarrow> (string \<Rightarrow> u64) \<Rightarrow> ('d, 't, 'r) redb \<Rightarrow> scheduler_codec \<Rightarrow> 'd recovery_env \<Rightarrow>
     string \<Rightarrow> vm_config \<Rightarrow> vm_auto_recovery \<Rightarrow> unit outcome \<times> vm_auto_recovery" where
  "trigger_recovery rnd hash R K e vm config A =
     (if av_locked A then (Blocks, A)
      else
        let s = get_or_create_recovery_state (re_created e) (av_policy A) vm (av_states A)
        in if vr_exhausted s
           then (Err (VmOperationFailed ''auto_recovery''), A\<lparr>av_states := (av_states A)(vm \<mapsto> s)\<rparr>)
           else if is_in_backoff_period (re_checked e) s
           then (Ok (), A\<lparr>av_states := (av_states A)(vm \<mapsto> s)\<rparr>)
           else
             let s = s\<lparr>vr_restart_attempts := vr_restart_attempts s + 1, vr_last_attempt := re_attempted e\<rparr>;
                 A = A\<lparr>av_states := re_others e ((av_states A)(vm \<mapsto> s)),
                       av_calls := av_calls A @ [Call_start_vm vm]\<rparr>
             in case re_start_vm e of
                  Ok _ \<Rightarrow> (Ok (), A\<lparr>av_states := (av_states A)(vm := None)\<rparr>)
                | Err x \<Rightarrow> unlock (handle_restart_failure rnd hash R K e vm config x (A\<lparr>av_locked := True\<rparr>))
                | Panics \<Rightarrow> (Panics, A) | Blocks \<Rightarrow> (Blocks, A))"

definition reset_recovery_state :: "string \<Rightarrow> vm_auto_recovery \<Rightarrow> unit outcome \<times> vm_auto_recovery" where
  "reset_recovery_state vm = write_states (\<lambda>states. (Ok (), states(vm := None)))"

definition get_recovery_stats :: "vm_auto_recovery \<Rightarrow> (string \<rightharpoonup> u32 \<times> bool) outcome" where
  "get_recovery_stats A =
     (if av_locked A then Blocks
      else Ok (\<lambda>vm. map_option (\<lambda>s. (vr_restart_attempts s, vr_exhausted s)) (av_states A vm)))"

section \<open>Lemmas\<close>

lemma locked_blocks:
  assumes "av_locked A"
  shows "write_states f A = (Blocks, A)" and "trigger_recovery rnd hash R K e vm config A = (Blocks, A)"
    and "reset_recovery_state vm A = (Blocks, A)" and "get_recovery_stats A = Blocks"
  using assms by (simp_all add: write_states_def trigger_recovery_def reset_recovery_state_def get_recovery_stats_def)

section \<open>Properties\<close>

text \<open>
  C33. Restarts are paced by the backoff. A call for a machine without a record starts from a fresh
  record, and (unless the clock goes back) is never held off. Once recovery is given up, a call reports
  an error and calls nothing on the node; while the delay since the last attempt has not passed, it
  reports success and calls nothing. Otherwise it calls \<open>start_vm\<close> exactly once: a successful start
  forgets the machine, and a failed one below the limit of attempts reports the error, counts one
  attempt at the time it was made, and sets the delay to the old one times the multiplier, but at most
  the configured maximum, computed in floating-point seconds and rounded to nanoseconds (the
  conversion panics outside its range, which is excluded here). No other call interferes while the
  machine is started.
\<close>

theorem recovery_paced:
  fixes e :: "'d recovery_env"
  assumes "\<not> av_locked A" and "\<forall>states. re_others e states = states"
    and "s = get_or_create_recovery_state (re_created e) (av_policy A) vm (av_states A)"
    and "seconds = min (rnd (as_secs_f64 rnd (vr_current_delay s) * rp_backoff_multiplier (av_policy A)))
      (as_secs_f64 rnd (rp_max_backoff_delay (av_policy A)))"
  shows "(av_states A vm = None \<and> re_created e \<le> re_checked e \<longrightarrow>
            \<not> vr_exhausted s \<and> \<not> is_in_backoff_period (re_checked e) s) \<and>
    (vr_exhausted s \<longrightarrow> trigger_recovery rnd hash R K e vm config A =
       (Err (VmOperationFailed ''auto_recovery''), A\<lparr>av_states := (av_states A)(vm \<mapsto> s)\<rparr>)) \<and>
    (\<not> vr_exhausted s \<and> is_in_backoff_period (re_checked e) s \<longrightarrow>
       trigger_recovery rnd hash R K e vm config A = (Ok (), A\<lparr>av_states := (av_states A)(vm \<mapsto> s)\<rparr>)) \<and>
    (\<not> vr_exhausted s \<and> \<not> is_in_backoff_period (re_checked e) s \<longrightarrow>
       (re_start_vm e = Ok () \<longrightarrow> trigger_recovery rnd hash R K e vm config A =
          (Ok (), A\<lparr>av_states := (av_states A)(vm := None), av_calls := av_calls A @ [Call_start_vm vm]\<rparr>)) \<and>
       (\<forall>x. re_start_vm e = Err x \<and> vr_restart_attempts s + 1 < rp_max_restart_attempts (av_policy A) \<and>
            0 \<le> seconds \<and> seconds < 2 ^ 64 \<longrightarrow>
          trigger_recovery rnd hash R K e vm config A =
            (Err x, A\<lparr>av_states := (av_states A)(vm \<mapsto> \<lparr>vr_restart_attempts = vr_restart_attempts s + 1,
                        vr_last_attempt = re_attempted e,
                        vr_current_delay = round_half_even (seconds * 10 ^ 9), vr_exhausted = False\<rparr>),
                      av_calls := av_calls A @ [Call_start_vm vm]\<rparr>)))"
proof (cases "vr_exhausted s \<or> is_in_backoff_period (re_checked e) s")
  case True
  then have "\<not> (av_states A vm = None \<and> re_created e \<le> re_checked e)"
    by (auto simp: assms(3) get_or_create_recovery_state_def is_in_backoff_period_def)
  with True assms(1) show ?thesis by (auto simp: trigger_recovery_def Let_def assms(3))
next
  case False
  let ?s = "s\<lparr>vr_restart_attempts := vr_restart_attempts s + 1, vr_last_attempt := re_attempted e\<rparr>"
  have step: "trigger_recovery rnd hash R K e vm config A =
      (let A = A\<lparr>av_states := (av_states A)(vm \<mapsto> ?s), av_calls := av_calls A @ [Call_start_vm vm]\<rparr>
       in case re_start_vm e of
            Ok _ \<Rightarrow> (Ok (), A\<lparr>av_states := (av_states A)(vm := None)\<rparr>)
          | Err x \<Rightarrow> unlock (handle_restart_failure rnd hash R K e vm config x (A\<lparr>av_locked := True\<rparr>))
          | Panics \<Rightarrow> (Panics, A) | Blocks \<Rightarrow> (Blocks, A))"
    using False assms(1,2) unfolding trigger_recovery_def assms(3) [symmetric] by (simp add: Let_def)
  have "next_backoff_delay rnd (av_policy A) (vr_current_delay s) = Ok (round_half_even (seconds * 10 ^ 9))"
    if "0 \<le> seconds" "seconds < 2 ^ 64"
    using that unfolding next_backoff_delay_def assms(4) [symmetric] from_secs_f64_def by simp
  then show ?thesis
    using False assms(1) unfolding step
    by (auto simp: Let_def handle_restart_failure_def not_le) (cases A; cases s; simp)
qed

text \<open>
  C34. What happens when the last restart attempt of a machine fails. If migration is disabled, or if
  the scheduler proposes another node and \<open>migrate_vm\<close> does not panic there, the call never returns: it
  asks for the lock of the states while it holds it, and from then on every other recovery call, for
  any machine, waits as well. With migration enabled and no database, a scheduling error or the current
  node as the choice, it returns an error, and the attempt is recorded without a longer delay and
  without marking the recovery as exhausted. No other call interferes while the machine is started.
\<close>

theorem exhausted_recovery_blocks:
  fixes e :: "'d recovery_env"
  assumes "\<not> av_locked A" and "\<forall>states. re_others e states = states"
    and "s = get_or_create_recovery_state (re_created e) (av_policy A) vm (av_states A)"
    and "\<not> vr_exhausted s" and "\<not> is_in_backoff_period (re_checked e) s"
    and "re_start_vm e = Err x" and "vr_restart_attempts s + 1 \<ge> rp_max_restart_attempts (av_policy A)"
    and "A1 = A\<lparr>av_states := (av_states A)(vm \<mapsto> s\<lparr>vr_restart_attempts := vr_restart_attempts s + 1,
                  vr_last_attempt := re_attempted e\<rparr>),
                av_calls := av_calls A @ [Call_start_vm vm]\<rparr>"
  shows "(\<not> rp_enable_migration (av_policy A) \<or>
          (\<exists>d p. re_database e = Some d \<and> schedule_vm_placement rnd hash R K config MostAvailable d = Ok p \<and>
             pd_target_node_id p \<noteq> re_node_id e \<and> re_migrate_vm e (pd_target_node_id p) \<noteq> Panics) \<longrightarrow>
          (\<exists>A'. trigger_recovery rnd hash R K e vm config A = (Blocks, A') \<and>
             trigger_recovery rnd hash R K e' vm' config' A' = (Blocks, A') \<and>
             reset_recovery_state vm' A' = (Blocks, A') \<and> get_recovery_stats A' = Blocks)) \<and>
    (rp_enable_migration (av_policy A) \<and> re_database e = None \<longrightarrow>
       trigger_recovery rnd hash R K e vm config A = (Err (Internal ''Database not initialized''), A1)) \<and>
    (\<forall>d. rp_enable_migration (av_policy A) \<and> re_database e = Some d \<longrightarrow>
       (\<forall>y. schedule_vm_placement rnd hash R K config MostAvailable d = Err y \<longrightarrow>
          trigger_recovery rnd hash R K e vm config A = (Err y, A1)) \<and>
       (\<forall>p. schedule_vm_placement rnd hash R K config MostAvailable d = Ok p \<and>
            pd_target_node_id p = re_node_id e \<longrightarrow>
          trigger_recovery rnd hash R K e vm config A =
            (Err (VmOperationFailed ''auto_recovery_migration''), A1)))"
proof -
  let ?A = "A1\<lparr>av_locked := True\<rparr>"
  have step: "trigger_recovery rnd hash R K e vm config A =
      unlock (handle_restart_exhausted rnd hash R K e vm config ?A)"
    using assms(1,2,4-7) unfolding trigger_recovery_def assms(3) [symmetric] assms(8)
    by (simp add: Let_def handle_restart_failure_def)
  have policy: "av_policy ?A = av_policy A" "\<not> av_locked A1" by (simp_all add: assms(1,8))
  have "\<exists>A'. handle_restart_exhausted rnd hash R K e vm config ?A = (Blocks, A') \<and> av_locked A'"
    if "\<not> rp_enable_migration (av_policy A) \<or>
      (\<exists>d p. re_database e = Some d \<and> schedule_vm_placement rnd hash R K config MostAvailable d = Ok p \<and>
         pd_target_node_id p \<noteq> re_node_id e \<and> re_migrate_vm e (pd_target_node_id p) \<noteq> Panics)"
    using that
    by (auto simp: handle_restart_exhausted_def attempt_migration_def policy write_states_def Let_def
        split: outcome.split)
  moreover have "A1\<lparr>av_locked := False\<rparr> = A1" using policy(2) by (cases A1) simp
  ultimately show ?thesis
    unfolding step
    by (fastforce simp: handle_restart_exhausted_def attempt_migration_def policy locked_blocks)
qed

section \<open>A machine that does not start\<close>

definition sample_recovery_env :: "mem_db recovery_env" where
  "sample_recovery_env = \<lparr>re_created = 0, re_checked = 10 ^ 10, re_attempted = 10 ^ 10,
     re_start_vm = Err TemporaryFailure, re_others = (\<lambda>states. states), re_database = None, re_node_id = 1,
     re_migrate_vm = (\<lambda>_. Ok ())\<rparr>"

definition sample_attempts :: "u32 \<Rightarrow> vm_recovery_state" where
  "sample_attempts n = \<lparr>vr_restart_attempts = n, vr_last_attempt = 0, vr_current_delay = 5 * 10 ^ 9,
     vr_exhausted = False\<rparr>"

definition sample_recovery :: "bool \<Rightarrow> u32 \<Rightarrow> vm_auto_recovery" where
  "sample_recovery migration n = \<lparr>av_policy = recovery_policy_default\<lparr>rp_enable_migration := migration\<rparr>,
     av_states = [''v'' \<mapsto> sample_attempts n], av_locked = False, av_calls = []\<rparr>"

abbreviation sample_trigger :: "vm_auto_recovery \<Rightarrow> unit outcome \<times> vm_auto_recovery" where
  "sample_trigger \<equiv> trigger_recovery (\<lambda>x. x) (\<lambda>_. 0) mem_redb sample_scheduler_codec sample_recovery_env ''v''
     vm_config_default"

lemma sample_record:
  "sample_attempts n = get_or_create_recovery_state (re_created sample_recovery_env)
     (av_policy (sample_recovery migration n)) ''v'' (av_states (sample_recovery migration n))"
  by (simp add: get_or_create_recovery_state_def sample_recovery_def)

text \<open>The second attempt fails: the delay of five seconds is doubled.\<close>

theorem recovery_paced_witness:
  "\<exists>A'. sample_trigger (sample_recovery True 1) = (Err TemporaryFailure, A') \<and>
     map_option vr_current_delay (av_states A' ''v'') = Some (10 * 10 ^ 9) \<and>
     av_calls A' = [Call_start_vm ''v'']"
proof -
  have others: "\<forall>states. re_others sample_recovery_env states = states"
    by (simp add: sample_recovery_env_def)
  have lock: "\<not> av_locked (sample_recovery True 1)" by (simp add: sample_recovery_def)
  have secs: "(10 :: real) = min ((as_secs_f64 (\<lambda>x. x) (vr_current_delay (sample_attempts 1)) *
      rp_backoff_multiplier (av_policy (sample_recovery True 1))))
      (as_secs_f64 (\<lambda>x. x) (rp_max_backoff_delay (av_policy (sample_recovery True 1))))"
    by (simp add: as_secs_f64_def sample_attempts_def sample_recovery_def recovery_policy_default_def)
  show ?thesis
    using recovery_paced [OF lock others sample_record secs, where hash = "\<lambda>_. 0" and R = mem_redb and
        K = sample_scheduler_codec and config = vm_config_default]
    by (simp add: sample_recovery_def sample_attempts_def recovery_policy_default_def
        sample_recovery_env_def is_in_backoff_period_def round_half_even_def word_less_nat_alt)
qed

text \<open>The third one fails: without migration the call waits, with migration and no database it returns.\<close>

theorem exhausted_recovery_blocks_witness:
  "(\<exists>A'. sample_trigger (sample_recovery False 2) = (Blocks, A') \<and> get_recovery_stats A' = Blocks) \<and>
   fst (sample_trigger (sample_recovery True 2)) = Err (Internal ''Database not initialized'')"
proof -
  have others: "\<forall>states. re_others sample_recovery_env states = states"
    by (simp add: sample_recovery_env_def)
  have side: "\<not> av_locked (sample_recovery b 2)" "\<not> vr_exhausted (sample_attempts 2)"
    "\<not> is_in_backoff_period (re_checked sample_recovery_env) (sample_attempts 2)"
    "re_start_vm sample_recovery_env = Err TemporaryFailure"
    "vr_restart_attempts (sample_attempts 2) + 1 \<ge> rp_max_restart_attempts (av_policy (sample_recovery b 2))"
    "rp_enable_migration (av_policy (sample_recovery b 2)) = b" "re_database sample_recovery_env = None" for b
    by (simp_all add: sample_recovery_def sample_attempts_def sample_recovery_env_def recovery_policy_default_def
        is_in_backoff_period_def)
  note blocks = exhausted_recovery_blocks [OF side(1) others sample_record side(2-5) refl,
      where rnd = "\<lambda>x. x" and hash = "\<lambda>_. 0" and R = mem_redb and K = sample_scheduler_codec and
        config = vm_config_default and e' = sample_recovery_env and vm' = "''v''" and config' = vm_config_default]
  have "fst (sample_trigger (sample_recovery True 2)) = Err (Internal ''Database not initialized'')"
    using blocks [of True] unfolding side(6,7) by simp
  moreover have "\<exists>A'. sample_trigger (sample_recovery False 2) = (Blocks, A') \<and> get_recovery_stats A' = Blocks"
    using blocks [of False] unfolding side(6,7) by blast
  ultimately show ?thesis by (rule conjI [rotated])
qed

end
